theory Spec2Isabelle
  imports Main
begin

section \<open>Data model\<close>

text \<open>
  The synchronisation engine of the task manager: \<open>TodoistService\<close> (pull, push and the
  mappers), the \<open>POST /sync\<close> route, the WebSocket broadcaster and the mutation routes.
  Rows of the local store are records, the store is a record of tables (lists, in
  insertion order), a thrown value is a value of a sum type, and the requests sent to the
  remote service are collected in a trace. Creation and update timestamps are left out.
\<close>

datatype sync_status = SYNCED | PENDING_UPLOAD | ERROR

record project =
  p_id :: string
  p_name :: string
  p_color :: string
  p_todoistId :: "string option"
  p_syncStatus :: sync_status

text \<open>A due date is held as the ISO-8601 rendering of the \<open>Date\<close> object.\<close>

record task =
  t_id :: string
  t_text :: string
  t_completed :: bool
  t_priority :: int
  t_notes :: "string option"
  t_dueDate :: "string option"
  t_projectId :: string
  t_parentId :: "string option"
  t_todoistId :: "string option"
  t_syncStatus :: sync_status
  t_metadata :: "string option"

datatype entity_type = Project_entity | Task_entity

datatype sync_action = CREATE | UPDATE

datatype sync_direction = TO_TODOIST | FROM_TODOIST | BIDIRECTIONAL

record sync_log =
  l_entityType :: entity_type
  l_entityId :: string
  l_action :: sync_action
  l_direction :: sync_direction
  l_todoistId :: "string option"
  l_errorMessage :: "string option"
  l_projectId :: "string option"
  l_taskId :: "string option"

text \<open>
  A thrown value is an \<open>Error\<close> with its message or something else; the catch blocks read
  \<open>error instanceof Error ? error.message : 'Unknown error'\<close>.
\<close>

datatype exn = Error string | NonError

definition error_message :: "exn \<Rightarrow> string" where
  "error_message e = (case e of Error m \<Rightarrow> m | NonError \<Rightarrow> ''Unknown error'')"

section \<open>The remote service\<close>

record remote_project =
  rp_id :: string
  rp_name :: string
  rp_color :: string

record remote_task =
  rt_id :: string
  rt_content :: string
  rt_isCompleted :: bool
  rt_priority :: int
  rt_description :: "string option"
  rt_due_datetime :: "string option"
  rt_projectId :: string

text \<open>
  The shapes a listing can come back in: a bare array, an object whose \<open>results\<close> is an
  array, an object with no (or a falsy) \<open>results\<close>, an object whose \<open>results\<close> is truthy
  but no array (with its \<open>typeof\<close>), and a value that is no object (with its \<open>typeof\<close>;
  \<open>null\<close> belongs here).
\<close>

datatype 'a api_response =
    ArrayResponse "'a list"
  | ResultsResponse "'a list"
  | ObjectNoResults
  | ObjectBadResults string
  | NonObject string

record task_data =
  td_content :: string
  td_projectId :: string
  td_description :: string
  td_priority :: int
  td_dueDate :: "string option"

datatype request =
    GetProjects
  | GetTasks
  | AddProject string
  | UpdateProject string string
  | AddTask task_data
  | UpdateTask string task_data
  | CloseTask string
  | ReopenTask string

text \<open>
  The remote client. Each operation answers from the requests made so far (so the remote
  may change its mind from call to call) and either throws (\<open>Inl\<close>) or returns. The two
  create operations return the new remote id, the only field the engine reads.
\<close>

record remote_api =
  getProjects :: "request list \<Rightarrow> exn + remote_project api_response"
  getTasks :: "request list \<Rightarrow> exn + remote_task api_response"
  addProject :: "request list \<Rightarrow> string \<Rightarrow> exn + string"
  updateProject :: "request list \<Rightarrow> string \<Rightarrow> string \<Rightarrow> exn + unit"
  addTask :: "request list \<Rightarrow> task_data \<Rightarrow> exn + string"
  updateTask :: "request list \<Rightarrow> string \<Rightarrow> task_data \<Rightarrow> exn + unit"
  closeTask :: "request list \<Rightarrow> string \<Rightarrow> exn + unit"
  reopenTask :: "request list \<Rightarrow> string \<Rightarrow> exn + unit"

section \<open>The local store\<close>

record world =
  projects :: "project list"
  tasks :: "task list"
  syncLogs :: "sync_log list"
  requests :: "request list"

definition sent :: "request \<Rightarrow> world \<Rightarrow> world" where
  "sent r w = w\<lparr>requests := requests w @ [r]\<rparr>"

text \<open>JavaScript truthiness of an optional string: \<open>null\<close> and \<open>''\<close> are falsy.\<close>

definition truthy :: "string option \<Rightarrow> bool" where
  "truthy v = (case v of None \<Rightarrow> False | Some s \<Rightarrow> s \<noteq> [])"

definition str_of :: "string option \<Rightarrow> string" where
  "str_of v = (case v of None \<Rightarrow> [] | Some s \<Rightarrow> s)"

definition find_project :: "string \<Rightarrow> project list \<Rightarrow> project option" where
  "find_project i ps = find (\<lambda>p. p_id p = i) ps"

definition find_project_by_todoistId :: "string \<Rightarrow> project list \<Rightarrow> project option" where
  "find_project_by_todoistId r ps = find (\<lambda>p. p_todoistId p = Some r) ps"

definition find_task :: "string \<Rightarrow> task list \<Rightarrow> task option" where
  "find_task i ts = find (\<lambda>t. t_id t = i) ts"

definition find_task_by_todoistId :: "string \<Rightarrow> task list \<Rightarrow> task option" where
  "find_task_by_todoistId r ts = find (\<lambda>t. t_todoistId t = Some r) ts"

definition update_project :: "string \<Rightarrow> (project \<Rightarrow> project) \<Rightarrow> world \<Rightarrow> world" where
  "update_project i f w = w\<lparr>projects := map (\<lambda>p. if p_id p = i then f p else p) (projects w)\<rparr>"

definition update_task :: "string \<Rightarrow> (task \<Rightarrow> task) \<Rightarrow> world \<Rightarrow> world" where
  "update_task i f w = w\<lparr>tasks := map (\<lambda>t. if t_id t = i then f t else t) (tasks w)\<rparr>"

text \<open>
  The unique indexes \<open>projects_todoistId_key\<close> and \<open>tasks_todoistId_key\<close>: a write that
  gives a row the remote id of another row is rejected by the store (the call throws).
\<close>

definition project_todoistId_taken :: "string \<Rightarrow> string \<Rightarrow> project list \<Rightarrow> bool" where
  "project_todoistId_taken r i ps = list_ex (\<lambda>p. p_id p \<noteq> i \<and> p_todoistId p = Some r) ps"

definition task_todoistId_taken :: "string \<Rightarrow> string \<Rightarrow> task list \<Rightarrow> bool" where
  "task_todoistId_taken r i ts = list_ex (\<lambda>t. t_id t \<noteq> i \<and> t_todoistId t = Some r) ts"

definition unique_violation :: exn where
  "unique_violation = Error ''Unique constraint failed on the fields: (todoistId)''"

text \<open>
  Modelled from the spec: the primary key of a created row is generated by the store
  (the Prisma schema is not part of the sources); the spec only says that the local id is
  the row's own and immutable. The model picks a key longer than every key in the table.
\<close>

definition fresh_id :: "string list \<Rightarrow> string" where
  "fresh_id used = replicate (Suc (foldr (\<lambda>s n. max (length s) n) used 0)) (CHR ''c'')"

text \<open>\<open>logSync\<close>: one row appended to the sync log, owned by the project or the task.\<close>

definition logSync ::
  "entity_type \<Rightarrow> string \<Rightarrow> sync_action \<Rightarrow> sync_direction \<Rightarrow> string option \<Rightarrow> string option \<Rightarrow>
   world \<Rightarrow> world" where
  "logSync entityType entityId act direction todoistId errorMessage w =
     w\<lparr>syncLogs := syncLogs w @
       [\<lparr>l_entityType = entityType, l_entityId = entityId, l_action = act,
         l_direction = direction, l_todoistId = todoistId, l_errorMessage = errorMessage,
         l_projectId = (if entityType = Project_entity then Some entityId else None),
         l_taskId = (if entityType = Project_entity then None else Some entityId)\<rparr>]\<rparr>"

section \<open>Mappers\<close>

text \<open>
  \<open>mapTodoistColor\<close>: the argument is the colour after \<open>toString()\<close>, so a legacy numeric
  code arrives as its decimal digits. The table is an object literal, and the lookup
  \<open>colorMap[key]\<close> answers for its own keys and for the names every object inherits from
  \<open>Object.prototype\<close>: for those it gives a function or an object, which is truthy, so
  the fallback \<open>|| 'blue'\<close> is not taken and the value returned is no string.
\<close>

definition colorMap :: "(string \<times> string) list" where
  "colorMap =
    [(''berry_red'', ''red''), (''red'', ''red''), (''orange'', ''orange''),
     (''yellow'', ''yellow''), (''olive_green'', ''green''), (''green'', ''green''),
     (''teal'', ''blue''), (''blue'', ''blue''), (''purple'', ''purple''),
     (''pink'', ''purple''), (''brown'', ''gray''), (''gray'', ''gray''),
     (''charcoal'', ''gray''), (''grey'', ''gray''),
     (''30'', ''red''), (''31'', ''orange''), (''32'', ''yellow''), (''33'', ''green''),
     (''34'', ''blue''), (''35'', ''purple''), (''36'', ''pink''), (''37'', ''brown''),
     (''38'', ''gray''), (''39'', ''gray'')]"

definition objectPrototype :: "string list" where
  "objectPrototype =
    [''constructor'', ''hasOwnProperty'', ''isPrototypeOf'', ''propertyIsEnumerable'',
     ''toLocaleString'', ''toString'', ''valueOf'', ''__proto__'',
     ''__defineGetter__'', ''__defineSetter__'', ''__lookupGetter__'', ''__lookupSetter__'']"

datatype color_value = LocalColor string | InheritedMember string

definition mapTodoistColor :: "string \<Rightarrow> color_value" where
  "mapTodoistColor todoistColor =
     (case map_of colorMap todoistColor of
        Some c \<Rightarrow> LocalColor c
      | None \<Rightarrow>
          if todoistColor \<in> set objectPrototype then InheritedMember todoistColor
          else LocalColor ''blue'')"

text \<open>\<open>mapTodoistPriority\<close> and \<open>mapToTodoistPriority\<close>: both return \<open>5 - p\<close>.\<close>

definition mapTodoistPriority :: "int \<Rightarrow> int" where
  "mapTodoistPriority todoistPriority = 5 - todoistPriority"

definition mapToTodoistPriority :: "int \<Rightarrow> int" where
  "mapToTodoistPriority priority = 5 - priority"

section \<open>Result records\<close>

datatype result_action = act_created | act_updated | act_uploaded | act_error

text \<open>
  The pull operations push \<open>{action, project}\<close> and \<open>{action, task}\<close>, the push operation
  pushes \<open>{type, action, id, error?}\<close>.
\<close>

datatype sync_result =
    ProjectResult result_action project
  | TaskResult result_action task
  | UploadResult entity_type result_action string "exn option"

fun r_action :: "sync_result \<Rightarrow> result_action" where
  "r_action (ProjectResult a p) = a"
| "r_action (TaskResult a t) = a"
| "r_action (UploadResult ty a i e) = a"

section \<open>Pull: \<open>syncProjectsFromTodoist\<close>\<close>

text \<open>
  The column \<open>color\<close> of a project is a string: the store refuses to create a row whose
  colour is anything else, and \<open>prisma.project.create\<close> throws (the message is the
  store's, shortened here).
\<close>

definition invalid_color :: exn where
  "invalid_color = Error ''Argument color: Invalid value provided. Expected String''"

text \<open>The body of the loop over the remote projects.\<close>

definition pull_project :: "remote_project \<Rightarrow> world \<Rightarrow> (exn + sync_result) \<times> world" where
  "pull_project todoistProject w =
     (case find_project_by_todoistId (rp_id todoistProject) (projects w) of
        Some existingProject \<Rightarrow>
          (let updatedProject =
                 existingProject\<lparr>p_name := rp_name todoistProject, p_syncStatus := SYNCED\<rparr>;
               w1 = update_project (p_id existingProject)
                      (\<lambda>p. p\<lparr>p_name := rp_name todoistProject, p_syncStatus := SYNCED\<rparr>) w;
               w2 = logSync Project_entity (p_id existingProject) UPDATE FROM_TODOIST
                      (Some (rp_id todoistProject)) None w1
           in (Inr (ProjectResult act_updated updatedProject), w2))
      | None \<Rightarrow>
          (case mapTodoistColor (rp_color todoistProject) of
             InheritedMember m \<Rightarrow> (Inl invalid_color, w)
           | LocalColor color \<Rightarrow>
               (let newProject =
                      \<lparr>p_id = fresh_id (map p_id (projects w)),
                       p_name = rp_name todoistProject,
                       p_color = color,
                       p_todoistId = Some (rp_id todoistProject),
                       p_syncStatus = SYNCED\<rparr>;
                    w1 = w\<lparr>projects := projects w @ [newProject]\<rparr>;
                    w2 = logSync Project_entity (p_id newProject) CREATE FROM_TODOIST
                           (Some (rp_id todoistProject)) None w1
                in (Inr (ProjectResult act_created newProject), w2))))"

text \<open>The loop: a thrown value ends it, and what the store holds by then stays.\<close>

fun pull_projects :: "remote_project list \<Rightarrow> world \<Rightarrow> (exn + sync_result list) \<times> world" where
  "pull_projects [] w = (Inr [], w)"
| "pull_projects (todoistProject # rest) w =
     (case pull_project todoistProject w of
        (Inl e, w1) \<Rightarrow> (Inl e, w1)
      | (Inr r, w1) \<Rightarrow>
          (case pull_projects rest w1 of
             (Inl e, w2) \<Rightarrow> (Inl e, w2)
           | (Inr rs, w2) \<Rightarrow> (Inr (r # rs), w2)))"

definition invalid_projects_response :: "string \<Rightarrow> exn" where
  "invalid_projects_response ty =
     Error (''Invalid response from Todoist API: expected array or object with results array, got '' @ ty)"

definition syncProjectsFromTodoist ::
  "remote_api \<Rightarrow> world \<Rightarrow> (exn + sync_result list) \<times> world" where
  "syncProjectsFromTodoist api w =
     (let w1 = sent GetProjects w in
      case getProjects api (requests w) of
        Inl e \<Rightarrow> (Inl e, w1)
      | Inr response \<Rightarrow>
          (case response of
             ArrayResponse todoistProjects \<Rightarrow> pull_projects todoistProjects w1
           | ResultsResponse todoistProjects \<Rightarrow> pull_projects todoistProjects w1
           | ObjectNoResults \<Rightarrow> (Inl (invalid_projects_response ''object''), w1)
           | ObjectBadResults ty \<Rightarrow> (Inl (invalid_projects_response ''object''), w1)
           | NonObject ty \<Rightarrow> (Inl (invalid_projects_response ty), w1)))"

section \<open>Pull: \<open>syncTasksFromTodoist\<close>\<close>

text \<open>
  The body of the loop over the remote tasks; a task whose remote project is unknown
  locally is passed over (\<open>continue\<close>) and contributes no result. The due date
  \<open>new Date(todoistTask.due.datetime)\<close> is held as the string it is built from: the
  remote is taken to send instants in UTC, where that string and the rendering of the
  \<open>Date\<close> give the same day. The conversion of an instant sent with an offset is not
  modelled, and nothing below depends on the value of a due date.
\<close>

definition pull_task :: "remote_task \<Rightarrow> world \<Rightarrow> sync_result list \<times> world" where
  "pull_task todoistTask w =
     (case find_project_by_todoistId (rt_projectId todoistTask) (projects w) of
        None \<Rightarrow> ([], w)
      | Some project \<Rightarrow>
          (let text' = rt_content todoistTask;
               completed = rt_isCompleted todoistTask;
               priority = mapTodoistPriority (rt_priority todoistTask);
               notes = (if truthy (rt_description todoistTask)
                        then str_of (rt_description todoistTask) else []);
               dueDate = (if truthy (rt_due_datetime todoistTask)
                          then rt_due_datetime todoistTask else None)
           in case find_task_by_todoistId (rt_id todoistTask) (tasks w) of
                Some existingTask \<Rightarrow>
                  (let upd = (\<lambda>t. t\<lparr>t_text := text', t_completed := completed,
                                     t_priority := priority, t_notes := Some notes,
                                     t_dueDate := dueDate, t_projectId := p_id project,
                                     t_syncStatus := SYNCED\<rparr>);
                       w1 = update_task (t_id existingTask) upd w;
                       w2 = logSync Task_entity (t_id existingTask) UPDATE FROM_TODOIST
                              (Some (rt_id todoistTask)) None w1
                   in ([TaskResult act_updated (upd existingTask)], w2))
              | None \<Rightarrow>
                  (let newTask =
                         \<lparr>t_id = fresh_id (map t_id (tasks w)),
                          t_text = text', t_completed = completed, t_priority = priority,
                          t_notes = Some notes, t_dueDate = dueDate,
                          t_projectId = p_id project, t_parentId = None,
                          t_todoistId = Some (rt_id todoistTask),
                          t_syncStatus = SYNCED, t_metadata = None\<rparr>;
                       w1 = w\<lparr>tasks := tasks w @ [newTask]\<rparr>;
                       w2 = logSync Task_entity (t_id newTask) CREATE FROM_TODOIST
                              (Some (rt_id todoistTask)) None w1
                   in ([TaskResult act_created newTask], w2))))"

fun pull_tasks :: "remote_task list \<Rightarrow> world \<Rightarrow> sync_result list \<times> world" where
  "pull_tasks [] w = ([], w)"
| "pull_tasks (todoistTask # rest) w =
     (case pull_task todoistTask w of
        (r, w1) \<Rightarrow> (case pull_tasks rest w1 of (rs, w2) \<Rightarrow> (r @ rs, w2)))"

definition invalid_tasks_response :: "string \<Rightarrow> exn" where
  "invalid_tasks_response ty =
     Error (''Invalid tasks response from Todoist API: expected array, got '' @ ty)"

definition syncTasksFromTodoist ::
  "remote_api \<Rightarrow> world \<Rightarrow> (exn + sync_result list) \<times> world" where
  "syncTasksFromTodoist api w =
     (let w1 = sent GetTasks w in
      case getTasks api (requests w) of
        Inl e \<Rightarrow> (Inl e, w1)
      | Inr response \<Rightarrow>
          (case response of
             ArrayResponse tasksArray \<Rightarrow>
               (case pull_tasks tasksArray w1 of (rs, w2) \<Rightarrow> (Inr rs, w2))
           | ResultsResponse tasksArray \<Rightarrow>
               (case pull_tasks tasksArray w1 of (rs, w2) \<Rightarrow> (Inr rs, w2))
           | ObjectNoResults \<Rightarrow>
               (case pull_tasks [] w1 of (rs, w2) \<Rightarrow> (Inr rs, w2))
           | ObjectBadResults ty \<Rightarrow> (Inl (invalid_tasks_response ty), w1)
           | NonObject ty \<Rightarrow>
               (case pull_tasks [] w1 of (rs, w2) \<Rightarrow> (Inr rs, w2))))"

section \<open>Push: \<open>uploadToTodoist\<close>\<close>

text \<open>
  The \<open>try\<close> block of the loop over the pending projects, up to and including the final
  write of \<open>SYNCED\<close>: \<open>None\<close> when it runs to its end, the thrown value otherwise. The
  row read by the scan (\<open>project\<close>) supplies the name and the remote id; writes go to
  the store by primary key.
\<close>

definition upload_project_try :: "remote_api \<Rightarrow> project \<Rightarrow> world \<Rightarrow> exn option \<times> world" where
  "upload_project_try api project w =
     (if truthy (p_todoistId project) then
        (let todoistId = str_of (p_todoistId project);
             w1 = sent (UpdateProject todoistId (p_name project)) w
         in case updateProject api (requests w) todoistId (p_name project) of
              Inl e \<Rightarrow> (Some e, w1)
            | Inr u \<Rightarrow>
                (let w2 = logSync Project_entity (p_id project) UPDATE TO_TODOIST
                            (p_todoistId project) None w1
                 in (None, update_project (p_id project) (\<lambda>p. p\<lparr>p_syncStatus := SYNCED\<rparr>) w2)))
      else
        (let w1 = sent (AddProject (p_name project)) w
         in case addProject api (requests w) (p_name project) of
              Inl e \<Rightarrow> (Some e, w1)
            | Inr newId \<Rightarrow>
                if project_todoistId_taken newId (p_id project) (projects w1)
                then (Some unique_violation, w1)
                else
                  (let w2 = update_project (p_id project)
                              (\<lambda>p. p\<lparr>p_todoistId := Some newId, p_syncStatus := SYNCED\<rparr>) w1;
                       w3 = logSync Project_entity (p_id project) CREATE TO_TODOIST
                              (Some newId) None w2
                   in (None, update_project (p_id project) (\<lambda>p. p\<lparr>p_syncStatus := SYNCED\<rparr>) w3))))"

text \<open>One iteration for a pending project: the \<open>try\<close> block and its \<open>catch\<close>.\<close>

definition upload_project :: "remote_api \<Rightarrow> project \<Rightarrow> world \<Rightarrow> sync_result \<times> world" where
  "upload_project api project w =
     (case upload_project_try api project w of
        (None, w1) \<Rightarrow> (UploadResult Project_entity act_uploaded (p_id project) None, w1)
      | (Some e, w1) \<Rightarrow>
          (let w2 = update_project (p_id project) (\<lambda>p. p\<lparr>p_syncStatus := ERROR\<rparr>) w1;
               w3 = logSync Project_entity (p_id project) UPDATE TO_TODOIST None
                      (Some (error_message e)) w2
           in (UploadResult Project_entity act_error (p_id project) (Some e), w3)))"

fun upload_projects :: "remote_api \<Rightarrow> project list \<Rightarrow> world \<Rightarrow> sync_result list \<times> world" where
  "upload_projects api [] w = ([], w)"
| "upload_projects api (project # rest) w =
     (case upload_project api project w of
        (r, w1) \<Rightarrow> (case upload_projects api rest w1 of (rs, w2) \<Rightarrow> (r # rs, w2)))"

text \<open>\<open>toISOString().split('T')[0]\<close> on the ISO rendering of a date.\<close>

definition iso_date :: "string \<Rightarrow> string" where
  "iso_date d = takeWhile (\<lambda>c. c \<noteq> CHR ''T'') d"

definition taskData_of :: "task \<Rightarrow> project \<Rightarrow> task_data" where
  "taskData_of task project =
     \<lparr>td_content = t_text task,
      td_projectId = str_of (p_todoistId project),
      td_description = (if truthy (t_notes task) then str_of (t_notes task) else []),
      td_priority = mapToTodoistPriority (t_priority task),
      td_dueDate = map_option iso_date (t_dueDate task)\<rparr>"

datatype attempt = Skipped | Completed | Threw exn

text \<open>
  The \<open>try\<close> block of the loop over the pending tasks. The scan joins each task with its
  project (\<open>include: { project: true }\<close>); reading a field of a missing project would be
  a \<open>TypeError\<close> inside the block.
\<close>

definition upload_task_try ::
  "remote_api \<Rightarrow> task \<times> project option \<Rightarrow> world \<Rightarrow> attempt \<times> world" where
  "upload_task_try api joined w =
     (case joined of
        (task, None) \<Rightarrow> (Threw (Error ''Cannot read properties of null''), w)
      | (task, Some project) \<Rightarrow>
          if \<not> truthy (p_todoistId project) then (Skipped, w)
          else
            (let taskData = taskData_of task project in
             if truthy (t_todoistId task) then
               (let todoistId = str_of (t_todoistId task);
                    w1 = sent (UpdateTask todoistId taskData) w
                in case updateTask api (requests w) todoistId taskData of
                     Inl e \<Rightarrow> (Threw e, w1)
                   | Inr u \<Rightarrow>
                       (let w2 = sent (if t_completed task then CloseTask todoistId
                                       else ReopenTask todoistId) w1
                        in case (if t_completed task then closeTask api (requests w1) todoistId
                                 else reopenTask api (requests w1) todoistId) of
                             Inl e \<Rightarrow> (Threw e, w2)
                           | Inr u' \<Rightarrow>
                               (let w3 = logSync Task_entity (t_id task) UPDATE TO_TODOIST
                                           (t_todoistId task) None w2
                                in (Completed,
                                    update_task (t_id task) (\<lambda>t. t\<lparr>t_syncStatus := SYNCED\<rparr>) w3))))
             else
               (let w1 = sent (AddTask taskData) w
                in case addTask api (requests w) taskData of
                     Inl e \<Rightarrow> (Threw e, w1)
                   | Inr newId \<Rightarrow>
                       if task_todoistId_taken newId (t_id task) (tasks w1)
                       then (Threw unique_violation, w1)
                       else
                         (let w2 = update_task (t_id task)
                                     (\<lambda>t. t\<lparr>t_todoistId := Some newId, t_syncStatus := SYNCED\<rparr>) w1;
                              w3 = logSync Task_entity (t_id task) CREATE TO_TODOIST
                                     (Some newId) None w2
                          in (Completed,
                              update_task (t_id task) (\<lambda>t. t\<lparr>t_syncStatus := SYNCED\<rparr>) w3)))))"

text \<open>One iteration for a pending task: \<open>continue\<close>, the end of the block, or the \<open>catch\<close>.\<close>

definition upload_task ::
  "remote_api \<Rightarrow> task \<times> project option \<Rightarrow> world \<Rightarrow> sync_result list \<times> world" where
  "upload_task api joined w =
     (case upload_task_try api joined w of
        (Skipped, w1) \<Rightarrow> ([], w1)
      | (Completed, w1) \<Rightarrow> ([UploadResult Task_entity act_uploaded (t_id (fst joined)) None], w1)
      | (Threw e, w1) \<Rightarrow>
          (let w2 = update_task (t_id (fst joined)) (\<lambda>t. t\<lparr>t_syncStatus := ERROR\<rparr>) w1;
               w3 = logSync Task_entity (t_id (fst joined)) UPDATE TO_TODOIST None
                      (Some (error_message e)) w2
           in ([UploadResult Task_entity act_error (t_id (fst joined)) (Some e)], w3)))"

fun upload_tasks ::
  "remote_api \<Rightarrow> (task \<times> project option) list \<Rightarrow> world \<Rightarrow> sync_result list \<times> world" where
  "upload_tasks api [] w = ([], w)"
| "upload_tasks api (joined # rest) w =
     (case upload_task api joined w of
        (r, w1) \<Rightarrow> (case upload_tasks api rest w1 of (rs, w2) \<Rightarrow> (r @ rs, w2)))"

definition pendingProjects :: "world \<Rightarrow> project list" where
  "pendingProjects w = filter (\<lambda>p. p_syncStatus p = PENDING_UPLOAD) (projects w)"

definition pendingTasks :: "world \<Rightarrow> (task \<times> project option) list" where
  "pendingTasks w =
     map (\<lambda>t. (t, find_project (t_projectId t) (projects w)))
       (filter (\<lambda>t. t_syncStatus t = PENDING_UPLOAD) (tasks w))"

text \<open>
  The whole pass: the pending projects, then the pending tasks as the store holds them
  after the projects. Nothing outside the two inner \<open>try\<close> blocks throws, so the outer
  \<open>catch\<close> (which rethrows) has nothing to catch.
\<close>

definition uploadToTodoist :: "remote_api \<Rightarrow> world \<Rightarrow> (exn + sync_result list) \<times> world" where
  "uploadToTodoist api w =
     (case upload_projects api (pendingProjects w) w of
        (rs1, w1) \<Rightarrow>
          (case upload_tasks api (pendingTasks w1) w1 of
             (rs2, w2) \<Rightarrow> (Inr (rs1 @ rs2), w2)))"

section \<open>The \<open>POST /sync\<close> route\<close>

datatype entity_kind = projects_kind | tasks_kind | all_kind

record sync_summary =
  sm_total :: nat
  sm_created :: nat
  sm_updated :: nat
  sm_errors :: nat

datatype sync_reply =
    SyncSuccess sync_direction entity_kind "sync_result list" sync_summary
  | SyncFailure nat string "string option"

definition count_action :: "result_action \<Rightarrow> sync_result list \<Rightarrow> nat" where
  "count_action a rs = length (filter (\<lambda>r. r_action r = a) rs)"

text \<open>
  The \<open>switch\<close> on the direction. The request schema admits exactly the three directions
  and the three entity kinds, so the \<open>default\<close> branch has no input. A thrown value leaves
  the \<open>switch\<close> at once; what the store holds by then stays.
\<close>

definition run_direction ::
  "sync_direction \<Rightarrow> entity_kind \<Rightarrow> remote_api \<Rightarrow> world \<Rightarrow> (exn + sync_result list) \<times> world" where
  "run_direction direction entityType api w =
     (case direction of
        FROM_TODOIST \<Rightarrow>
          (case (if entityType = projects_kind \<or> entityType = all_kind
                 then syncProjectsFromTodoist api w else (Inr [], w)) of
             (Inl e, w1) \<Rightarrow> (Inl e, w1)
           | (Inr projectResults, w1) \<Rightarrow>
               (case (if entityType = tasks_kind \<or> entityType = all_kind
                      then syncTasksFromTodoist api w1 else (Inr [], w1)) of
                  (Inl e, w2) \<Rightarrow> (Inl e, w2)
                | (Inr taskResults, w2) \<Rightarrow> (Inr (projectResults @ taskResults), w2)))
      | TO_TODOIST \<Rightarrow>
          (case uploadToTodoist api w of
             (Inl e, w1) \<Rightarrow> (Inl e, w1)
           | (Inr uploadResults, w1) \<Rightarrow> (Inr uploadResults, w1))
      | BIDIRECTIONAL \<Rightarrow>
          (case uploadToTodoist api w of
             (Inl e, w0) \<Rightarrow> (Inl e, w0)
           | (Inr uploadResults2, w0) \<Rightarrow>
               (case (if entityType = projects_kind \<or> entityType = all_kind
                      then syncProjectsFromTodoist api w0 else (Inr [], w0)) of
                  (Inl e, w1) \<Rightarrow> (Inl e, w1)
                | (Inr projectResults, w1) \<Rightarrow>
                    (case (if entityType = tasks_kind \<or> entityType = all_kind
                           then syncTasksFromTodoist api w1 else (Inr [], w1)) of
                       (Inl e, w2) \<Rightarrow> (Inl e, w2)
                     | (Inr taskResults, w2) \<Rightarrow>
                         (Inr (uploadResults2 @ projectResults @ taskResults), w2)))))"

text \<open>The handler: the token check, the \<open>switch\<close>, the summary, and the \<open>catch\<close>.\<close>

definition sync_route ::
  "string option \<Rightarrow> sync_direction \<Rightarrow> entity_kind \<Rightarrow> remote_api \<Rightarrow> world \<Rightarrow> sync_reply \<times> world" where
  "sync_route todoistToken direction entityType api w =
     (if \<not> truthy todoistToken
      then (SyncFailure 500 ''Todoist API token not configured'' None, w)
      else
        (case run_direction direction entityType api w of
           (Inr results, w1) \<Rightarrow>
             (SyncSuccess direction entityType results
                \<lparr>sm_total = length results,
                 sm_created = count_action act_created results,
                 sm_updated = count_action act_updated results,
                 sm_errors = count_action act_error results\<rparr>, w1)
         | (Inl e, w1) \<Rightarrow> (SyncFailure 500 ''Sync failed'' (Some (error_message e)), w1)))"

section \<open>The WebSocket service\<close>

datatype ready_state = CONNECTING | OPEN | CLOSING | CLOSED

record auto_summary =
  as_total :: nat
  as_uploaded :: nat
  as_downloaded :: nat
  as_errors :: nat

record force_summary =
  fs_total :: nat
  fs_uploaded :: nat
  fs_errors :: nat

text \<open>The events sent to the listeners; the last argument of a sync event is its timestamp.\<close>

datatype event =
    Connected_event string
  | Error_event string
  | AUTO_SYNC_COMPLETED "sync_result list" auto_summary string
  | AUTO_SYNC_ERROR string string
  | AUTO_SYNC_STOPPED string
  | FORCE_SYNC_COMPLETED "sync_result list" force_summary string
  | FORCE_SYNC_ERROR string string

text \<open>A socket: its ready state and the messages sent to it so far.\<close>

record client =
  ws_readyState :: ready_state
  ws_received :: "event list"

definition broadcast :: "event \<Rightarrow> client list \<Rightarrow> client list" where
  "broadcast data connectedClients =
     map (\<lambda>ws. if ws_readyState ws = OPEN then ws\<lparr>ws_received := ws_received ws @ [data]\<rparr> else ws)
       connectedClients"

text \<open>\<open>startAutoSync\<close>; \<open>now\<close> is the clock reading of \<open>new Date().toISOString()\<close>.\<close>

definition startAutoSync ::
  "string \<Rightarrow> remote_api \<Rightarrow> world \<Rightarrow> client list \<Rightarrow> world \<times> client list" where
  "startAutoSync now api w connectedClients =
     (case uploadToTodoist api w of
        (Inl e, w1) \<Rightarrow> (w1, broadcast (AUTO_SYNC_ERROR (error_message e) now) connectedClients)
      | (Inr uploadResults, w1) \<Rightarrow>
          (case syncProjectsFromTodoist api w1 of
             (Inl e, w2) \<Rightarrow>
               (w2, broadcast (AUTO_SYNC_ERROR (error_message e) now) connectedClients)
           | (Inr projectsResults, w2) \<Rightarrow>
               (case syncTasksFromTodoist api w2 of
                  (Inl e, w3) \<Rightarrow>
                    (w3, broadcast (AUTO_SYNC_ERROR (error_message e) now) connectedClients)
                | (Inr tasksResults, w3) \<Rightarrow>
                    (let allResults = uploadResults @ projectsResults @ tasksResults in
                     (w3, broadcast
                        (AUTO_SYNC_COMPLETED allResults
                           \<lparr>as_total = length allResults,
                            as_uploaded = length uploadResults,
                            as_downloaded = length projectsResults + length tasksResults,
                            as_errors = count_action act_error allResults\<rparr> now)
                        connectedClients)))))"

definition forceSyncToTodoist ::
  "string \<Rightarrow> remote_api \<Rightarrow> world \<Rightarrow> client list \<Rightarrow> world \<times> client list" where
  "forceSyncToTodoist now api w connectedClients =
     (case uploadToTodoist api w of
        (Inl e, w1) \<Rightarrow> (w1, broadcast (FORCE_SYNC_ERROR (error_message e) now) connectedClients)
      | (Inr results, w1) \<Rightarrow>
          (w1, broadcast
             (FORCE_SYNC_COMPLETED results
                \<lparr>fs_total = length results,
                 fs_uploaded = count_action act_uploaded results,
                 fs_errors = count_action act_error results\<rparr> now)
             connectedClients))"

definition triggerSyncOnChange ::
  "string \<Rightarrow> remote_api \<Rightarrow> world \<Rightarrow> client list \<Rightarrow> world \<times> client list" where
  "triggerSyncOnChange now api w connectedClients =
     (if length connectedClients > 0 then startAutoSync now api w connectedClients
      else (w, connectedClients))"

section \<open>The mutation routes\<close>

text \<open>
  The server: the store with the remote's trace, and the global
  \<open>syncWebSocketService\<close>, which is \<open>null\<close> until a token is configured and afterwards
  holds the connected sockets.
\<close>

record server =
  sv_world :: world
  sv_service :: "client list option"

datatype reply =
    Project_reply project
  | Task_reply task
  | Message_reply string
  | Error_reply nat string

text \<open>
  \<open>if (global.syncWebSocketService) global.syncWebSocketService.triggerSyncOnChange()\<close>:
  the call is not awaited, so the reply of a handler is computed before the pass runs;
  the model lets the pass run to its end after the reply is fixed.
\<close>

definition trigger_sync :: "string \<Rightarrow> remote_api \<Rightarrow> server \<Rightarrow> server" where
  "trigger_sync now api sv =
     (case sv_service sv of
        None \<Rightarrow> sv
      | Some connectedClients \<Rightarrow>
          (case triggerSyncOnChange now api (sv_world sv) connectedClients of
             (w, cs) \<Rightarrow> sv\<lparr>sv_world := w, sv_service := Some cs\<rparr>))"

text \<open>
  Deleting rows, with the cascades of the schema: the tasks of a deleted project, the
  subtasks of a deleted task (through \<open>parentId\<close>, to any depth), and the log rows owned
  by a deleted project or task.
\<close>

definition children_step :: "task list \<Rightarrow> string list \<Rightarrow> string list" where
  "children_step ts dead =
     dead @ map t_id
       (filter (\<lambda>t. t_id t \<notin> set dead \<and>
                    (case t_parentId t of Some pa \<Rightarrow> pa \<in> set dead | None \<Rightarrow> False)) ts)"

definition cascade :: "task list \<Rightarrow> string list \<Rightarrow> string list" where
  "cascade ts dead = (children_step ts ^^ length ts) dead"

definition delete_tasks :: "string list \<Rightarrow> world \<Rightarrow> world" where
  "delete_tasks roots w =
     (let dead = cascade (tasks w) roots
      in w\<lparr>tasks := filter (\<lambda>t. t_id t \<notin> set dead) (tasks w),
           syncLogs := filter (\<lambda>l. case l_taskId l of Some i \<Rightarrow> i \<notin> set dead | None \<Rightarrow> True)
                         (syncLogs w)\<rparr>)"

definition delete_project :: "string \<Rightarrow> world \<Rightarrow> world" where
  "delete_project i w =
     (let w1 = delete_tasks (map t_id (filter (\<lambda>t. t_projectId t = i) (tasks w))) w
      in w1\<lparr>projects := filter (\<lambda>p. p_id p \<noteq> i) (projects w1),
            syncLogs := filter (\<lambda>l. l_projectId l \<noteq> Some i) (syncLogs w1)\<rparr>)"

text \<open>The project routes: \<open>POST /\<close>, \<open>PUT /:id\<close> and \<open>DELETE /:id\<close>.\<close>

definition create_project_route ::
  "string \<Rightarrow> remote_api \<Rightarrow> string \<Rightarrow> string \<Rightarrow> server \<Rightarrow> reply \<times> server" where
  "create_project_route now api name color sv =
     (let w = sv_world sv;
          project = \<lparr>p_id = fresh_id (map p_id (projects w)), p_name = name, p_color = color,
                     p_todoistId = None, p_syncStatus = PENDING_UPLOAD\<rparr>;
          sv1 = sv\<lparr>sv_world := w\<lparr>projects := projects w @ [project]\<rparr>\<rparr>
      in (Project_reply project, trigger_sync now api sv1))"

definition update_project_route ::
  "string \<Rightarrow> remote_api \<Rightarrow> string \<Rightarrow> string option \<Rightarrow> string option \<Rightarrow> string option \<Rightarrow>
   server \<Rightarrow> reply \<times> server" where
  "update_project_route now api i name color todoistId sv =
     (let w = sv_world sv in
      case find_project i (projects w) of
        None \<Rightarrow> (Error_reply 404 ''Project not found'', sv)
      | Some existingProject \<Rightarrow>
          if (case todoistId of Some r \<Rightarrow> project_todoistId_taken r i (projects w) | None \<Rightarrow> False)
          then (Error_reply 500 ''Failed to update project'', sv)
          else
            (let upd = (\<lambda>p. p\<lparr>p_name := (case name of Some n \<Rightarrow> n | None \<Rightarrow> p_name p),
                               p_color := (case color of Some c \<Rightarrow> c | None \<Rightarrow> p_color p),
                               p_todoistId := (case todoistId of Some r \<Rightarrow> Some r
                                               | None \<Rightarrow> p_todoistId p),
                               p_syncStatus := PENDING_UPLOAD\<rparr>);
                 sv1 = sv\<lparr>sv_world := update_project i upd w\<rparr>
             in (Project_reply (upd existingProject), trigger_sync now api sv1)))"

definition delete_project_route :: "string \<Rightarrow> server \<Rightarrow> reply \<times> server" where
  "delete_project_route i sv =
     (let w = sv_world sv in
      case find_project i (projects w) of
        None \<Rightarrow> (Error_reply 404 ''Project not found'', sv)
      | Some existingProject \<Rightarrow>
          (Message_reply ''Project deleted successfully'', sv\<lparr>sv_world := delete_project i w\<rparr>))"

text \<open>The task routes: \<open>POST /\<close>, \<open>PUT /:id\<close>, \<open>PATCH /:id/toggle\<close> and \<open>DELETE /:id\<close>.\<close>

record task_input =
  ti_text :: string
  ti_projectId :: string
  ti_priority :: int
  ti_notes :: string
  ti_dueDate :: "string option"
  ti_metadata :: "string option"

record task_patch =
  tp_text :: "string option"
  tp_completed :: "bool option"
  tp_priority :: "int option"
  tp_notes :: "string option"
  tp_dueDate :: "string option"
  tp_projectId :: "string option"
  tp_metadata :: "string option"

definition create_task_route ::
  "string \<Rightarrow> remote_api \<Rightarrow> task_input \<Rightarrow> server \<Rightarrow> reply \<times> server" where
  "create_task_route now api data sv =
     (let w = sv_world sv in
      case find_project (ti_projectId data) (projects w) of
        None \<Rightarrow> (Error_reply 404 ''Project not found'', sv)
      | Some project \<Rightarrow>
          (let task = \<lparr>t_id = fresh_id (map t_id (tasks w)), t_text = ti_text data,
                       t_completed = False, t_priority = ti_priority data,
                       t_notes = Some (ti_notes data),
                       t_dueDate = (if truthy (ti_dueDate data) then ti_dueDate data else None),
                       t_projectId = ti_projectId data, t_parentId = None, t_todoistId = None,
                       t_syncStatus = PENDING_UPLOAD, t_metadata = ti_metadata data\<rparr>;
               sv1 = sv\<lparr>sv_world := w\<lparr>tasks := tasks w @ [task]\<rparr>\<rparr>
           in (Task_reply task, trigger_sync now api sv1)))"

definition update_task_route ::
  "string \<Rightarrow> remote_api \<Rightarrow> string \<Rightarrow> task_patch \<Rightarrow> server \<Rightarrow> reply \<times> server" where
  "update_task_route now api i data sv =
     (let w = sv_world sv in
      case find_task i (tasks w) of
        None \<Rightarrow> (Error_reply 404 ''Task not found'', sv)
      | Some existingTask \<Rightarrow>
          if truthy (tp_projectId data) \<and> str_of (tp_projectId data) \<noteq> t_projectId existingTask \<and>
             find_project (str_of (tp_projectId data)) (projects w) = None
          then (Error_reply 404 ''Project not found'', sv)
          else if (case tp_projectId data of
                     Some pid \<Rightarrow> find_project pid (projects w) = None | None \<Rightarrow> False)
          then (Error_reply 500 ''Failed to update task'', sv)
          else
            (let upd = (\<lambda>t. t\<lparr>t_text := (case tp_text data of Some x \<Rightarrow> x | None \<Rightarrow> t_text t),
                               t_completed := (case tp_completed data of Some x \<Rightarrow> x
                                               | None \<Rightarrow> t_completed t),
                               t_priority := (case tp_priority data of Some x \<Rightarrow> x
                                              | None \<Rightarrow> t_priority t),
                               t_notes := (case tp_notes data of Some x \<Rightarrow> Some x
                                           | None \<Rightarrow> t_notes t),
                               t_dueDate := (if truthy (tp_dueDate data) then tp_dueDate data
                                             else t_dueDate t),
                               t_projectId := (case tp_projectId data of Some x \<Rightarrow> x
                                               | None \<Rightarrow> t_projectId t),
                               t_metadata := (case tp_metadata data of Some x \<Rightarrow> Some x
                                              | None \<Rightarrow> t_metadata t),
                               t_syncStatus := PENDING_UPLOAD\<rparr>);
                 sv1 = sv\<lparr>sv_world := update_task i upd w\<rparr>
             in (Task_reply (upd existingTask), trigger_sync now api sv1)))"

definition toggle_task_route ::
  "string \<Rightarrow> remote_api \<Rightarrow> string \<Rightarrow> server \<Rightarrow> reply \<times> server" where
  "toggle_task_route now api i sv =
     (let w = sv_world sv in
      case find_task i (tasks w) of
        None \<Rightarrow> (Error_reply 404 ''Task not found'', sv)
      | Some existingTask \<Rightarrow>
          (let upd = (\<lambda>t. t\<lparr>t_completed := \<not> t_completed existingTask,
                             t_syncStatus := PENDING_UPLOAD\<rparr>);
               sv1 = sv\<lparr>sv_world := update_task i upd w\<rparr>
           in (Task_reply (upd existingTask), trigger_sync now api sv1)))"

definition delete_task_route ::
  "string \<Rightarrow> remote_api \<Rightarrow> string \<Rightarrow> server \<Rightarrow> reply \<times> server" where
  "delete_task_route now api i sv =
     (let w = sv_world sv in
      case find_task i (tasks w) of
        None \<Rightarrow> (Error_reply 404 ''Task not found'', sv)
      | Some existingTask \<Rightarrow>
          (let sv1 = sv\<lparr>sv_world := delete_tasks [i] w\<rparr>
           in (Message_reply ''Task deleted successfully'', trigger_sync now api sv1)))"

section \<open>Observations used in the statements\<close>

text \<open>The log rows a run appended, and those of them about one entity.\<close>

definition new_logs :: "world \<Rightarrow> world \<Rightarrow> sync_log list" where
  "new_logs w w' = drop (length (syncLogs w)) (syncLogs w')"

definition logs_of :: "entity_type \<Rightarrow> string \<Rightarrow> sync_log list \<Rightarrow> sync_log list" where
  "logs_of ty i ls = filter (\<lambda>l. l_entityType l = ty \<and> l_entityId l = i) ls"

text \<open>The entity a result record is about, and the records of a run about one entity.\<close>

fun r_entity :: "sync_result \<Rightarrow> entity_type \<times> string" where
  "r_entity (UploadResult ty a i e) = (ty, i)"
| "r_entity (ProjectResult a p) = (Project_entity, p_id p)"
| "r_entity (TaskResult a t) = (Task_entity, t_id t)"

definition results_of :: "entity_type \<Rightarrow> string \<Rightarrow> sync_result list \<Rightarrow> sync_result list" where
  "results_of ty i rs = filter (\<lambda>r. r_entity r = (ty, i)) rs"

text \<open>The row the \<open>catch\<close> block of an iteration writes to the log.\<close>

definition error_log :: "entity_type \<Rightarrow> string \<Rightarrow> exn \<Rightarrow> sync_log" where
  "error_log ty i e =
     \<lparr>l_entityType = ty, l_entityId = i, l_action = UPDATE, l_direction = TO_TODOIST,
      l_todoistId = None, l_errorMessage = Some (error_message e),
      l_projectId = (if ty = Project_entity then Some i else None),
      l_taskId = (if ty = Project_entity then None else Some i)\<rparr>"

text \<open>
  A scanned task passes the guard \<open>if (!task.project.todoistId) continue\<close> when its
  project holds a truthy remote id (a missing project makes the guard itself throw).
\<close>

definition eligible :: "task \<times> project option \<Rightarrow> bool" where
  "eligible j = (case snd j of None \<Rightarrow> True | Some pr \<Rightarrow> truthy (p_todoistId pr))"

text \<open>
  The world after the project loop, and the worlds in which the iteration for the
  \<open>k\<close>-th scanned project and for the \<open>k\<close>-th scanned task start.
\<close>

definition after_projects :: "remote_api \<Rightarrow> world \<Rightarrow> world" where
  "after_projects api w = snd (upload_projects api (pendingProjects w) w)"

definition before_project :: "remote_api \<Rightarrow> world \<Rightarrow> nat \<Rightarrow> world" where
  "before_project api w k = snd (upload_projects api (take k (pendingProjects w)) w)"

definition before_task :: "remote_api \<Rightarrow> world \<Rightarrow> nat \<Rightarrow> world" where
  "before_task api w k =
     snd (upload_tasks api (take k (pendingTasks (after_projects api w))) (after_projects api w))"

text \<open>The result records of a pass that returned (none when it threw).\<close>

definition pass_results :: "remote_api \<Rightarrow> world \<Rightarrow> sync_result list" where
  "pass_results api w = (case fst (uploadToTodoist api w) of Inr rs \<Rightarrow> rs | Inl e \<Rightarrow> [])"

text \<open>The requests a run sent, and the two kinds of request a push sends.\<close>

definition new_requests :: "world \<Rightarrow> world \<Rightarrow> request list" where
  "new_requests w w' = drop (length (requests w)) (requests w')"

fun project_request :: "request \<Rightarrow> bool" where
  "project_request (AddProject n) = True"
| "project_request (UpdateProject i n) = True"
| "project_request r = False"

fun task_request :: "request \<Rightarrow> bool" where
  "task_request (AddTask d) = True"
| "task_request (UpdateTask i d) = True"
| "task_request (CloseTask i) = True"
| "task_request (ReopenTask i) = True"
| "task_request r = False"

text \<open>The store in which the iteration for the \<open>k\<close>-th listed project starts.\<close>

definition before_pull :: "remote_project list \<Rightarrow> world \<Rightarrow> nat \<Rightarrow> world" where
  "before_pull xs w k = snd (pull_projects (take k xs) (sent GetProjects w))"

text \<open>Whether the remote project of a remote task is known locally.\<close>

definition resolved :: "world \<Rightarrow> remote_task \<Rightarrow> bool" where
  "resolved w todoistTask =
     (find_project_by_todoistId (rt_projectId todoistTask) (projects w) \<noteq> None)"

section \<open>Example stores and remotes\<close>

text \<open>
  A small store used in the examples: two projects created locally and never pushed, and a
  task of the first; and a remote that refuses to create the project named Inbox.
\<close>

definition inbox :: project where
  "inbox = \<lparr>p_id = ''p1'', p_name = ''Inbox'', p_color = ''blue'', p_todoistId = None,
             p_syncStatus = PENDING_UPLOAD\<rparr>"

definition work :: project where
  "work = \<lparr>p_id = ''p2'', p_name = ''Work'', p_color = ''red'', p_todoistId = None,
            p_syncStatus = PENDING_UPLOAD\<rparr>"

definition buy_milk :: task where
  "buy_milk = \<lparr>t_id = ''t1'', t_text = ''Buy milk'', t_completed = False, t_priority = 2,
                t_notes = Some [], t_dueDate = None, t_projectId = ''p1'', t_parentId = None,
                t_todoistId = None, t_syncStatus = PENDING_UPLOAD, t_metadata = None\<rparr>"

definition local_world :: world where
  "local_world = \<lparr>projects = [inbox, work], tasks = [buy_milk], syncLogs = [], requests = []\<rparr>"

definition inbox_down :: remote_api where
  "inbox_down =
     \<lparr>getProjects = (\<lambda>h. Inr (ArrayResponse [])),
      getTasks = (\<lambda>h. Inr (ArrayResponse [])),
      addProject = (\<lambda>h n. if n = ''Inbox'' then Inl (Error ''503'') else Inr (''R-'' @ n)),
      updateProject = (\<lambda>h i n. Inr ()),
      addTask = (\<lambda>h d. Inr (''RT-'' @ td_content d)),
      updateTask = (\<lambda>h i d. Inr ()),
      closeTask = (\<lambda>h i. Inr ()),
      reopenTask = (\<lambda>h i. Inr ())\<rparr>"

text \<open>
  A store holding only the unpushed project, and a remote that times out on the first
  request it gets and answers every later one.
\<close>

definition inbox_world :: world where
  "inbox_world = \<lparr>projects = [inbox], tasks = [], syncLogs = [], requests = []\<rparr>"

definition recovering_remote :: remote_api where
  "recovering_remote =
     \<lparr>getProjects = (\<lambda>h. Inr (ArrayResponse [])),
      getTasks = (\<lambda>h. Inr (ArrayResponse [])),
      addProject = (\<lambda>h n. if h = [] then Inl (Error ''timeout'') else Inr ''R1''),
      updateProject = (\<lambda>h i n. Inr ()),
      addTask = (\<lambda>h d. Inr ''RT1''),
      updateTask = (\<lambda>h i d. Inr ()),
      closeTask = (\<lambda>h i. Inr ()),
      reopenTask = (\<lambda>h i. Inr ())\<rparr>"

text \<open>
  A project that was pushed once and whose later update failed (it holds a remote id and
  is in \<open>ERROR\<close>), with a pending task; and a remote that accepts every request and hands
  out ids made from the names.
\<close>

definition home :: project where
  "home = \<lparr>p_id = ''p3'', p_name = ''Home'', p_color = ''green'', p_todoistId = Some ''R9'',
            p_syncStatus = ERROR\<rparr>"

definition water_plants :: task where
  "water_plants = \<lparr>t_id = ''t2'', t_text = ''Water plants'', t_completed = False, t_priority = 1,
                    t_notes = None, t_dueDate = None, t_projectId = ''p3'', t_parentId = None,
                    t_todoistId = None, t_syncStatus = PENDING_UPLOAD, t_metadata = None\<rparr>"

definition home_world :: world where
  "home_world = \<lparr>projects = [home], tasks = [water_plants], syncLogs = [], requests = []\<rparr>"

definition always_up :: remote_api where
  "always_up =
     \<lparr>getProjects = (\<lambda>h. Inr (ArrayResponse [])),
      getTasks = (\<lambda>h. Inr (ArrayResponse [])),
      addProject = (\<lambda>h n. Inr (''R-'' @ n)),
      updateProject = (\<lambda>h i n. Inr ()),
      addTask = (\<lambda>h d. Inr (''RT-'' @ td_content d)),
      updateTask = (\<lambda>h i d. Inr ()),
      closeTask = (\<lambda>h i. Inr ()),
      reopenTask = (\<lambda>h i. Inr ())\<rparr>"

text \<open>
  An empty store, and a remote that lists one project, Work, with the colour teal, and one
  task of a project that the listing does not contain.
\<close>

definition empty_world :: world where
  "empty_world = \<lparr>projects = [], tasks = [], syncLogs = [], requests = []\<rparr>"

definition remote_work :: remote_project where
  "remote_work = \<lparr>rp_id = ''R1'', rp_name = ''Work'', rp_color = ''teal''\<rparr>"

definition remote_report :: remote_task where
  "remote_report = \<lparr>rt_id = ''T1'', rt_content = ''Write report'', rt_isCompleted = False,
                     rt_priority = 4, rt_description = None, rt_due_datetime = None,
                     rt_projectId = ''R1''\<rparr>"

definition remote_orphan :: remote_task where
  "remote_orphan = \<lparr>rt_id = ''T2'', rt_content = ''Orphan'', rt_isCompleted = False,
                     rt_priority = 1, rt_description = None, rt_due_datetime = None,
                     rt_projectId = ''R404''\<rparr>"

definition listing_remote :: remote_api where
  "listing_remote =
     \<lparr>getProjects = (\<lambda>h. Inr (ArrayResponse [remote_work])),
      getTasks = (\<lambda>h. Inr (ResultsResponse [remote_orphan, remote_report])),
      addProject = (\<lambda>h n. Inr (''R-'' @ n)),
      updateProject = (\<lambda>h i n. Inr ()),
      addTask = (\<lambda>h d. Inr (''RT-'' @ td_content d)),
      updateTask = (\<lambda>h i d. Inr ()),
      closeTask = (\<lambda>h i. Inr ()),
      reopenTask = (\<lambda>h i. Inr ())\<rparr>"

text \<open>
  A renamed project that was pushed before, a remote that refuses updates and lists that
  project under its old name, and two listeners, one of them with a closing socket.
\<close>

definition renamed :: project where
  "renamed = \<lparr>p_id = ''p4'', p_name = ''Errands'', p_color = ''yellow'',
               p_todoistId = Some ''R4'', p_syncStatus = PENDING_UPLOAD\<rparr>"

definition renamed_world :: world where
  "renamed_world = \<lparr>projects = [renamed], tasks = [], syncLogs = [], requests = []\<rparr>"

definition read_only_remote :: remote_api where
  "read_only_remote =
     \<lparr>getProjects =
        (\<lambda>h. Inr (ArrayResponse [\<lparr>rp_id = ''R4'', rp_name = ''Chores'', rp_color = ''yellow''\<rparr>])),
      getTasks = (\<lambda>h. Inr (ArrayResponse [])),
      addProject = (\<lambda>h n. Inl (Error ''403'')),
      updateProject = (\<lambda>h i n. Inl (Error ''403'')),
      addTask = (\<lambda>h d. Inl (Error ''403'')),
      updateTask = (\<lambda>h i d. Inl (Error ''403'')),
      closeTask = (\<lambda>h i. Inl (Error ''403'')),
      reopenTask = (\<lambda>h i. Inl (Error ''403''))\<rparr>"

definition listeners :: "client list" where
  "listeners = [\<lparr>ws_readyState = OPEN, ws_received = []\<rparr>,
                \<lparr>ws_readyState = CLOSING, ws_received = []\<rparr>]"

definition offline_remote :: remote_api where
  "offline_remote =
     \<lparr>getProjects = (\<lambda>h. Inl (Error ''offline'')),
      getTasks = (\<lambda>h. Inl (Error ''offline'')),
      addProject = (\<lambda>h n. Inl (Error ''offline'')),
      updateProject = (\<lambda>h i n. Inl (Error ''offline'')),
      addTask = (\<lambda>h d. Inl (Error ''offline'')),
      updateTask = (\<lambda>h i d. Inl (Error ''offline'')),
      closeTask = (\<lambda>h i. Inl (Error ''offline'')),
      reopenTask = (\<lambda>h i. Inl (Error ''offline''))\<rparr>"

text \<open>A server with one synced project, one synced task in it and one open listener.\<close>

definition garden :: project where
  "garden = \<lparr>p_id = ''p5'', p_name = ''Garden'', p_color = ''green'', p_todoistId = Some ''R5'',
              p_syncStatus = SYNCED\<rparr>"

definition mow_lawn :: task where
  "mow_lawn = \<lparr>t_id = ''t5'', t_text = ''Mow lawn'', t_completed = False, t_priority = 3,
                t_notes = Some [], t_dueDate = None, t_projectId = ''p5'', t_parentId = None,
                t_todoistId = Some ''RT5'', t_syncStatus = SYNCED, t_metadata = None\<rparr>"

definition watched_server :: server where
  "watched_server =
     \<lparr>sv_world = \<lparr>projects = [garden], tasks = [mow_lawn], syncLogs = [], requests = []\<rparr>,
      sv_service = Some [\<lparr>ws_readyState = OPEN, ws_received = []\<rparr>]\<rparr>"

text \<open>
  A remote that lists the renamed project under its old name and three projects unknown
  locally, with a colour of the table, a legacy numeric code and a colour the table does
  not have; and a remote whose second project has the colour \<open>constructor\<close>.
\<close>

definition palette_remote :: remote_api where
  "palette_remote =
     \<lparr>getProjects =
        (\<lambda>h. Inr (ResultsResponse
           [\<lparr>rp_id = ''R4'', rp_name = ''Chores'', rp_color = ''yellow''\<rparr>,
            \<lparr>rp_id = ''R7'', rp_name = ''Reading'', rp_color = ''berry_red''\<rparr>,
            \<lparr>rp_id = ''R8'', rp_name = ''Travel'', rp_color = ''31''\<rparr>,
            \<lparr>rp_id = ''R9'', rp_name = ''Misc'', rp_color = ''lavender''\<rparr>])),
      getTasks = (\<lambda>h. Inr (ArrayResponse [])),
      addProject = (\<lambda>h n. Inr (''R-'' @ n)),
      updateProject = (\<lambda>h i n. Inr ()),
      addTask = (\<lambda>h d. Inr (''RT-'' @ td_content d)),
      updateTask = (\<lambda>h i d. Inr ()),
      closeTask = (\<lambda>h i. Inr ()),
      reopenTask = (\<lambda>h i. Inr ())\<rparr>"

definition inherited_remote :: remote_api where
  "inherited_remote =
     \<lparr>getProjects =
        (\<lambda>h. Inr (ArrayResponse
           [\<lparr>rp_id = ''R4'', rp_name = ''Chores'', rp_color = ''yellow''\<rparr>,
            \<lparr>rp_id = ''R6'', rp_name = ''Builder'', rp_color = ''constructor''\<rparr>,
            \<lparr>rp_id = ''R7'', rp_name = ''Reading'', rp_color = ''berry_red''\<rparr>])),
      getTasks = (\<lambda>h. Inr (ArrayResponse [])),
      addProject = (\<lambda>h n. Inr (''R-'' @ n)),
      updateProject = (\<lambda>h i n. Inr ()),
      addTask = (\<lambda>h d. Inr (''RT-'' @ td_content d)),
      updateTask = (\<lambda>h i d. Inr ()),
      closeTask = (\<lambda>h i. Inr ()),
      reopenTask = (\<lambda>h i. Inr ())\<rparr>"

text \<open>
  A store with the unpushed project and a synced one, and a remote that creates the
  first as \<open>R1\<close> and then lists the synced project, the new one under a name of its own,
  and a project unknown locally.
\<close>

definition shared_world :: world where
  "shared_world = \<lparr>projects = [inbox, garden], tasks = [], syncLogs = [], requests = []\<rparr>"

definition echo_remote :: remote_api where
  "echo_remote =
     \<lparr>getProjects =
        (\<lambda>h. Inr (ArrayResponse
           [\<lparr>rp_id = ''R5'', rp_name = ''Garden'', rp_color = ''green''\<rparr>,
            \<lparr>rp_id = ''R1'', rp_name = ''Incoming'', rp_color = ''blue''\<rparr>,
            \<lparr>rp_id = ''R7'', rp_name = ''Reading'', rp_color = ''berry_red''\<rparr>])),
      getTasks = (\<lambda>h. Inr (ArrayResponse [])),
      addProject = (\<lambda>h n. Inr ''R1''),
      updateProject = (\<lambda>h i n. Inr ()),
      addTask = (\<lambda>h d. Inr (''RT-'' @ td_content d)),
      updateTask = (\<lambda>h i d. Inr ()),
      closeTask = (\<lambda>h i. Inr ()),
      reopenTask = (\<lambda>h i. Inr ())\<rparr>"

text \<open>Two listeners with open sockets.\<close>

definition open_listeners :: "client list" where
  "open_listeners = [\<lparr>ws_readyState = OPEN, ws_received = []\<rparr>,
                     \<lparr>ws_readyState = OPEN, ws_received = []\<rparr>]"

section \<open>Auxiliary facts\<close>

lemma sent_simps [simp]:
  "projects (sent r w) = projects w" "tasks (sent r w) = tasks w"
  "syncLogs (sent r w) = syncLogs w" "requests (sent r w) = requests w @ [r]"
  by (simp_all add: sent_def)

lemma logSync_simps [simp]:
  "projects (logSync ty i a d r e w) = projects w" "tasks (logSync ty i a d r e w) = tasks w"
  "requests (logSync ty i a d r e w) = requests w"
  by (simp_all add: logSync_def)

lemma update_project_simps [simp]:
  "tasks (update_project i f w) = tasks w" "syncLogs (update_project i f w) = syncLogs w"
  "requests (update_project i f w) = requests w"
  by (simp_all add: update_project_def)

lemma update_task_simps [simp]:
  "projects (update_task i f w) = projects w" "syncLogs (update_task i f w) = syncLogs w"
  "requests (update_task i f w) = requests w"
  by (simp_all add: update_task_def)

lemma find_project_update:
  assumes "\<And>q. p_id (f q) = p_id q"
  shows "find_project i (projects (update_project j f w)) =
           (if i = j then map_option f (find_project i (projects w))
            else find_project i (projects w))"
proof -
  have "find_project i (map (\<lambda>p. if p_id p = j then f p else p) ps) =
          (if i = j then map_option f (find_project i ps) else find_project i ps)" for ps
    by (induction ps) (auto simp: find_project_def assms)
  then show ?thesis by (simp add: update_project_def)
qed

lemma find_task_update:
  assumes "\<And>q. t_id (f q) = t_id q"
  shows "find_task i (tasks (update_task j f w)) =
           (if i = j then map_option f (find_task i (tasks w))
            else find_task i (tasks w))"
proof -
  have "find_task i (map (\<lambda>p. if t_id p = j then f p else p) ps) =
          (if i = j then map_option f (find_task i ps) else find_task i ps)" for ps
    by (induction ps) (auto simp: find_task_def assms)
  then show ?thesis by (simp add: update_task_def)
qed

lemma ids_update_project [simp]:
  "(\<And>q. p_id (f q) = p_id q) \<Longrightarrow> map p_id (projects (update_project j f w)) = map p_id (projects w)"
  by (simp add: update_project_def comp_def if_distrib cong: if_cong)

lemma ids_update_task [simp]:
  "(\<And>q. t_id (f q) = t_id q) \<Longrightarrow> map t_id (tasks (update_task j f w)) = map t_id (tasks w)"
  by (simp add: update_task_def comp_def if_distrib cong: if_cong)

lemma syncLogs_logSync:
  "syncLogs (logSync ty i a d r e w) = syncLogs w @
       [\<lparr>l_entityType = ty, l_entityId = i, l_action = a,
         l_direction = d, l_todoistId = r, l_errorMessage = e,
         l_projectId = (if ty = Project_entity then Some i else None),
         l_taskId = (if ty = Project_entity then None else Some i)\<rparr>]"
  by (simp add: logSync_def)

lemma upload_projects_Cons:
  "upload_projects api (p # ps) w =
     (fst (upload_project api p w) # fst (upload_projects api ps (snd (upload_project api p w))),
      snd (upload_projects api ps (snd (upload_project api p w))))"
  by (simp add: case_prod_unfold)

lemma upload_projects_append:
  "upload_projects api (xs @ ys) w =
     (fst (upload_projects api xs w) @ fst (upload_projects api ys (snd (upload_projects api xs w))),
      snd (upload_projects api ys (snd (upload_projects api xs w))))"
  by (induction xs arbitrary: w) (simp_all add: case_prod_unfold)

lemma upload_project_cases:
  "upload_project api p w =
     (case fst (upload_project_try api p w) of
        None \<Rightarrow> (UploadResult Project_entity act_uploaded (p_id p) None, snd (upload_project_try api p w))
      | Some e \<Rightarrow>
          (UploadResult Project_entity act_error (p_id p) (Some e),
           logSync Project_entity (p_id p) UPDATE TO_TODOIST None (Some (error_message e))
             (update_project (p_id p) (\<lambda>q. q\<lparr>p_syncStatus := ERROR\<rparr>) (snd (upload_project_try api p w)))))"
  by (simp add: upload_project_def Let_def case_prod_unfold split: option.splits)

text \<open>When the block throws, it has only sent its request.\<close>

lemma upload_project_try_throws:
  assumes "fst (upload_project_try api p w) = Some e"
  shows "projects (snd (upload_project_try api p w)) = projects w"
    and "syncLogs (snd (upload_project_try api p w)) = syncLogs w"
  using assms
  by (auto simp: upload_project_try_def Let_def split: sum.splits if_splits)

lemma upload_project_try_tasks [simp]:
  "tasks (snd (upload_project_try api p w)) = tasks w"
  by (simp add: upload_project_try_def Let_def split: sum.splits)

lemma upload_project_try_ids [simp]:
  "map p_id (projects (snd (upload_project_try api p w))) = map p_id (projects w)"
  by (simp add: upload_project_try_def Let_def split: sum.splits)

lemma upload_project_try_other:
  "i \<noteq> p_id p \<Longrightarrow>
   find_project i (projects (snd (upload_project_try api p w))) = find_project i (projects w)"
  by (simp add: upload_project_try_def Let_def find_project_update split: sum.splits)

lemma upload_project_try_completes:
  assumes "fst (upload_project_try api p w) = None"
  shows "map_option p_syncStatus (find_project (p_id p) (projects (snd (upload_project_try api p w)))) =
           map_option (\<lambda>q. SYNCED) (find_project (p_id p) (projects w))"
    and "\<exists>l. syncLogs (snd (upload_project_try api p w)) = syncLogs w @ [l] \<and>
             l_entityType l = Project_entity \<and> l_entityId l = p_id p \<and>
             l_direction l = TO_TODOIST \<and> l_errorMessage l = None"
  using assms
  by (auto simp: upload_project_try_def Let_def find_project_update syncLogs_logSync
        option.map_comp comp_def split: sum.splits if_splits)

lemma new_logs_ext: "syncLogs w' = syncLogs w @ ls \<Longrightarrow> new_logs w w' = ls"
  by (simp add: new_logs_def)

lemma upload_project_tasks [simp]: "tasks (snd (upload_project api p w)) = tasks w"
  by (simp add: upload_project_cases split: option.splits)

lemma upload_project_ids [simp]:
  "map p_id (projects (snd (upload_project api p w))) = map p_id (projects w)"
  by (simp add: upload_project_cases split: option.splits)

lemma upload_project_other:
  "i \<noteq> p_id p \<Longrightarrow>
   find_project i (projects (snd (upload_project api p w))) = find_project i (projects w)"
  by (simp add: upload_project_cases find_project_update upload_project_try_other split: option.splits)

lemma upload_project_entity [simp]:
  "r_entity (fst (upload_project api p w)) = (Project_entity, p_id p)"
  by (simp add: upload_project_cases split: option.splits)

lemma upload_project_throws:
  assumes "fst (upload_project_try api p w) = Some e"
  shows "fst (upload_project api p w) = UploadResult Project_entity act_error (p_id p) (Some e)"
    and "find_project (p_id p) (projects (snd (upload_project api p w))) =
           map_option (\<lambda>q. q\<lparr>p_syncStatus := ERROR\<rparr>) (find_project (p_id p) (projects w))"
    and "syncLogs (snd (upload_project api p w)) = syncLogs w @ [error_log Project_entity (p_id p) e]"
  using assms upload_project_try_throws [OF assms]
  by (simp_all add: upload_project_cases find_project_update syncLogs_logSync error_log_def)

lemma upload_project_completes:
  assumes "fst (upload_project_try api p w) = None"
  shows "fst (upload_project api p w) = UploadResult Project_entity act_uploaded (p_id p) None"
    and "map_option p_syncStatus (find_project (p_id p) (projects (snd (upload_project api p w)))) =
           map_option (\<lambda>q. SYNCED) (find_project (p_id p) (projects w))"
    and "\<exists>l. syncLogs (snd (upload_project api p w)) = syncLogs w @ [l] \<and>
             l_entityType l = Project_entity \<and> l_entityId l = p_id p \<and>
             l_direction l = TO_TODOIST \<and> l_errorMessage l = None"
  using assms upload_project_try_completes [OF assms]
  by (simp_all add: upload_project_cases)

lemma upload_project_log:
  "\<exists>l. syncLogs (snd (upload_project api p w)) = syncLogs w @ [l] \<and>
       l_entityType l = Project_entity \<and> l_entityId l = p_id p"
proof (cases "fst (upload_project_try api p w)")
  case None
  from upload_project_completes(3) [OF this] show ?thesis by blast
next
  case (Some e)
  from upload_project_throws(3) [OF this] show ?thesis by (simp add: error_log_def)
qed

lemma upload_projects_tasks [simp]: "tasks (snd (upload_projects api ps w)) = tasks w"
  by (induction ps arbitrary: w) (simp_all add: case_prod_unfold)

lemma upload_projects_ids [simp]:
  "map p_id (projects (snd (upload_projects api ps w))) = map p_id (projects w)"
  by (induction ps arbitrary: w) (simp_all add: case_prod_unfold)

lemma upload_projects_other:
  "i \<notin> p_id ` set ps \<Longrightarrow>
   find_project i (projects (snd (upload_projects api ps w))) = find_project i (projects w)"
  by (induction ps arbitrary: w) (simp_all add: case_prod_unfold upload_project_other)

lemma upload_projects_entities:
  "map r_entity (fst (upload_projects api ps w)) = map (\<lambda>p. (Project_entity, p_id p)) ps"
  by (induction ps arbitrary: w) (simp_all add: case_prod_unfold)

lemma upload_projects_logs:
  "\<exists>ls. syncLogs (snd (upload_projects api ps w)) = syncLogs w @ ls \<and>
        (\<forall>l\<in>set ls. l_entityType l = Project_entity \<and> l_entityId l \<in> p_id ` set ps)"
proof (induction ps arbitrary: w)
  case Nil
  show ?case by simp
next
  case (Cons p ps)
  obtain l where l: "syncLogs (snd (upload_project api p w)) = syncLogs w @ [l]"
      "l_entityType l = Project_entity" "l_entityId l = p_id p"
    using upload_project_log by blast
  obtain ls where ls: "syncLogs (snd (upload_projects api ps (snd (upload_project api p w)))) =
        syncLogs (snd (upload_project api p w)) @ ls"
      "\<forall>l\<in>set ls. l_entityType l = Project_entity \<and> l_entityId l \<in> p_id ` set ps"
    using Cons.IH by blast
  show ?case
    using l ls by (intro exI [of _ "l # ls"]) (simp add: case_prod_unfold)
qed

lemma logs_of_none:
  "\<forall>l\<in>set ls. l_entityType l = ty' \<and> l_entityId l \<in> S \<Longrightarrow> i \<notin> S \<Longrightarrow> logs_of ty i ls = []"
  by (auto simp: logs_of_def filter_empty_conv)

lemma results_of_none: "(ty, i) \<notin> set (map r_entity rs) \<Longrightarrow> results_of ty i rs = []"
  by (induction rs) (auto simp: results_of_def)

text \<open>The iteration for one project inside the loop, the other projects having other keys.\<close>

lemma upload_projects_at:
  assumes d: "distinct (map p_id (pre @ p # post))"
  shows "fst (upload_project_try api p (snd (upload_projects api pre w))) = Some e \<Longrightarrow>
           find_project (p_id p) (projects (snd (upload_projects api (pre @ p # post) w))) =
             map_option (\<lambda>q. q\<lparr>p_syncStatus := ERROR\<rparr>) (find_project (p_id p) (projects w)) \<and>
           logs_of Project_entity (p_id p)
             (new_logs w (snd (upload_projects api (pre @ p # post) w))) =
             [error_log Project_entity (p_id p) e] \<and>
           results_of Project_entity (p_id p) (fst (upload_projects api (pre @ p # post) w)) =
             [UploadResult Project_entity act_error (p_id p) (Some e)]"
    and "fst (upload_project_try api p (snd (upload_projects api pre w))) = None \<Longrightarrow>
           map_option p_syncStatus
             (find_project (p_id p) (projects (snd (upload_projects api (pre @ p # post) w)))) =
             map_option (\<lambda>q. SYNCED) (find_project (p_id p) (projects w)) \<and>
           (\<exists>l. logs_of Project_entity (p_id p)
                  (new_logs w (snd (upload_projects api (pre @ p # post) w))) = [l] \<and>
                l_direction l = TO_TODOIST \<and> l_errorMessage l = None) \<and>
           results_of Project_entity (p_id p) (fst (upload_projects api (pre @ p # post) w)) =
             [UploadResult Project_entity act_uploaded (p_id p) None]"
proof -
  define wk where "wk = snd (upload_projects api pre w)"
  define wk1 where "wk1 = snd (upload_project api p wk)"
  define w1 where "w1 = snd (upload_projects api post wk1)"
  have final: "snd (upload_projects api (pre @ p # post) w) = w1"
    by (simp add: upload_projects_append case_prod_unfold wk_def wk1_def w1_def)
  have res: "fst (upload_projects api (pre @ p # post) w) =
      fst (upload_projects api pre w) @ fst (upload_project api p wk) # fst (upload_projects api post wk1)"
    by (simp add: upload_projects_append case_prod_unfold wk_def wk1_def)
  have notpre: "p_id p \<notin> p_id ` set pre" and notpost: "p_id p \<notin> p_id ` set post"
    using d by auto
  have rowk: "find_project (p_id p) (projects wk) = find_project (p_id p) (projects w)"
    unfolding wk_def using notpre by (rule upload_projects_other)
  have row1: "find_project (p_id p) (projects w1) = find_project (p_id p) (projects wk1)"
    unfolding w1_def using notpost by (rule upload_projects_other)
  obtain la where la: "syncLogs wk = syncLogs w @ la"
      "\<forall>l\<in>set la. l_entityType l = Project_entity \<and> l_entityId l \<in> p_id ` set pre"
    unfolding wk_def using upload_projects_logs by blast
  obtain lc where lc: "syncLogs w1 = syncLogs wk1 @ lc"
      "\<forall>l\<in>set lc. l_entityType l = Project_entity \<and> l_entityId l \<in> p_id ` set post"
    unfolding w1_def using upload_projects_logs by blast
  have fa: "logs_of Project_entity (p_id p) la = []"
    using la(2) notpre by (rule logs_of_none)
  have fc: "logs_of Project_entity (p_id p) lc = []"
    using lc(2) notpost by (rule logs_of_none)
  have ra: "results_of Project_entity (p_id p) (fst (upload_projects api pre w)) = []"
  proof -
    have "(Project_entity, p_id p) \<notin> set (map r_entity (fst (upload_projects api pre w)))"
      unfolding upload_projects_entities using notpre by auto
    then show ?thesis by (rule results_of_none)
  qed
  have rc: "results_of Project_entity (p_id p) (fst (upload_projects api post wk1)) = []"
  proof -
    have "(Project_entity, p_id p) \<notin> set (map r_entity (fst (upload_projects api post wk1)))"
      unfolding upload_projects_entities using notpost by auto
    then show ?thesis by (rule results_of_none)
  qed
  {
    assume t: "fst (upload_project_try api p (snd (upload_projects api pre w))) = Some e"
    then have t': "fst (upload_project_try api p wk) = Some e" by (simp add: wk_def)
    note step = upload_project_throws [OF t']
    have logs: "syncLogs w1 = syncLogs w @ (la @ error_log Project_entity (p_id p) e # lc)"
      using la(1) lc(1) step(3) by (simp add: wk1_def)
    have "logs_of Project_entity (p_id p) (new_logs w w1) = [error_log Project_entity (p_id p) e]"
      unfolding new_logs_ext [OF logs] using fa fc by (simp add: logs_of_def error_log_def)
    moreover have "find_project (p_id p) (projects w1) =
        map_option (\<lambda>q. q\<lparr>p_syncStatus := ERROR\<rparr>) (find_project (p_id p) (projects w))"
      using row1 rowk step(2) by (simp add: wk1_def)
    moreover have "results_of Project_entity (p_id p) (fst (upload_projects api (pre @ p # post) w)) =
        [UploadResult Project_entity act_error (p_id p) (Some e)]"
      unfolding res using ra rc step(1) by (simp add: results_of_def)
    ultimately show "find_project (p_id p) (projects (snd (upload_projects api (pre @ p # post) w))) =
             map_option (\<lambda>q. q\<lparr>p_syncStatus := ERROR\<rparr>) (find_project (p_id p) (projects w)) \<and>
           logs_of Project_entity (p_id p)
             (new_logs w (snd (upload_projects api (pre @ p # post) w))) =
             [error_log Project_entity (p_id p) e] \<and>
           results_of Project_entity (p_id p) (fst (upload_projects api (pre @ p # post) w)) =
             [UploadResult Project_entity act_error (p_id p) (Some e)]"
      unfolding final by simp
  }
  {
    assume t: "fst (upload_project_try api p (snd (upload_projects api pre w))) = None"
    then have t': "fst (upload_project_try api p wk) = None" by (simp add: wk_def)
    note step = upload_project_completes [OF t']
    obtain l where l: "syncLogs wk1 = syncLogs wk @ [l]" "l_entityType l = Project_entity"
        "l_entityId l = p_id p" "l_direction l = TO_TODOIST" "l_errorMessage l = None"
      using step(3) unfolding wk1_def by blast
    have logs: "syncLogs w1 = syncLogs w @ (la @ l # lc)"
      using la(1) lc(1) l(1) by simp
    have "logs_of Project_entity (p_id p) (new_logs w w1) = [l]"
      unfolding new_logs_ext [OF logs] using fa fc l by (simp add: logs_of_def)
    then have "\<exists>l. logs_of Project_entity (p_id p) (new_logs w w1) = [l] \<and>
                l_direction l = TO_TODOIST \<and> l_errorMessage l = None"
      using l by blast
    moreover have "map_option p_syncStatus (find_project (p_id p) (projects w1)) =
        map_option (\<lambda>q. SYNCED) (find_project (p_id p) (projects w))"
      using row1 rowk step(2) by (simp add: wk1_def)
    moreover have "results_of Project_entity (p_id p) (fst (upload_projects api (pre @ p # post) w)) =
        [UploadResult Project_entity act_uploaded (p_id p) None]"
      unfolding res using ra rc step(1) by (simp add: results_of_def)
    ultimately show "map_option p_syncStatus
             (find_project (p_id p) (projects (snd (upload_projects api (pre @ p # post) w)))) =
             map_option (\<lambda>q. SYNCED) (find_project (p_id p) (projects w)) \<and>
           (\<exists>l. logs_of Project_entity (p_id p)
                  (new_logs w (snd (upload_projects api (pre @ p # post) w))) = [l] \<and>
                l_direction l = TO_TODOIST \<and> l_errorMessage l = None) \<and>
           results_of Project_entity (p_id p) (fst (upload_projects api (pre @ p # post) w)) =
             [UploadResult Project_entity act_uploaded (p_id p) None]"
      unfolding final by simp
  }
qed

lemma upload_tasks_Cons:
  "upload_tasks api (j # js) w =
     (fst (upload_task api j w) @ fst (upload_tasks api js (snd (upload_task api j w))),
      snd (upload_tasks api js (snd (upload_task api j w))))"
  by (simp add: case_prod_unfold)

lemma upload_tasks_append:
  "upload_tasks api (xs @ ys) w =
     (fst (upload_tasks api xs w) @ fst (upload_tasks api ys (snd (upload_tasks api xs w))),
      snd (upload_tasks api ys (snd (upload_tasks api xs w))))"
  by (induction xs arbitrary: w) (simp_all add: case_prod_unfold)

lemma upload_task_cases:
  "upload_task api j w =
     (case fst (upload_task_try api j w) of
        Skipped \<Rightarrow> ([], snd (upload_task_try api j w))
      | Completed \<Rightarrow>
          ([UploadResult Task_entity act_uploaded (t_id (fst j)) None], snd (upload_task_try api j w))
      | Threw e \<Rightarrow>
          ([UploadResult Task_entity act_error (t_id (fst j)) (Some e)],
           logSync Task_entity (t_id (fst j)) UPDATE TO_TODOIST None (Some (error_message e))
             (update_task (t_id (fst j)) (\<lambda>q. q\<lparr>t_syncStatus := ERROR\<rparr>)
                (snd (upload_task_try api j w)))))"
  by (simp add: upload_task_def Let_def case_prod_unfold split: attempt.splits)

lemma upload_task_try_skipped:
  "fst (upload_task_try api j w) = Skipped \<longleftrightarrow> \<not> eligible j"
  by (cases j) (auto simp: upload_task_try_def eligible_def Let_def split: option.splits sum.splits if_splits)

lemma upload_task_try_skip_world:
  "fst (upload_task_try api j w) = Skipped \<Longrightarrow> snd (upload_task_try api j w) = w"
  by (cases j) (auto simp: upload_task_try_def Let_def split: option.splits sum.splits if_splits)

lemma upload_task_try_throws:
  assumes "fst (upload_task_try api j w) = Threw e"
  shows "tasks (snd (upload_task_try api j w)) = tasks w"
    and "syncLogs (snd (upload_task_try api j w)) = syncLogs w"
  using assms
  by (cases j; auto simp: upload_task_try_def Let_def split: option.splits sum.splits if_splits)+

lemma upload_task_try_projects [simp]:
  "projects (snd (upload_task_try api j w)) = projects w"
  by (cases j) (simp add: upload_task_try_def Let_def split: option.splits sum.splits)

lemma upload_task_try_ids [simp]:
  "map t_id (tasks (snd (upload_task_try api j w))) = map t_id (tasks w)"
  by (cases j) (simp add: upload_task_try_def Let_def split: option.splits sum.splits)

lemma upload_task_try_other:
  "i \<noteq> t_id (fst j) \<Longrightarrow>
   find_task i (tasks (snd (upload_task_try api j w))) = find_task i (tasks w)"
  by (cases j) (simp add: upload_task_try_def Let_def find_task_update split: option.splits sum.splits)

lemma upload_task_try_completes:
  assumes "fst (upload_task_try api j w) = Completed"
  shows "map_option t_syncStatus (find_task (t_id (fst j)) (tasks (snd (upload_task_try api j w)))) =
           map_option (\<lambda>q. SYNCED) (find_task (t_id (fst j)) (tasks w))"
    and "\<exists>l. syncLogs (snd (upload_task_try api j w)) = syncLogs w @ [l] \<and>
             l_entityType l = Task_entity \<and> l_entityId l = t_id (fst j) \<and>
             l_direction l = TO_TODOIST \<and> l_errorMessage l = None"
  using assms
  by (cases j; auto simp: upload_task_try_def Let_def find_task_update syncLogs_logSync
        option.map_comp comp_def split: option.splits sum.splits if_splits)+

lemma upload_task_projects [simp]: "projects (snd (upload_task api j w)) = projects w"
  by (simp add: upload_task_cases split: attempt.splits)

lemma upload_task_ids [simp]:
  "map t_id (tasks (snd (upload_task api j w))) = map t_id (tasks w)"
  by (simp add: upload_task_cases split: attempt.splits)

lemma upload_task_other:
  "i \<noteq> t_id (fst j) \<Longrightarrow>
   find_task i (tasks (snd (upload_task api j w))) = find_task i (tasks w)"
  by (simp add: upload_task_cases find_task_update upload_task_try_other split: attempt.splits)

lemma upload_task_entities:
  "map r_entity (fst (upload_task api j w)) = (if eligible j then [(Task_entity, t_id (fst j))] else [])"
  using upload_task_try_skipped [of api j w]
  by (auto simp: upload_task_cases split: attempt.splits)

lemma upload_task_skips:
  assumes "\<not> eligible j"
  shows "upload_task api j w = ([], w)"
  using assms upload_task_try_skipped [of api j w] upload_task_try_skip_world [of api j w]
  by (simp add: upload_task_cases)

lemma upload_task_throws:
  assumes "fst (upload_task_try api j w) = Threw e"
  shows "fst (upload_task api j w) = [UploadResult Task_entity act_error (t_id (fst j)) (Some e)]"
    and "find_task (t_id (fst j)) (tasks (snd (upload_task api j w))) =
           map_option (\<lambda>q. q\<lparr>t_syncStatus := ERROR\<rparr>) (find_task (t_id (fst j)) (tasks w))"
    and "syncLogs (snd (upload_task api j w)) = syncLogs w @ [error_log Task_entity (t_id (fst j)) e]"
  using assms upload_task_try_throws [OF assms]
  by (simp_all add: upload_task_cases find_task_update syncLogs_logSync error_log_def)

lemma upload_task_completes:
  assumes "fst (upload_task_try api j w) = Completed"
  shows "fst (upload_task api j w) = [UploadResult Task_entity act_uploaded (t_id (fst j)) None]"
    and "map_option t_syncStatus (find_task (t_id (fst j)) (tasks (snd (upload_task api j w)))) =
           map_option (\<lambda>q. SYNCED) (find_task (t_id (fst j)) (tasks w))"
    and "\<exists>l. syncLogs (snd (upload_task api j w)) = syncLogs w @ [l] \<and>
             l_entityType l = Task_entity \<and> l_entityId l = t_id (fst j) \<and>
             l_direction l = TO_TODOIST \<and> l_errorMessage l = None"
  using assms upload_task_try_completes [OF assms]
  by (simp_all add: upload_task_cases)

lemma upload_task_log:
  "\<exists>ls. syncLogs (snd (upload_task api j w)) = syncLogs w @ ls \<and>
       (\<forall>l\<in>set ls. l_entityType l = Task_entity \<and> l_entityId l = t_id (fst j))"
proof (cases "fst (upload_task_try api j w)")
  case Skipped
  then have "\<not> eligible j" by (simp add: upload_task_try_skipped)
  then show ?thesis by (simp add: upload_task_skips)
next
  case Completed
  from upload_task_completes(3) [OF this] obtain l where
    "syncLogs (snd (upload_task api j w)) = syncLogs w @ [l]"
    "l_entityType l = Task_entity" "l_entityId l = t_id (fst j)" by blast
  then show ?thesis by (intro exI [of _ "[l]"]) simp
next
  case (Threw e)
  from upload_task_throws(3) [OF this] show ?thesis
    by (intro exI [of _ "[error_log Task_entity (t_id (fst j)) e]"]) (simp add: error_log_def)
qed

lemma upload_tasks_projects [simp]: "projects (snd (upload_tasks api js w)) = projects w"
  by (induction js arbitrary: w) (simp_all add: case_prod_unfold)

lemma upload_tasks_ids [simp]:
  "map t_id (tasks (snd (upload_tasks api js w))) = map t_id (tasks w)"
  by (induction js arbitrary: w) (simp_all add: case_prod_unfold)

lemma upload_tasks_other:
  "i \<notin> (\<lambda>j. t_id (fst j)) ` set js \<Longrightarrow>
   find_task i (tasks (snd (upload_tasks api js w))) = find_task i (tasks w)"
  by (induction js arbitrary: w) (simp_all add: case_prod_unfold upload_task_other)

lemma upload_tasks_entities:
  "map r_entity (fst (upload_tasks api js w)) =
     map (\<lambda>j. (Task_entity, t_id (fst j))) (filter eligible js)"
  by (induction js arbitrary: w) (simp_all add: case_prod_unfold upload_task_entities)

lemma upload_tasks_logs:
  "\<exists>ls. syncLogs (snd (upload_tasks api js w)) = syncLogs w @ ls \<and>
        (\<forall>l\<in>set ls. l_entityType l = Task_entity \<and> l_entityId l \<in> (\<lambda>j. t_id (fst j)) ` set js)"
proof (induction js arbitrary: w)
  case Nil
  show ?case by simp
next
  case (Cons j js)
  obtain la where la: "syncLogs (snd (upload_task api j w)) = syncLogs w @ la"
      "\<forall>l\<in>set la. l_entityType l = Task_entity \<and> l_entityId l = t_id (fst j)"
    using upload_task_log by blast
  obtain ls where ls: "syncLogs (snd (upload_tasks api js (snd (upload_task api j w)))) =
        syncLogs (snd (upload_task api j w)) @ ls"
      "\<forall>l\<in>set ls. l_entityType l = Task_entity \<and> l_entityId l \<in> (\<lambda>j. t_id (fst j)) ` set js"
    using Cons.IH by blast
  show ?case
    using la ls by (intro exI [of _ "la @ ls"]) (auto simp: case_prod_unfold)
qed

lemma upload_tasks_at:
  assumes d: "distinct (map (\<lambda>j. t_id (fst j)) (pre @ j # post))"
  shows "fst (upload_task_try api j (snd (upload_tasks api pre w))) = Threw e \<Longrightarrow>
           find_task (t_id (fst j)) (tasks (snd (upload_tasks api (pre @ j # post) w))) =
             map_option (\<lambda>q. q\<lparr>t_syncStatus := ERROR\<rparr>) (find_task (t_id (fst j)) (tasks w)) \<and>
           logs_of Task_entity (t_id (fst j))
             (new_logs w (snd (upload_tasks api (pre @ j # post) w))) =
             [error_log Task_entity (t_id (fst j)) e] \<and>
           results_of Task_entity (t_id (fst j)) (fst (upload_tasks api (pre @ j # post) w)) =
             [UploadResult Task_entity act_error (t_id (fst j)) (Some e)]"
    and "fst (upload_task_try api j (snd (upload_tasks api pre w))) = Completed \<Longrightarrow>
           map_option t_syncStatus
             (find_task (t_id (fst j)) (tasks (snd (upload_tasks api (pre @ j # post) w)))) =
             map_option (\<lambda>q. SYNCED) (find_task (t_id (fst j)) (tasks w)) \<and>
           (\<exists>l. logs_of Task_entity (t_id (fst j))
                  (new_logs w (snd (upload_tasks api (pre @ j # post) w))) = [l] \<and>
                l_direction l = TO_TODOIST \<and> l_errorMessage l = None) \<and>
           results_of Task_entity (t_id (fst j)) (fst (upload_tasks api (pre @ j # post) w)) =
             [UploadResult Task_entity act_uploaded (t_id (fst j)) None]"
    and "\<not> eligible j \<Longrightarrow>
           find_task (t_id (fst j)) (tasks (snd (upload_tasks api (pre @ j # post) w))) =
             find_task (t_id (fst j)) (tasks w) \<and>
           logs_of Task_entity (t_id (fst j))
             (new_logs w (snd (upload_tasks api (pre @ j # post) w))) = [] \<and>
           results_of Task_entity (t_id (fst j)) (fst (upload_tasks api (pre @ j # post) w)) = []"
proof -
  define i where "i = t_id (fst j)"
  define wk where "wk = snd (upload_tasks api pre w)"
  define wk1 where "wk1 = snd (upload_task api j wk)"
  define w1 where "w1 = snd (upload_tasks api post wk1)"
  have final: "snd (upload_tasks api (pre @ j # post) w) = w1"
    by (simp add: upload_tasks_append case_prod_unfold wk_def wk1_def w1_def)
  have res: "fst (upload_tasks api (pre @ j # post) w) =
      fst (upload_tasks api pre w) @ fst (upload_task api j wk) @ fst (upload_tasks api post wk1)"
    by (simp add: upload_tasks_append case_prod_unfold wk_def wk1_def)
  have notpre: "i \<notin> (\<lambda>j. t_id (fst j)) ` set pre" and notpost: "i \<notin> (\<lambda>j. t_id (fst j)) ` set post"
    using d by (auto simp: i_def)
  have rowk: "find_task i (tasks wk) = find_task i (tasks w)"
    unfolding wk_def using notpre by (rule upload_tasks_other)
  have row1: "find_task i (tasks w1) = find_task i (tasks wk1)"
    unfolding w1_def using notpost by (rule upload_tasks_other)
  obtain la where la: "syncLogs wk = syncLogs w @ la"
      "\<forall>l\<in>set la. l_entityType l = Task_entity \<and> l_entityId l \<in> (\<lambda>j. t_id (fst j)) ` set pre"
    unfolding wk_def using upload_tasks_logs by blast
  obtain lc where lc: "syncLogs w1 = syncLogs wk1 @ lc"
      "\<forall>l\<in>set lc. l_entityType l = Task_entity \<and> l_entityId l \<in> (\<lambda>j. t_id (fst j)) ` set post"
    unfolding w1_def using upload_tasks_logs by blast
  have fa: "logs_of Task_entity i la = []"
    using la(2) notpre by (rule logs_of_none)
  have fc: "logs_of Task_entity i lc = []"
    using lc(2) notpost by (rule logs_of_none)
  have ra: "results_of Task_entity i (fst (upload_tasks api pre w)) = []"
  proof -
    have "(Task_entity, i) \<notin> set (map r_entity (fst (upload_tasks api pre w)))"
      unfolding upload_tasks_entities using notpre by auto
    then show ?thesis by (rule results_of_none)
  qed
  have rc: "results_of Task_entity i (fst (upload_tasks api post wk1)) = []"
  proof -
    have "(Task_entity, i) \<notin> set (map r_entity (fst (upload_tasks api post wk1)))"
      unfolding upload_tasks_entities using notpost by auto
    then show ?thesis by (rule results_of_none)
  qed
  {
    assume t: "fst (upload_task_try api j (snd (upload_tasks api pre w))) = Threw e"
    then have t': "fst (upload_task_try api j wk) = Threw e" by (simp add: wk_def)
    note step = upload_task_throws [OF t']
    have logs: "syncLogs w1 = syncLogs w @ (la @ error_log Task_entity i e # lc)"
      using la(1) lc(1) step(3) by (simp add: wk1_def i_def)
    have "logs_of Task_entity i (new_logs w w1) = [error_log Task_entity i e]"
      unfolding new_logs_ext [OF logs] using fa fc by (simp add: logs_of_def error_log_def)
    moreover have "find_task i (tasks w1) =
        map_option (\<lambda>q. q\<lparr>t_syncStatus := ERROR\<rparr>) (find_task i (tasks w))"
      using row1 rowk step(2) by (simp add: wk1_def i_def)
    moreover have "results_of Task_entity i (fst (upload_tasks api (pre @ j # post) w)) =
        [UploadResult Task_entity act_error i (Some e)]"
      unfolding res using ra rc step(1) by (simp add: results_of_def i_def)
    ultimately show "find_task (t_id (fst j)) (tasks (snd (upload_tasks api (pre @ j # post) w))) =
             map_option (\<lambda>q. q\<lparr>t_syncStatus := ERROR\<rparr>) (find_task (t_id (fst j)) (tasks w)) \<and>
           logs_of Task_entity (t_id (fst j))
             (new_logs w (snd (upload_tasks api (pre @ j # post) w))) =
             [error_log Task_entity (t_id (fst j)) e] \<and>
           results_of Task_entity (t_id (fst j)) (fst (upload_tasks api (pre @ j # post) w)) =
             [UploadResult Task_entity act_error (t_id (fst j)) (Some e)]"
      unfolding final i_def by simp
  }
  {
    assume t: "fst (upload_task_try api j (snd (upload_tasks api pre w))) = Completed"
    then have t': "fst (upload_task_try api j wk) = Completed" by (simp add: wk_def)
    note step = upload_task_completes [OF t']
    obtain l where l: "syncLogs wk1 = syncLogs wk @ [l]" "l_entityType l = Task_entity"
        "l_entityId l = i" "l_direction l = TO_TODOIST" "l_errorMessage l = None"
      using step(3) unfolding wk1_def i_def by blast
    have logs: "syncLogs w1 = syncLogs w @ (la @ l # lc)"
      using la(1) lc(1) l(1) by simp
    have "logs_of Task_entity i (new_logs w w1) = [l]"
      unfolding new_logs_ext [OF logs] using fa fc l by (simp add: logs_of_def)
    then have "\<exists>l. logs_of Task_entity i (new_logs w w1) = [l] \<and>
                l_direction l = TO_TODOIST \<and> l_errorMessage l = None"
      using l by blast
    moreover have "map_option t_syncStatus (find_task i (tasks w1)) =
        map_option (\<lambda>q. SYNCED) (find_task i (tasks w))"
      using row1 rowk step(2) by (simp add: wk1_def i_def)
    moreover have "results_of Task_entity i (fst (upload_tasks api (pre @ j # post) w)) =
        [UploadResult Task_entity act_uploaded i None]"
      unfolding res using ra rc step(1) by (simp add: results_of_def i_def)
    ultimately show "map_option t_syncStatus
             (find_task (t_id (fst j)) (tasks (snd (upload_tasks api (pre @ j # post) w)))) =
             map_option (\<lambda>q. SYNCED) (find_task (t_id (fst j)) (tasks w)) \<and>
           (\<exists>l. logs_of Task_entity (t_id (fst j))
                  (new_logs w (snd (upload_tasks api (pre @ j # post) w))) = [l] \<and>
                l_direction l = TO_TODOIST \<and> l_errorMessage l = None) \<and>
           results_of Task_entity (t_id (fst j)) (fst (upload_tasks api (pre @ j # post) w)) =
             [UploadResult Task_entity act_uploaded (t_id (fst j)) None]"
      unfolding final i_def by simp
  }
  {
    assume t: "\<not> eligible j"
    have step: "upload_task api j wk = ([], wk)" using t by (rule upload_task_skips)
    have wk1: "wk1 = wk" by (simp add: wk1_def step)
    have logs: "syncLogs w1 = syncLogs w @ (la @ lc)"
      using la(1) lc(1) wk1 by simp
    have "logs_of Task_entity i (new_logs w w1) = []"
      unfolding new_logs_ext [OF logs] using fa fc by (simp add: logs_of_def)
    moreover have "find_task i (tasks w1) = find_task i (tasks w)"
      using row1 rowk wk1 by simp
    moreover have "results_of Task_entity i (fst (upload_tasks api (pre @ j # post) w)) = []"
      unfolding res using ra rc step by (simp add: results_of_def)
    ultimately show "find_task (t_id (fst j)) (tasks (snd (upload_tasks api (pre @ j # post) w))) =
             find_task (t_id (fst j)) (tasks w) \<and>
           logs_of Task_entity (t_id (fst j))
             (new_logs w (snd (upload_tasks api (pre @ j # post) w))) = [] \<and>
           results_of Task_entity (t_id (fst j)) (fst (upload_tasks api (pre @ j # post) w)) = []"
      unfolding final i_def by simp
  }
qed

lemma find_project_distinct:
  "distinct (map p_id ps) \<Longrightarrow> p \<in> set ps \<Longrightarrow> find_project (p_id p) ps = Some p"
  by (induction ps) (auto simp: find_project_def)

lemma find_task_distinct:
  "distinct (map t_id ts) \<Longrightarrow> t \<in> set ts \<Longrightarrow> find_task (t_id t) ts = Some t"
  by (induction ts) (auto simp: find_task_def)

lemma uploadToTodoist_eq:
  "uploadToTodoist api w =
     (Inr (fst (upload_projects api (pendingProjects w) w) @
           fst (upload_tasks api (pendingTasks (after_projects api w)) (after_projects api w))),
      snd (upload_tasks api (pendingTasks (after_projects api w)) (after_projects api w)))"
  by (simp add: uploadToTodoist_def after_projects_def case_prod_unfold)

lemma after_projects_tasks [simp]: "tasks (after_projects api w) = tasks w"
  by (simp add: after_projects_def)

lemma pendingTasks_ids:
  "map (\<lambda>j. t_id (fst j)) (pendingTasks w) =
     map t_id (filter (\<lambda>t. t_syncStatus t = PENDING_UPLOAD) (tasks w))"
  by (simp add: pendingTasks_def comp_def)

lemma pendingTasks_distinct:
  "distinct (map t_id (tasks w)) \<Longrightarrow> distinct (map (\<lambda>j. t_id (fst j)) (pendingTasks w))"
  by (simp add: pendingTasks_ids distinct_map_filter)

lemma pendingProjects_distinct:
  "distinct (map p_id (projects w)) \<Longrightarrow> distinct (map p_id (pendingProjects w))"
  by (simp add: pendingProjects_def distinct_map_filter)

lemma results_of_append [simp]:
  "results_of ty i (xs @ ys) = results_of ty i xs @ results_of ty i ys"
  by (simp add: results_of_def)

lemma logs_of_append [simp]:
  "logs_of ty i (xs @ ys) = logs_of ty i xs @ logs_of ty i ys"
  by (simp add: logs_of_def)

lemma new_logs_trans:
  assumes "syncLogs w1 = syncLogs w @ a" "syncLogs w2 = syncLogs w1 @ b"
  shows "new_logs w w2 = new_logs w w1 @ new_logs w1 w2"
  using assms by (simp add: new_logs_def)

text \<open>The project loop writes nothing about a task, the task loop nothing about a project.\<close>

lemma upload_projects_no_task:
  "logs_of Task_entity i (new_logs w (snd (upload_projects api ps w))) = []"
  "results_of Task_entity i (fst (upload_projects api ps w)) = []"
proof -
  obtain ls where ls: "syncLogs (snd (upload_projects api ps w)) = syncLogs w @ ls"
      "\<forall>l\<in>set ls. l_entityType l = Project_entity \<and> l_entityId l \<in> p_id ` set ps"
    using upload_projects_logs by blast
  show "logs_of Task_entity i (new_logs w (snd (upload_projects api ps w))) = []"
    unfolding new_logs_ext [OF ls(1)] using ls(2) by (auto simp: logs_of_def filter_empty_conv)
  have "(Task_entity, i) \<notin> set (map r_entity (fst (upload_projects api ps w)))"
    unfolding upload_projects_entities by auto
  then show "results_of Task_entity i (fst (upload_projects api ps w)) = []"
    by (rule results_of_none)
qed

lemma upload_tasks_no_project:
  "logs_of Project_entity i (new_logs w (snd (upload_tasks api js w))) = []"
  "results_of Project_entity i (fst (upload_tasks api js w)) = []"
proof -
  obtain ls where ls: "syncLogs (snd (upload_tasks api js w)) = syncLogs w @ ls"
      "\<forall>l\<in>set ls. l_entityType l = Task_entity \<and> l_entityId l \<in> (\<lambda>j. t_id (fst j)) ` set js"
    using upload_tasks_logs by blast
  show "logs_of Project_entity i (new_logs w (snd (upload_tasks api js w))) = []"
    unfolding new_logs_ext [OF ls(1)] using ls(2) by (auto simp: logs_of_def filter_empty_conv)
  have "(Project_entity, i) \<notin> set (map r_entity (fst (upload_tasks api js w)))"
    unfolding upload_tasks_entities by auto
  then show "results_of Project_entity i (fst (upload_tasks api js w)) = []"
    by (rule results_of_none)
qed

lemma pass_new_logs:
  "new_logs w (snd (uploadToTodoist api w)) =
     new_logs w (after_projects api w) @
     new_logs (after_projects api w) (snd (uploadToTodoist api w))"
proof -
  obtain a where a: "syncLogs (after_projects api w) = syncLogs w @ a"
    unfolding after_projects_def using upload_projects_logs by blast
  obtain b where b: "syncLogs (snd (uploadToTodoist api w)) = syncLogs (after_projects api w) @ b"
    unfolding uploadToTodoist_eq using upload_tasks_logs by fastforce
  show ?thesis using a b by (rule new_logs_trans)
qed

lemma pass_results_eq:
  "pass_results api w =
     fst (upload_projects api (pendingProjects w) w) @
     fst (upload_tasks api (pendingTasks (after_projects api w)) (after_projects api w))"
  by (simp add: pass_results_def uploadToTodoist_eq)

lemma pass_returns: "fst (uploadToTodoist api w) = Inr (pass_results api w)"
  by (simp add: pass_results_def uploadToTodoist_eq)

lemma pass_projects [simp]:
  "projects (snd (uploadToTodoist api w)) = projects (after_projects api w)"
  by (simp add: uploadToTodoist_eq)

lemma pass_project:
  assumes d: "distinct (map p_id (projects w))" and k: "k < length (pendingProjects w)"
  shows "fst (upload_project_try api (pendingProjects w ! k) (before_project api w k)) = Some e \<Longrightarrow>
           find_project (p_id (pendingProjects w ! k)) (projects (snd (uploadToTodoist api w))) =
             Some ((pendingProjects w ! k)\<lparr>p_syncStatus := ERROR\<rparr>) \<and>
           logs_of Project_entity (p_id (pendingProjects w ! k))
             (new_logs w (snd (uploadToTodoist api w))) =
             [error_log Project_entity (p_id (pendingProjects w ! k)) e] \<and>
           results_of Project_entity (p_id (pendingProjects w ! k)) (pass_results api w) =
             [UploadResult Project_entity act_error (p_id (pendingProjects w ! k)) (Some e)]"
    and "fst (upload_project_try api (pendingProjects w ! k) (before_project api w k)) = None \<Longrightarrow>
           map_option p_syncStatus
             (find_project (p_id (pendingProjects w ! k)) (projects (snd (uploadToTodoist api w)))) =
             Some SYNCED \<and>
           (\<exists>l. logs_of Project_entity (p_id (pendingProjects w ! k))
                  (new_logs w (snd (uploadToTodoist api w))) = [l] \<and>
                l_direction l = TO_TODOIST \<and> l_errorMessage l = None) \<and>
           results_of Project_entity (p_id (pendingProjects w ! k)) (pass_results api w) =
             [UploadResult Project_entity act_uploaded (p_id (pendingProjects w ! k)) None]"
proof -
  define P where "P = pendingProjects w"
  define p where "p = P ! k"
  have split: "P = take k P @ p # drop (Suc k) P"
    using k by (simp add: P_def p_def id_take_nth_drop)
  have dP: "distinct (map p_id (take k P @ p # drop (Suc k) P))"
    using pendingProjects_distinct [OF d] split by (simp add: P_def)
  have "p \<in> set P" using k by (simp add: P_def p_def)
  then have "p \<in> set (projects w)" by (simp add: P_def pendingProjects_def)
  then have row: "find_project (p_id p) (projects w) = Some p"
    using d by (simp add: find_project_distinct)
  have ap: "after_projects api w = snd (upload_projects api (take k P @ p # drop (Suc k) P) w)"
    using split by (simp add: after_projects_def P_def)
  have rp: "fst (upload_projects api (pendingProjects w) w) =
      fst (upload_projects api (take k P @ p # drop (Suc k) P) w)"
    using split by (simp add: P_def)
  have bp: "before_project api w k = snd (upload_projects api (take k P) w)"
    by (simp add: before_project_def P_def)
  note at = upload_projects_at [OF dP, of api w]
  {
    assume "fst (upload_project_try api (pendingProjects w ! k) (before_project api w k)) = Some e"
    then have "fst (upload_project_try api p (snd (upload_projects api (take k P) w))) = Some e"
      by (simp add: bp p_def P_def)
    from at(1) [OF this] show "find_project (p_id (pendingProjects w ! k)) (projects (snd (uploadToTodoist api w))) =
             Some ((pendingProjects w ! k)\<lparr>p_syncStatus := ERROR\<rparr>) \<and>
           logs_of Project_entity (p_id (pendingProjects w ! k))
             (new_logs w (snd (uploadToTodoist api w))) =
             [error_log Project_entity (p_id (pendingProjects w ! k)) e] \<and>
           results_of Project_entity (p_id (pendingProjects w ! k)) (pass_results api w) =
             [UploadResult Project_entity act_error (p_id (pendingProjects w ! k)) (Some e)]"
      unfolding pass_new_logs pass_results_eq rp ap [symmetric]
      by (simp add: row upload_tasks_no_project uploadToTodoist_eq p_def [symmetric] P_def [symmetric])
  }
  {
    assume "fst (upload_project_try api (pendingProjects w ! k) (before_project api w k)) = None"
    then have "fst (upload_project_try api p (snd (upload_projects api (take k P) w))) = None"
      by (simp add: bp p_def P_def)
    from at(2) [OF this] show "map_option p_syncStatus
             (find_project (p_id (pendingProjects w ! k)) (projects (snd (uploadToTodoist api w)))) =
             Some SYNCED \<and>
           (\<exists>l. logs_of Project_entity (p_id (pendingProjects w ! k))
                  (new_logs w (snd (uploadToTodoist api w))) = [l] \<and>
                l_direction l = TO_TODOIST \<and> l_errorMessage l = None) \<and>
           results_of Project_entity (p_id (pendingProjects w ! k)) (pass_results api w) =
             [UploadResult Project_entity act_uploaded (p_id (pendingProjects w ! k)) None]"
      unfolding pass_new_logs pass_results_eq rp ap [symmetric]
      by (simp add: row upload_tasks_no_project uploadToTodoist_eq p_def [symmetric] P_def [symmetric])
  }
qed

lemma pass_task:
  assumes d: "distinct (map t_id (tasks w))"
    and k: "k < length (pendingTasks (after_projects api w))"
  shows "fst (upload_task_try api (pendingTasks (after_projects api w) ! k) (before_task api w k)) = Threw e \<Longrightarrow>
           find_task (t_id (fst (pendingTasks (after_projects api w) ! k))) (tasks (snd (uploadToTodoist api w))) =
             Some ((fst (pendingTasks (after_projects api w) ! k))\<lparr>t_syncStatus := ERROR\<rparr>) \<and>
           logs_of Task_entity (t_id (fst (pendingTasks (after_projects api w) ! k)))
             (new_logs w (snd (uploadToTodoist api w))) =
             [error_log Task_entity (t_id (fst (pendingTasks (after_projects api w) ! k))) e] \<and>
           results_of Task_entity (t_id (fst (pendingTasks (after_projects api w) ! k))) (pass_results api w) =
             [UploadResult Task_entity act_error (t_id (fst (pendingTasks (after_projects api w) ! k))) (Some e)]"
    and "fst (upload_task_try api (pendingTasks (after_projects api w) ! k) (before_task api w k)) = Completed \<Longrightarrow>
           map_option t_syncStatus
             (find_task (t_id (fst (pendingTasks (after_projects api w) ! k))) (tasks (snd (uploadToTodoist api w)))) =
             Some SYNCED \<and>
           (\<exists>l. logs_of Task_entity (t_id (fst (pendingTasks (after_projects api w) ! k)))
                  (new_logs w (snd (uploadToTodoist api w))) = [l] \<and>
                l_direction l = TO_TODOIST \<and> l_errorMessage l = None) \<and>
           results_of Task_entity (t_id (fst (pendingTasks (after_projects api w) ! k))) (pass_results api w) =
             [UploadResult Task_entity act_uploaded (t_id (fst (pendingTasks (after_projects api w) ! k))) None]"
    and "\<not> eligible (pendingTasks (after_projects api w) ! k) \<Longrightarrow>
           find_task (t_id (fst (pendingTasks (after_projects api w) ! k))) (tasks (snd (uploadToTodoist api w))) =
             Some (fst (pendingTasks (after_projects api w) ! k)) \<and>
           logs_of Task_entity (t_id (fst (pendingTasks (after_projects api w) ! k)))
             (new_logs w (snd (uploadToTodoist api w))) = [] \<and>
           results_of Task_entity (t_id (fst (pendingTasks (after_projects api w) ! k))) (pass_results api w) = []"
proof -
  define w1 where "w1 = after_projects api w"
  define T where "T = pendingTasks w1"
  define j where "j = T ! k"
  have k': "k < length T" using k by (simp add: T_def w1_def)
  have split: "T = take k T @ j # drop (Suc k) T"
    using k' by (simp add: j_def id_take_nth_drop)
  have d1: "distinct (map t_id (tasks w1))" using d by (simp add: w1_def)
  have dT: "distinct (map (\<lambda>j. t_id (fst j)) (take k T @ j # drop (Suc k) T))"
    using pendingTasks_distinct [OF d1] split by (simp add: T_def)
  have "j \<in> set T" using k' by (simp add: j_def)
  then have "fst j \<in> set (tasks w1)" by (auto simp: T_def pendingTasks_def)
  then have "find_task (t_id (fst j)) (tasks w1) = Some (fst j)"
    using d1 by (simp add: find_task_distinct)
  then have row: "find_task (t_id (fst j)) (tasks w) = Some (fst j)"
    by (simp add: w1_def)
  have fin: "snd (uploadToTodoist api w) = snd (upload_tasks api (take k T @ j # drop (Suc k) T) w1)"
    using split by (simp add: uploadToTodoist_eq T_def w1_def)
  have rt: "fst (upload_tasks api (pendingTasks (after_projects api w)) (after_projects api w)) =
      fst (upload_tasks api (take k T @ j # drop (Suc k) T) w1)"
    using split by (simp add: T_def w1_def)
  have bt: "before_task api w k = snd (upload_tasks api (take k T) w1)"
    by (simp add: before_task_def T_def w1_def)
  note at = upload_tasks_at [OF dT, of api w1]
  note pre = upload_projects_no_task [where i = "t_id (fst j)" and w = w and api = api and ps = "pendingProjects w"]
  {
    assume "fst (upload_task_try api (pendingTasks (after_projects api w) ! k) (before_task api w k)) = Threw e"
    then have "fst (upload_task_try api j (snd (upload_tasks api (take k T) w1))) = Threw e"
      by (simp add: bt j_def T_def w1_def)
    from at(1) [OF this] show "find_task (t_id (fst (pendingTasks (after_projects api w) ! k))) (tasks (snd (uploadToTodoist api w))) =
             Some ((fst (pendingTasks (after_projects api w) ! k))\<lparr>t_syncStatus := ERROR\<rparr>) \<and>
           logs_of Task_entity (t_id (fst (pendingTasks (after_projects api w) ! k)))
             (new_logs w (snd (uploadToTodoist api w))) =
             [error_log Task_entity (t_id (fst (pendingTasks (after_projects api w) ! k))) e] \<and>
           results_of Task_entity (t_id (fst (pendingTasks (after_projects api w) ! k))) (pass_results api w) =
             [UploadResult Task_entity act_error (t_id (fst (pendingTasks (after_projects api w) ! k))) (Some e)]"
      unfolding pass_new_logs pass_results_eq rt
      unfolding fin w1_def [symmetric] T_def [symmetric] j_def [symmetric]
      using pre by (simp add: row after_projects_def w1_def)
  }
  {
    assume "fst (upload_task_try api (pendingTasks (after_projects api w) ! k) (before_task api w k)) = Completed"
    then have "fst (upload_task_try api j (snd (upload_tasks api (take k T) w1))) = Completed"
      by (simp add: bt j_def T_def w1_def)
    from at(2) [OF this] show "map_option t_syncStatus
             (find_task (t_id (fst (pendingTasks (after_projects api w) ! k))) (tasks (snd (uploadToTodoist api w)))) =
             Some SYNCED \<and>
           (\<exists>l. logs_of Task_entity (t_id (fst (pendingTasks (after_projects api w) ! k)))
                  (new_logs w (snd (uploadToTodoist api w))) = [l] \<and>
                l_direction l = TO_TODOIST \<and> l_errorMessage l = None) \<and>
           results_of Task_entity (t_id (fst (pendingTasks (after_projects api w) ! k))) (pass_results api w) =
             [UploadResult Task_entity act_uploaded (t_id (fst (pendingTasks (after_projects api w) ! k))) None]"
      unfolding pass_new_logs pass_results_eq rt
      unfolding fin w1_def [symmetric] T_def [symmetric] j_def [symmetric]
      using pre by (simp add: row after_projects_def w1_def)
  }
  {
    assume "\<not> eligible (pendingTasks (after_projects api w) ! k)"
    then have "\<not> eligible j"
      by (simp add: j_def T_def w1_def)
    from at(3) [OF this] show "find_task (t_id (fst (pendingTasks (after_projects api w) ! k))) (tasks (snd (uploadToTodoist api w))) =
             Some (fst (pendingTasks (after_projects api w) ! k)) \<and>
           logs_of Task_entity (t_id (fst (pendingTasks (after_projects api w) ! k)))
             (new_logs w (snd (uploadToTodoist api w))) = [] \<and>
           results_of Task_entity (t_id (fst (pendingTasks (after_projects api w) ! k))) (pass_results api w) = []"
      unfolding pass_new_logs pass_results_eq rt
      unfolding fin w1_def [symmetric] T_def [symmetric] j_def [symmetric]
      using pre by (simp add: row after_projects_def w1_def)
  }
qed

text \<open>When the \<open>try\<close> block of an iteration throws: a remote call throws, or the store
  rejects the new remote id.\<close>

lemma upload_project_try_outcome:
  "fst (upload_project_try api p w) =
     (if truthy (p_todoistId p) then
        (case updateProject api (requests w) (str_of (p_todoistId p)) (p_name p) of
           Inl e \<Rightarrow> Some e | Inr u \<Rightarrow> None)
      else
        (case addProject api (requests w) (p_name p) of
           Inl e \<Rightarrow> Some e
         | Inr newId \<Rightarrow>
             if project_todoistId_taken newId (p_id p) (projects w) then Some unique_violation
             else None))"
  by (simp add: upload_project_try_def Let_def split: sum.splits)

lemma upload_task_try_outcome:
  "fst (upload_task_try api (t, Some pr) w) =
     (if \<not> truthy (p_todoistId pr) then Skipped
      else if truthy (t_todoistId t) then
        (case updateTask api (requests w) (str_of (t_todoistId t)) (taskData_of t pr) of
           Inl e \<Rightarrow> Threw e
         | Inr u \<Rightarrow>
             (case (if t_completed t
                    then closeTask api
                           (requests w @ [UpdateTask (str_of (t_todoistId t)) (taskData_of t pr)])
                           (str_of (t_todoistId t))
                    else reopenTask api
                           (requests w @ [UpdateTask (str_of (t_todoistId t)) (taskData_of t pr)])
                           (str_of (t_todoistId t))) of
                Inl e \<Rightarrow> Threw e | Inr u' \<Rightarrow> Completed))
      else
        (case addTask api (requests w) (taskData_of t pr) of
           Inl e \<Rightarrow> Threw e
         | Inr newId \<Rightarrow>
             if task_todoistId_taken newId (t_id t) (tasks w) then Threw unique_violation
             else Completed))"
  by (simp add: upload_task_try_def Let_def split: sum.splits)

lemma pass_entities:
  "map r_entity (pass_results api w) =
     map (\<lambda>p. (Project_entity, p_id p)) (pendingProjects w) @
     map (\<lambda>j. (Task_entity, t_id (fst j))) (filter eligible (pendingTasks (after_projects api w)))"
  by (simp add: pass_results_eq upload_projects_entities upload_tasks_entities)

text \<open>A pass leaves alone every row that is not \<open>PENDING_UPLOAD\<close> when it starts.\<close>

lemma find_project_Some_id: "find_project i ps = Some q \<Longrightarrow> p_id q = i \<and> q \<in> set ps"
  by (induction ps) (auto simp: find_project_def split: if_splits)

lemma find_task_Some_id: "find_task i ts = Some q \<Longrightarrow> t_id q = i \<and> q \<in> set ts"
  by (induction ts) (auto simp: find_task_def split: if_splits)

lemma not_pending_project:
  assumes d: "distinct (map p_id (projects w))"
    and f: "find_project i (projects w) = Some q" and s: "p_syncStatus q \<noteq> PENDING_UPLOAD"
  shows "i \<notin> p_id ` set (pendingProjects w)"
proof
  assume "i \<in> p_id ` set (pendingProjects w)"
  then obtain p where p: "p \<in> set (projects w)" "p_syncStatus p = PENDING_UPLOAD" "p_id p = i"
    by (auto simp: pendingProjects_def)
  from find_project_distinct [OF d p(1)] f p(3) have "p = q" by simp
  with p(2) s show False by simp
qed

lemma not_pending_task:
  assumes d: "distinct (map t_id (tasks w))"
    and f: "find_task i (tasks w) = Some q" and s: "t_syncStatus q \<noteq> PENDING_UPLOAD"
  shows "i \<notin> (\<lambda>j. t_id (fst j)) ` set (pendingTasks w)"
proof
  assume "i \<in> (\<lambda>j. t_id (fst j)) ` set (pendingTasks w)"
  then obtain p where p: "p \<in> set (tasks w)" "t_syncStatus p = PENDING_UPLOAD" "t_id p = i"
    by (auto simp: pendingTasks_def)
  from find_task_distinct [OF d p(1)] f p(3) have "p = q" by simp
  with p(2) s show False by simp
qed

lemma pass_tasks_eq:
  "tasks (snd (uploadToTodoist api w)) =
     tasks (snd (upload_tasks api (pendingTasks (after_projects api w)) (after_projects api w)))"
  by (simp add: uploadToTodoist_eq)

lemma pass_untouched_project:
  assumes d: "distinct (map p_id (projects w))"
    and f: "find_project i (projects w) = Some q" and s: "p_syncStatus q \<noteq> PENDING_UPLOAD"
  shows "find_project i (projects (snd (uploadToTodoist api w))) = Some q"
    and "results_of Project_entity i (pass_results api w) = []"
    and "logs_of Project_entity i (new_logs w (snd (uploadToTodoist api w))) = []"
proof -
  note n = not_pending_project [OF d f s]
  show "find_project i (projects (snd (uploadToTodoist api w))) = Some q"
    using upload_projects_other [OF n, of api w] f by (simp add: after_projects_def)
  have "(Project_entity, i) \<notin> set (map r_entity (fst (upload_projects api (pendingProjects w) w)))"
    unfolding upload_projects_entities using n by auto
  then have "results_of Project_entity i (fst (upload_projects api (pendingProjects w) w)) = []"
    by (rule results_of_none)
  then show "results_of Project_entity i (pass_results api w) = []"
    by (simp add: pass_results_eq upload_tasks_no_project)
  obtain ls where ls: "syncLogs (after_projects api w) = syncLogs w @ ls"
      "\<forall>l\<in>set ls. l_entityType l = Project_entity \<and> l_entityId l \<in> p_id ` set (pendingProjects w)"
    unfolding after_projects_def using upload_projects_logs by blast
  have "logs_of Project_entity i ls = []" using ls(2) n by (rule logs_of_none)
  then show "logs_of Project_entity i (new_logs w (snd (uploadToTodoist api w))) = []"
    unfolding pass_new_logs new_logs_ext [OF ls(1)]
    by (simp add: uploadToTodoist_eq upload_tasks_no_project)
qed

lemma pass_untouched_task:
  assumes d: "distinct (map t_id (tasks w))"
    and f: "find_task i (tasks w) = Some q" and s: "t_syncStatus q \<noteq> PENDING_UPLOAD"
  shows "find_task i (tasks (snd (uploadToTodoist api w))) = Some q"
    and "results_of Task_entity i (pass_results api w) = []"
    and "logs_of Task_entity i (new_logs w (snd (uploadToTodoist api w))) = []"
proof -
  define w1 where "w1 = after_projects api w"
  have d1: "distinct (map t_id (tasks w1))" and f1: "find_task i (tasks w1) = Some q"
    using d f by (simp_all add: w1_def)
  note n = not_pending_task [OF d1 f1 s]
  show "find_task i (tasks (snd (uploadToTodoist api w))) = Some q"
    using upload_tasks_other [OF n, of api w1] f1 by (simp add: pass_tasks_eq w1_def)
  have "(Task_entity, i) \<notin> set (map r_entity (fst (upload_tasks api (pendingTasks w1) w1)))"
    unfolding upload_tasks_entities using n by auto
  then have "results_of Task_entity i (fst (upload_tasks api (pendingTasks w1) w1)) = []"
    by (rule results_of_none)
  then show "results_of Task_entity i (pass_results api w) = []"
    by (simp add: pass_results_eq upload_projects_no_task w1_def)
  obtain ls where ls: "syncLogs (snd (upload_tasks api (pendingTasks w1) w1)) = syncLogs w1 @ ls"
      "\<forall>l\<in>set ls. l_entityType l = Task_entity \<and> l_entityId l \<in> (\<lambda>j. t_id (fst j)) ` set (pendingTasks w1)"
    using upload_tasks_logs by blast
  have "logs_of Task_entity i ls = []" using ls(2) n by (rule logs_of_none)
  moreover have "new_logs w1 (snd (uploadToTodoist api w)) = ls"
    using ls(1) by (simp add: uploadToTodoist_eq w1_def new_logs_ext)
  ultimately show "logs_of Task_entity i (new_logs w (snd (uploadToTodoist api w))) = []"
    unfolding pass_new_logs
    by (simp add: w1_def after_projects_def upload_projects_no_task)
qed

lemma pass_ids [simp]:
  "map p_id (projects (snd (uploadToTodoist api w))) = map p_id (projects w)"
  "map t_id (tasks (snd (uploadToTodoist api w))) = map t_id (tasks w)"
  by (simp_all add: uploadToTodoist_eq after_projects_def)

lemma after_projects_ids [simp]:
  "map p_id (projects (after_projects api w)) = map p_id (projects w)"
  by (simp add: after_projects_def)

lemma new_requests_ext: "requests w' = requests w @ qs \<Longrightarrow> new_requests w w' = qs"
  by (simp add: new_requests_def)

lemma upload_project_requests:
  "\<exists>q. requests (snd (upload_project api p w)) = requests w @ [q] \<and> project_request q"
  by (auto simp: upload_project_cases upload_project_try_def Let_def split: option.splits sum.splits)

lemma upload_projects_requests:
  "\<exists>qs. requests (snd (upload_projects api ps w)) = requests w @ qs \<and>
        list_all project_request qs \<and> length qs = length ps"
proof (induction ps arbitrary: w)
  case Nil
  show ?case by simp
next
  case (Cons p ps)
  obtain q where q: "requests (snd (upload_project api p w)) = requests w @ [q]" "project_request q"
    using upload_project_requests by blast
  obtain qs where qs: "requests (snd (upload_projects api ps (snd (upload_project api p w)))) =
        requests (snd (upload_project api p w)) @ qs" "list_all project_request qs"
      "length qs = length ps"
    using Cons.IH by blast
  show ?case
    using q qs by (intro exI [of _ "q # qs"]) (simp add: case_prod_unfold)
qed

lemma upload_task_requests:
  "\<exists>qs. requests (snd (upload_task api j w)) = requests w @ qs \<and> list_all task_request qs"
  by (cases j)
    (auto simp: upload_task_cases upload_task_try_def Let_def
       split: attempt.splits option.splits sum.splits if_splits)

lemma upload_tasks_requests:
  "\<exists>qs. requests (snd (upload_tasks api js w)) = requests w @ qs \<and> list_all task_request qs"
proof (induction js arbitrary: w)
  case Nil
  show ?case by simp
next
  case (Cons j js)
  obtain q where q: "requests (snd (upload_task api j w)) = requests w @ q" "list_all task_request q"
    using upload_task_requests by blast
  obtain qs where qs: "requests (snd (upload_tasks api js (snd (upload_task api j w)))) =
        requests (snd (upload_task api j w)) @ qs" "list_all task_request qs"
    using Cons.IH by blast
  show ?case
    using q qs by (intro exI [of _ "q @ qs"]) (simp add: case_prod_unfold)
qed

lemma pass_requests:
  "new_requests w (snd (uploadToTodoist api w)) =
     new_requests w (after_projects api w) @
     new_requests (after_projects api w) (snd (uploadToTodoist api w)) \<and>
   list_all project_request (new_requests w (after_projects api w)) \<and>
   length (new_requests w (after_projects api w)) = length (pendingProjects w) \<and>
   list_all task_request (new_requests (after_projects api w) (snd (uploadToTodoist api w)))"
proof -
  obtain a where a: "requests (after_projects api w) = requests w @ a"
      "list_all project_request a" "length a = length (pendingProjects w)"
    unfolding after_projects_def using upload_projects_requests by blast
  obtain b where b: "requests (snd (uploadToTodoist api w)) = requests (after_projects api w) @ b"
      "list_all task_request b"
    unfolding uploadToTodoist_eq using upload_tasks_requests by fastforce
  have "new_requests w (snd (uploadToTodoist api w)) = a @ b"
    using a(1) b(1) by (simp add: new_requests_def)
  then show ?thesis
    using a b by (simp add: new_requests_ext)
qed

lemma pass_result_kinds:
  "map r_entity (fst (upload_projects api (pendingProjects w) w)) =
     map (\<lambda>p. (Project_entity, p_id p)) (pendingProjects w) \<and>
   list_all (\<lambda>r. fst (r_entity r) = Task_entity)
     (fst (upload_tasks api (pendingTasks (after_projects api w)) (after_projects api w)))"
proof -
  have "list_all (\<lambda>e. fst e = Task_entity)
     (map r_entity (fst (upload_tasks api (pendingTasks (after_projects api w)) (after_projects api w))))"
    unfolding upload_tasks_entities by (simp add: list_all_iff)
  then show ?thesis
    by (simp add: upload_projects_entities list_all_iff)
qed

text \<open>Every result record of a push has the action \<open>uploaded\<close> or \<open>error\<close>.\<close>

lemma upload_project_action:
  "r_action (fst (upload_project api p w)) = act_uploaded \<or>
   r_action (fst (upload_project api p w)) = act_error"
  by (simp add: upload_project_cases split: option.splits)

lemma upload_projects_actions:
  "\<forall>r\<in>set (fst (upload_projects api ps w)). r_action r = act_uploaded \<or> r_action r = act_error"
  by (induction ps arbitrary: w) (simp_all add: case_prod_unfold upload_project_action)

lemma upload_task_actions:
  "\<forall>r\<in>set (fst (upload_task api j w)). r_action r = act_uploaded \<or> r_action r = act_error"
  by (simp add: upload_task_cases split: attempt.splits)

lemma upload_tasks_actions:
  "\<forall>r\<in>set (fst (upload_tasks api js w)). r_action r = act_uploaded \<or> r_action r = act_error"
  by (induction js arbitrary: w) (auto simp: case_prod_unfold dest: upload_task_actions [rule_format])

lemma pass_actions:
  "\<forall>r\<in>set (pass_results api w). r_action r = act_uploaded \<or> r_action r = act_error"
  using upload_projects_actions [of api "pendingProjects w" w]
    upload_tasks_actions [of api "pendingTasks (after_projects api w)" "after_projects api w"]
  by (simp add: pass_results_eq ball_Un)

lemma count_action_none:
  "\<forall>r\<in>set rs. r_action r \<noteq> a \<Longrightarrow> count_action a rs = 0"
  by (simp add: count_action_def filter_empty_conv)

lemma count_two_actions:
  "\<forall>r\<in>set rs. r_action r = a \<or> r_action r = b \<Longrightarrow> a \<noteq> b \<Longrightarrow>
   count_action a rs + count_action b rs = length rs"
  by (induction rs) (auto simp: count_action_def)

lemma run_direction_push:
  "run_direction TO_TODOIST entityType api w = (Inr (pass_results api w), snd (uploadToTodoist api w))"
  by (simp add: run_direction_def pass_results_def uploadToTodoist_eq)

text \<open>The colour table and the inherited names.\<close>

lemma colorMap_own_keys: "\<forall>c\<in>set objectPrototype. map_of colorMap c = None"
  by code_simp

lemma mapTodoistColor_inherited:
  "c \<in> set objectPrototype \<Longrightarrow> mapTodoistColor c = InheritedMember c"
  using colorMap_own_keys by (simp add: mapTodoistColor_def)

lemma mapTodoistColor_string:
  "c \<notin> set objectPrototype \<Longrightarrow> \<exists>l. mapTodoistColor c = LocalColor l"
  by (simp add: mapTodoistColor_def split: option.splits)

text \<open>One listed project.\<close>

lemma pull_project_exists:
  assumes "find_project_by_todoistId (rp_id x) (projects w) = Some ex"
  shows "pull_project x w =
     (Inr (ProjectResult act_updated (ex\<lparr>p_name := rp_name x, p_syncStatus := SYNCED\<rparr>)),
      logSync Project_entity (p_id ex) UPDATE FROM_TODOIST (Some (rp_id x)) None
        (update_project (p_id ex) (\<lambda>p. p\<lparr>p_name := rp_name x, p_syncStatus := SYNCED\<rparr>) w))"
  using assms by (simp add: pull_project_def Let_def)

lemma pull_project_new:
  assumes "find_project_by_todoistId (rp_id x) (projects w) = None"
    and "mapTodoistColor (rp_color x) = LocalColor c"
  shows "pull_project x w =
     (Inr (ProjectResult act_created
        \<lparr>p_id = fresh_id (map p_id (projects w)), p_name = rp_name x,
         p_color = c, p_todoistId = Some (rp_id x), p_syncStatus = SYNCED\<rparr>),
      logSync Project_entity (fresh_id (map p_id (projects w))) CREATE FROM_TODOIST
        (Some (rp_id x)) None
        (w\<lparr>projects := projects w @
           [\<lparr>p_id = fresh_id (map p_id (projects w)), p_name = rp_name x,
             p_color = c, p_todoistId = Some (rp_id x), p_syncStatus = SYNCED\<rparr>]\<rparr>))"
  using assms by (simp add: pull_project_def Let_def)

lemma pull_project_throws:
  assumes "find_project_by_todoistId (rp_id x) (projects w) = None"
    and "rp_color x \<in> set objectPrototype"
  shows "pull_project x w = (Inl invalid_color, w)"
  using assms by (simp add: pull_project_def mapTodoistColor_inherited)

lemma pull_project_returns:
  assumes "rp_color x \<notin> set objectPrototype"
  shows "\<exists>r. fst (pull_project x w) = Inr r"
  using mapTodoistColor_string [OF assms]
  by (auto simp: pull_project_def Let_def split: option.splits)

lemma pull_project_keeps:
  "take (length (projects w)) (map p_id (projects (snd (pull_project x w)))) = map p_id (projects w)"
  by (simp add: pull_project_def Let_def update_project_def comp_def if_distrib
      split: option.splits color_value.splits cong: if_cong)

lemma pull_project_grows:
  "length (projects w) \<le> length (projects (snd (pull_project x w)))"
  by (simp add: pull_project_def Let_def update_project_def
      split: option.splits color_value.splits)

lemma pull_project_tasks [simp]: "tasks (snd (pull_project x w)) = tasks w"
  by (simp add: pull_project_def Let_def update_project_def logSync_def
      split: option.splits color_value.splits)

text \<open>The loop over the listing.\<close>

lemma pull_projects_Cons:
  "pull_projects (x # xs) w =
     (case fst (pull_project x w) of
        Inl e \<Rightarrow> (Inl e, snd (pull_project x w))
      | Inr r \<Rightarrow>
          (case fst (pull_projects xs (snd (pull_project x w))) of
             Inl e \<Rightarrow> (Inl e, snd (pull_projects xs (snd (pull_project x w))))
           | Inr rs \<Rightarrow> (Inr (r # rs), snd (pull_projects xs (snd (pull_project x w))))))"
  by (simp add: case_prod_unfold split: sum.splits)

lemma pull_projects_append:
  "pull_projects (xs @ ys) w =
     (case fst (pull_projects xs w) of
        Inl e \<Rightarrow> (Inl e, snd (pull_projects xs w))
      | Inr rs \<Rightarrow>
          (case fst (pull_projects ys (snd (pull_projects xs w))) of
             Inl e \<Rightarrow> (Inl e, snd (pull_projects ys (snd (pull_projects xs w))))
           | Inr rs' \<Rightarrow> (Inr (rs @ rs'), snd (pull_projects ys (snd (pull_projects xs w))))))"
proof (induction xs arbitrary: w)
  case Nil
  show ?case by (cases "pull_projects ys w") (simp split: sum.splits)
next
  case (Cons x xs)
  show ?case
    unfolding append_Cons pull_projects_Cons [of x] Cons.IH
    by (simp split: sum.splits)
qed

lemma pull_projects_returns:
  assumes "\<forall>x\<in>set xs. rp_color x \<notin> set objectPrototype"
  shows "\<exists>rs. fst (pull_projects xs w) = Inr rs \<and> length rs = length xs"
  using assms
proof (induction xs arbitrary: w)
  case Nil
  show ?case by simp
next
  case (Cons x xs)
  obtain r where r: "fst (pull_project x w) = Inr r"
    using pull_project_returns [of x w] Cons.prems by auto
  obtain rs where rs: "fst (pull_projects xs (snd (pull_project x w))) = Inr rs"
      "length rs = length xs"
    using Cons.IH [of "snd (pull_project x w)"] Cons.prems by auto
  show ?case
    unfolding pull_projects_Cons by (simp add: r rs)
qed

lemma pull_projects_length:
  "fst (pull_projects xs w) = Inr rs \<Longrightarrow> length rs = length xs"
proof (induction xs arbitrary: w rs)
  case Nil
  then show ?case by simp
next
  case (Cons x xs)
  then show ?case
    unfolding pull_projects_Cons by (auto split: sum.splits)
qed

text \<open>
  The \<open>k\<close>-th iteration of a loop whose colours are all strings: it starts in the store
  the first \<open>k\<close> iterations left, returns the \<open>k\<close>-th result and leaves the store in
  which the next one starts.
\<close>

lemma pull_projects_at:
  assumes c: "\<forall>x\<in>set xs. rp_color x \<notin> set objectPrototype" and k: "k < length xs"
    and rs: "fst (pull_projects xs w) = Inr rs"
  shows "fst (pull_project (xs ! k) (snd (pull_projects (take k xs) w))) = Inr (rs ! k)"
    and "snd (pull_projects (take (Suc k) xs) w) =
           snd (pull_project (xs ! k) (snd (pull_projects (take k xs) w)))"
proof -
  define wk where "wk = snd (pull_projects (take k xs) w)"
  have split: "xs = take k xs @ xs ! k # drop (Suc k) xs"
    using k by (simp add: id_take_nth_drop)
  have ct: "\<forall>x\<in>set (take k xs). rp_color x \<notin> set objectPrototype"
    using c by (auto dest: in_set_takeD)
  have cd: "\<forall>x\<in>set (drop (Suc k) xs). rp_color x \<notin> set objectPrototype"
    using c by (auto dest: in_set_dropD)
  have ck: "rp_color (xs ! k) \<notin> set objectPrototype"
    using c k by simp
  obtain ra where ra: "fst (pull_projects (take k xs) w) = Inr ra" "length ra = length (take k xs)"
    using pull_projects_returns [OF ct] by blast
  obtain r where r: "fst (pull_project (xs ! k) wk) = Inr r"
    using pull_project_returns [OF ck] by blast
  obtain rb where rb: "fst (pull_projects (drop (Suc k) xs) (snd (pull_project (xs ! k) wk))) = Inr rb"
    using pull_projects_returns [OF cd] by blast
  have "fst (pull_projects (take k xs @ xs ! k # drop (Suc k) xs) w) = Inr (ra @ r # rb)"
    unfolding pull_projects_append pull_projects_Cons
    by (simp add: ra r rb wk_def [symmetric])
  then have "rs = ra @ r # rb"
    using rs split by simp
  then have "rs ! k = r"
    using ra(2) k by (simp add: nth_append)
  then show "fst (pull_project (xs ! k) (snd (pull_projects (take k xs) w))) = Inr (rs ! k)"
    using r by (simp add: wk_def)
  have "snd (pull_projects (take k xs @ [xs ! k]) w) = snd (pull_project (xs ! k) wk)"
    by (simp add: pull_projects_append ra wk_def [symmetric] r case_prod_unfold)
  then show "snd (pull_projects (take (Suc k) xs) w) =
           snd (pull_project (xs ! k) (snd (pull_projects (take k xs) w)))"
    using k by (simp add: take_Suc_conv_app_nth wk_def)
qed

text \<open>
  A listed project with an inherited colour name and an unknown remote id ends the loop:
  the value thrown by the store leaves it, and the store is as the projects before left
  it.
\<close>

lemma pull_projects_throws_at:
  assumes ct: "\<forall>x\<in>set (take k xs). rp_color x \<notin> set objectPrototype" and k: "k < length xs"
    and n: "find_project_by_todoistId (rp_id (xs ! k)) (projects (snd (pull_projects (take k xs) w))) = None"
    and i: "rp_color (xs ! k) \<in> set objectPrototype"
  shows "pull_projects xs w = (Inl invalid_color, snd (pull_projects (take k xs) w))"
proof -
  have split: "xs = take k xs @ xs ! k # drop (Suc k) xs"
    using k by (simp add: id_take_nth_drop)
  obtain ra where ra: "fst (pull_projects (take k xs) w) = Inr ra"
    using pull_projects_returns [OF ct] by blast
  have "pull_projects (take k xs @ xs ! k # drop (Suc k) xs) w =
      (Inl invalid_color, snd (pull_projects (take k xs) w))"
    unfolding pull_projects_append pull_projects_Cons
    by (simp add: ra pull_project_throws [OF n i])
  then show ?thesis
    using split by simp
qed

lemma pull_projects_keeps:
  "take (length (projects w)) (map p_id (projects (snd (pull_projects xs w)))) = map p_id (projects w)"
proof (induction xs arbitrary: w)
  case Nil
  show ?case by simp
next
  case (Cons x xs)
  define w1 where "w1 = snd (pull_project x w)"
  have a: "take (length (projects w1)) (map p_id (projects (snd (pull_projects xs w1)))) =
      map p_id (projects w1)" by (rule Cons.IH)
  have b: "take (length (projects w)) (map p_id (projects w1)) = map p_id (projects w)"
    unfolding w1_def by (rule pull_project_keeps)
  have c: "length (projects w) \<le> length (projects w1)"
    unfolding w1_def by (rule pull_project_grows)
  have "take (length (projects w)) (map p_id (projects (snd (pull_projects xs w1)))) =
      take (length (projects w)) (take (length (projects w1)) (map p_id (projects (snd (pull_projects xs w1)))))"
    using c by (simp add: min_def)
  also have "\<dots> = map p_id (projects w)" unfolding a by (rule b)
  finally show ?case
    unfolding pull_projects_Cons using b by (simp add: w1_def split: sum.splits)
qed

lemma pull_projects_tasks [simp]: "tasks (snd (pull_projects xs w)) = tasks w"
proof (induction xs arbitrary: w)
  case Nil
  show ?case by simp
next
  case (Cons x xs)
  show ?case
    unfolding pull_projects_Cons using Cons.IH [of "snd (pull_project x w)"]
    by (simp split: sum.splits)
qed

lemma syncProjects_listing:
  assumes "getProjects api (requests w) = Inr (ArrayResponse xs) \<or>
           getProjects api (requests w) = Inr (ResultsResponse xs)"
  shows "syncProjectsFromTodoist api w = pull_projects xs (sent GetProjects w)"
  using assms by (auto simp: syncProjectsFromTodoist_def Let_def)

text \<open>Pulling tasks.\<close>

lemma pull_tasks_Cons:
  "pull_tasks (x # xs) w =
     (fst (pull_task x w) @ fst (pull_tasks xs (snd (pull_task x w))),
      snd (pull_tasks xs (snd (pull_task x w))))"
  by (simp add: case_prod_unfold)

lemma pull_task_projects [simp]: "projects (snd (pull_task x w)) = projects w"
  by (simp add: pull_task_def Let_def split: option.splits)

lemma pull_task_unresolved:
  "find_project_by_todoistId (rt_projectId x) (projects w) = None \<Longrightarrow> pull_task x w = ([], w)"
  by (simp add: pull_task_def)

lemma pull_task_resolved_one:
  "resolved w x \<Longrightarrow> length (fst (pull_task x w)) = 1"
  by (auto simp: resolved_def pull_task_def Let_def split: option.splits)

lemma pull_tasks_filter:
  "pull_tasks xs w = pull_tasks (filter (resolved w) xs) w"
proof (induction xs arbitrary: w)
  case Nil
  show ?case by simp
next
  case (Cons x xs)
  show ?case
  proof (cases "resolved w x")
    case True
    have r: "resolved (snd (pull_task x w)) = resolved w"
      by (rule ext) (simp add: resolved_def)
    show ?thesis
      using True Cons.IH [of "snd (pull_task x w)"]
      by (simp add: case_prod_unfold r)
  next
    case False
    then have "pull_task x w = ([], w)"
      by (simp add: resolved_def pull_task_unresolved)
    then show ?thesis
      using False Cons.IH [of w] by simp
  qed
qed

lemma pull_tasks_resolved_length:
  "length (fst (pull_tasks xs w)) = length (filter (resolved w) xs)"
proof (induction xs arbitrary: w)
  case Nil
  show ?case by simp
next
  case (Cons x xs)
  have r: "resolved (snd (pull_task x w)) = resolved w"
    by (rule ext) (simp add: resolved_def)
  show ?case
  proof (cases "resolved w x")
    case True
    then show ?thesis
      using Cons.IH [of "snd (pull_task x w)"]
      by (simp add: case_prod_unfold r pull_task_resolved_one)
  next
    case False
    then have "pull_task x w = ([], w)"
      by (simp add: resolved_def pull_task_unresolved)
    then show ?thesis
      using False Cons.IH [of w] by simp
  qed
qed

lemma syncTasks_listing:
  assumes "getTasks api (requests w) = Inr (ArrayResponse xs) \<or>
           getTasks api (requests w) = Inr (ResultsResponse xs)"
  shows "syncTasksFromTodoist api w =
           (Inr (fst (pull_tasks xs (sent GetTasks w))), snd (pull_tasks xs (sent GetTasks w)))"
  using assms by (auto simp: syncTasksFromTodoist_def Let_def case_prod_unfold)

lemma pull_task_logs:
  "\<exists>ls. syncLogs (snd (pull_task x w)) = syncLogs w @ ls \<and>
        map l_todoistId ls = (if resolved w x then [Some (rt_id x)] else []) \<and>
        list_all (\<lambda>l. l_entityType l = Task_entity \<and> l_direction l = FROM_TODOIST) ls"
  by (auto simp: pull_task_def resolved_def Let_def syncLogs_logSync split: option.splits)

lemma pull_tasks_logs:
  "\<exists>ls. syncLogs (snd (pull_tasks xs w)) = syncLogs w @ ls \<and>
        map l_todoistId ls = map (\<lambda>x. Some (rt_id x)) (filter (resolved w) xs) \<and>
        list_all (\<lambda>l. l_entityType l = Task_entity \<and> l_direction l = FROM_TODOIST) ls"
proof (induction xs arbitrary: w)
  case Nil
  show ?case by simp
next
  case (Cons x xs)
  have r: "resolved (snd (pull_task x w)) = resolved w"
    by (rule ext) (simp add: resolved_def)
  obtain la where la: "syncLogs (snd (pull_task x w)) = syncLogs w @ la"
      "map l_todoistId la = (if resolved w x then [Some (rt_id x)] else [])"
      "list_all (\<lambda>l. l_entityType l = Task_entity \<and> l_direction l = FROM_TODOIST) la"
    using pull_task_logs by blast
  obtain lb where lb: "syncLogs (snd (pull_tasks xs (snd (pull_task x w)))) =
        syncLogs (snd (pull_task x w)) @ lb"
      "map l_todoistId lb = map (\<lambda>x. Some (rt_id x)) (filter (resolved w) xs)"
      "list_all (\<lambda>l. l_entityType l = Task_entity \<and> l_direction l = FROM_TODOIST) lb"
    using Cons.IH [of "snd (pull_task x w)"] unfolding r by blast
  show ?case
    using la lb by (intro exI [of _ "la @ lb"]) (simp add: case_prod_unfold)
qed

text \<open>The pull operations send one listing request each.\<close>

lemma pull_project_requests [simp]: "requests (snd (pull_project x w)) = requests w"
  by (simp add: pull_project_def Let_def split: option.splits color_value.splits)

lemma pull_projects_requests [simp]: "requests (snd (pull_projects xs w)) = requests w"
proof (induction xs arbitrary: w)
  case Nil
  show ?case by simp
next
  case (Cons x xs)
  show ?case
    unfolding pull_projects_Cons using Cons.IH [of "snd (pull_project x w)"]
    by (simp split: sum.splits)
qed

lemma pull_task_requests [simp]: "requests (snd (pull_task x w)) = requests w"
  by (simp add: pull_task_def Let_def split: option.splits)

lemma pull_tasks_requests [simp]: "requests (snd (pull_tasks xs w)) = requests w"
  by (induction xs arbitrary: w) (simp_all add: case_prod_unfold)

lemma syncProjects_requests [simp]:
  "requests (snd (syncProjectsFromTodoist api w)) = requests w @ [GetProjects]"
  by (simp add: syncProjectsFromTodoist_def Let_def case_prod_unfold
      split: sum.splits api_response.splits)

lemma syncTasks_requests [simp]:
  "requests (snd (syncTasksFromTodoist api w)) = requests w @ [GetTasks]"
  by (simp add: syncTasksFromTodoist_def Let_def case_prod_unfold
      split: sum.splits api_response.splits)

lemma find_by_todoistId_None:
  "find_project_by_todoistId r ps = None \<longleftrightarrow> Some r \<notin> p_todoistId ` set ps"
  by (induction ps) (auto simp: find_project_by_todoistId_def)

lemma find_by_todoistId_Some:
  "find_project_by_todoistId r ps = Some ex \<Longrightarrow> ex \<in> set ps \<and> p_todoistId ex = Some r"
  by (induction ps) (auto simp: find_project_by_todoistId_def split: if_splits)

text \<open>A pull leaves a synced project as it is, but for its name.\<close>

lemma find_project_append:
  "find_project i ps = Some q \<Longrightarrow> find_project i (ps @ qs) = Some q"
  by (induction ps) (auto simp: find_project_def)

lemma synced_row_update:
  "p_syncStatus q = SYNCED \<Longrightarrow> q\<lparr>p_name := n, p_syncStatus := SYNCED\<rparr> = q\<lparr>p_name := n\<rparr>"
  by (cases q) simp

lemma pull_project_row:
  assumes "find_project i (projects w) = Some (q\<lparr>p_name := m\<rparr>)" "p_syncStatus q = SYNCED"
  shows "\<exists>n. find_project i (projects (snd (pull_project x w))) = Some (q\<lparr>p_name := n\<rparr>)"
proof (cases "find_project_by_todoistId (rp_id x) (projects w)")
  case None
  then show ?thesis
    using assms(1)
    by (auto simp: pull_project_def Let_def split: color_value.splits intro: find_project_append)
next
  case (Some ex)
  have "(q\<lparr>p_name := m\<rparr>)\<lparr>p_name := rp_name x, p_syncStatus := SYNCED\<rparr> = q\<lparr>p_name := rp_name x\<rparr>"
    using assms(2) by (cases q) simp
  then show ?thesis
    using assms(1) Some by (auto simp: pull_project_exists find_project_update)
qed

lemma pull_projects_row:
  assumes "find_project i (projects w) = Some (q\<lparr>p_name := m\<rparr>)" "p_syncStatus q = SYNCED"
  shows "\<exists>n. find_project i (projects (snd (pull_projects xs w))) = Some (q\<lparr>p_name := n\<rparr>)"
  using assms(1)
proof (induction xs arbitrary: w m)
  case Nil
  then show ?case by auto
next
  case (Cons x xs)
  from pull_project_row [OF Cons.prems assms(2)] obtain n where
    n: "find_project i (projects (snd (pull_project x w))) = Some (q\<lparr>p_name := n\<rparr>)" by blast
  from Cons.IH [OF n] obtain n' where
    "find_project i (projects (snd (pull_projects xs (snd (pull_project x w))))) =
       Some (q\<lparr>p_name := n'\<rparr>)" by blast
  then show ?case
    unfolding pull_projects_Cons using n by (auto split: sum.splits)
qed

lemma syncProjects_row:
  assumes "find_project i (projects w) = Some (q\<lparr>p_name := m\<rparr>)" "p_syncStatus q = SYNCED"
  shows "\<exists>n. find_project i (projects (snd (syncProjectsFromTodoist api w))) = Some (q\<lparr>p_name := n\<rparr>)"
proof -
  have s: "find_project i (projects (sent GetProjects w)) = Some (q\<lparr>p_name := m\<rparr>)"
    using assms(1) by simp
  note r = pull_projects_row [OF s assms(2)]
  show ?thesis
    using r assms(1)
    by (auto simp: syncProjectsFromTodoist_def Let_def
          split: sum.splits api_response.splits)
qed

text \<open>A pull leaves alone every project whose remote id is not listed.\<close>

lemma fresh_id_fresh: "fresh_id used \<notin> set used"
proof
  assume a: "fresh_id used \<in> set used"
  have "s \<in> set used \<Longrightarrow> length s \<le> foldr (\<lambda>s n. max (length s) n) used 0" for s
    by (induction used) auto
  from this [OF a] show False by (simp add: fresh_id_def)
qed

lemma pull_project_distinct:
  assumes "distinct (map p_id (projects w))"
  shows "distinct (map p_id (projects (snd (pull_project x w))))"
proof -
  have "map p_id (projects (update_project j (\<lambda>p. p\<lparr>p_name := n, p_syncStatus := SYNCED\<rparr>) w)) =
      map p_id (projects w)" for j n
    by (simp add: update_project_def comp_def if_distrib cong: if_cong)
  then show ?thesis
    using assms fresh_id_fresh [of "map p_id (projects w)"]
    by (auto simp: pull_project_def Let_def split: option.splits color_value.splits)
qed

lemma pull_project_other:
  assumes d: "distinct (map p_id (projects w))" and q: "find_project i (projects w) = Some q"
    and r: "p_todoistId q \<noteq> Some (rp_id x)"
  shows "find_project i (projects (snd (pull_project x w))) = Some q"
proof (cases "find_project_by_todoistId (rp_id x) (projects w)")
  case None
  then show ?thesis
    using q
    by (auto simp: pull_project_def Let_def split: color_value.splits intro: find_project_append)
next
  case (Some ex)
  have ex: "ex \<in> set (projects w)" "p_todoistId ex = Some (rp_id x)"
    using find_by_todoistId_Some [OF Some] by simp_all
  have qi: "p_id q = i" "q \<in> set (projects w)"
    using find_project_Some_id [OF q] by simp_all
  have "ex \<noteq> q" using ex(2) r by auto
  then have "p_id ex \<noteq> i"
    using d ex(1) qi by (auto simp: distinct_map inj_on_def)
  then show ?thesis
    using q by (simp add: pull_project_exists [OF Some] find_project_update)
qed

lemma pull_projects_other:
  assumes "distinct (map p_id (projects w))" "find_project i (projects w) = Some q"
    and "p_todoistId q \<notin> (\<lambda>x. Some (rp_id x)) ` set xs"
  shows "find_project i (projects (snd (pull_projects xs w))) = Some q"
  using assms
proof (induction xs arbitrary: w)
  case Nil
  then show ?case by simp
next
  case (Cons x xs)
  have a: "find_project i (projects (snd (pull_project x w))) = Some q"
    using Cons.prems by (intro pull_project_other) auto
  have b: "find_project i (projects (snd (pull_projects xs (snd (pull_project x w))))) = Some q"
    using Cons.prems a by (intro Cons.IH pull_project_distinct) auto
  show ?case
    unfolding pull_projects_Cons using a b by (simp split: sum.splits)
qed

lemma syncProjects_other:
  assumes "distinct (map p_id (projects w))" "find_project i (projects w) = Some q"
    and "\<And>xs. getProjects api (requests w) = Inr (ArrayResponse xs) \<or>
               getProjects api (requests w) = Inr (ResultsResponse xs) \<Longrightarrow>
           p_todoistId q \<notin> (\<lambda>x. Some (rp_id x)) ` set xs"
  shows "find_project i (projects (snd (syncProjectsFromTodoist api w))) = Some q"
proof -
  have "find_project i (projects (snd (pull_projects xs (sent GetProjects w)))) = Some q"
    if "getProjects api (requests w) = Inr (ArrayResponse xs) \<or>
        getProjects api (requests w) = Inr (ResultsResponse xs)" for xs
    using assms(1,2) assms(3) [OF that] by (intro pull_projects_other) simp_all
  then show ?thesis
    using assms(2)
    by (auto simp: syncProjectsFromTodoist_def Let_def split: sum.splits api_response.splits)
qed

lemma pull_tasks_projects [simp]: "projects (snd (pull_tasks xs w)) = projects w"
  by (induction xs arbitrary: w) (simp_all add: case_prod_unfold)

lemma syncTasks_projects [simp]: "projects (snd (syncTasksFromTodoist api w)) = projects w"
  by (simp add: syncTasksFromTodoist_def Let_def case_prod_unfold
      split: sum.splits api_response.splits)

text \<open>The pull sequence of the route, from the world the push left.\<close>

lemma run_pull_row:
  assumes "find_project i (projects w) = Some q" "p_syncStatus q = SYNCED"
  shows "\<exists>n. find_project i (projects (snd (run_direction FROM_TODOIST et api w))) =
              Some (q\<lparr>p_name := n\<rparr>)"
proof -
  have a: "find_project i (projects w) = Some (q\<lparr>p_name := p_name q\<rparr>)"
    using assms(1) by simp
  from syncProjects_row [OF a assms(2)] obtain n where
    n: "find_project i (projects (snd (syncProjectsFromTodoist api w))) = Some (q\<lparr>p_name := n\<rparr>)"
    by blast
  have e: "\<exists>n. q = q\<lparr>p_name := n\<rparr>"
    by (rule exI [of _ "p_name q"]) simp
  show ?thesis
    using assms(1) n e
    by (cases et) (auto simp: run_direction_def case_prod_unfold split: sum.splits)
qed

lemma run_pull_other:
  assumes "distinct (map p_id (projects w))" "find_project i (projects w) = Some q"
    and "\<And>xs. getProjects api (requests w) = Inr (ArrayResponse xs) \<or>
               getProjects api (requests w) = Inr (ResultsResponse xs) \<Longrightarrow>
           p_todoistId q \<notin> (\<lambda>x. Some (rp_id x)) ` set xs"
  shows "find_project i (projects (snd (run_direction FROM_TODOIST et api w))) = Some q"
  using assms(2) syncProjects_other [OF assms]
  by (cases et) (auto simp: run_direction_def case_prod_unfold split: sum.splits)

lemma run_bidirectional:
  "run_direction BIDIRECTIONAL et api w =
     (case run_direction FROM_TODOIST et api (snd (uploadToTodoist api w)) of
        (Inl e, w2) \<Rightarrow> (Inl e, w2)
      | (Inr rs, w2) \<Rightarrow> (Inr (pass_results api w @ rs), w2))"
  by (simp add: run_direction_def uploadToTodoist_eq pass_results_eq case_prod_unfold
      split: sum.splits)

lemma run_bidirectional_world:
  "snd (run_direction BIDIRECTIONAL et api w) =
     snd (run_direction FROM_TODOIST et api (snd (uploadToTodoist api w)))"
  by (simp add: run_bidirectional case_prod_unfold split: sum.splits)

lemma run_pull_requests:
  "requests (snd (run_direction FROM_TODOIST et api w)) =
     requests w @
     (if et = tasks_kind then [] else [GetProjects]) @
     (if et = projects_kind \<or> (et = all_kind \<and> isl (fst (syncProjectsFromTodoist api w)))
      then [] else [GetTasks])"
  by (cases et) (auto simp: run_direction_def case_prod_unfold split: sum.splits)

text \<open>The row of a project that the pass creates remotely.\<close>

lemma upload_project_creates:
  assumes "\<not> truthy (p_todoistId p)" "addProject api (requests w) (p_name p) = Inr newId"
    "\<not> project_todoistId_taken newId (p_id p) (projects w)"
  shows "find_project (p_id p) (projects (snd (upload_project api p w))) =
           map_option (\<lambda>q. q\<lparr>p_todoistId := Some newId, p_syncStatus := SYNCED\<rparr>)
             (find_project (p_id p) (projects w))"
  using assms
  by (simp add: upload_project_cases upload_project_try_def Let_def find_project_update
      option.map_comp comp_def)

lemma pass_project_row:
  assumes d: "distinct (map p_id (projects w))" and k: "k < length (pendingProjects w)"
  shows "find_project (p_id (pendingProjects w ! k)) (projects (before_project api w k)) =
           Some (pendingProjects w ! k)"
    and "find_project (p_id (pendingProjects w ! k)) (projects (snd (uploadToTodoist api w))) =
           find_project (p_id (pendingProjects w ! k))
             (projects (snd (upload_project api (pendingProjects w ! k) (before_project api w k))))"
proof -
  define P where "P = pendingProjects w"
  define p where "p = P ! k"
  have split: "P = take k P @ p # drop (Suc k) P"
    using k by (simp add: P_def p_def id_take_nth_drop)
  have dP: "distinct (map p_id (take k P @ p # drop (Suc k) P))"
    using pendingProjects_distinct [OF d] split by (simp add: P_def)
  have notpre: "p_id p \<notin> p_id ` set (take k P)" and notpost: "p_id p \<notin> p_id ` set (drop (Suc k) P)"
    using dP by auto
  have "p \<in> set P" using k by (simp add: P_def p_def)
  then have "p \<in> set (projects w)" by (simp add: P_def pendingProjects_def)
  then have row: "find_project (p_id p) (projects w) = Some p"
    using d by (simp add: find_project_distinct)
  have bp: "before_project api w k = snd (upload_projects api (take k P) w)"
    by (simp add: before_project_def P_def)
  show "find_project (p_id (pendingProjects w ! k)) (projects (before_project api w k)) =
           Some (pendingProjects w ! k)"
    using upload_projects_other [OF notpre, of api w] row
    by (simp add: bp p_def P_def)
  have "after_projects api w = snd (upload_projects api (take k P @ p # drop (Suc k) P) w)"
    using split by (simp add: after_projects_def P_def)
  also have "\<dots> = snd (upload_projects api (drop (Suc k) P)
                        (snd (upload_project api p (before_project api w k))))"
    by (simp add: upload_projects_append case_prod_unfold bp)
  finally have "find_project (p_id p) (projects (after_projects api w)) =
      find_project (p_id p) (projects (snd (upload_project api p (before_project api w k))))"
    using upload_projects_other [OF notpost] by simp
  then show "find_project (p_id (pendingProjects w ! k)) (projects (snd (uploadToTodoist api w))) =
           find_project (p_id (pendingProjects w ! k))
             (projects (snd (upload_project api (pendingProjects w ! k) (before_project api w k))))"
    by (simp add: p_def P_def)
qed

lemma startAutoSync_world:
  "fst (startAutoSync now api w cs) = snd (run_direction BIDIRECTIONAL all_kind api w)"
  by (simp add: startAutoSync_def run_direction_def Let_def case_prod_unfold split: sum.splits)

lemma pass_requests_kinds:
  "list_all (\<lambda>q. project_request q \<or> task_request q) (new_requests w (snd (uploadToTodoist api w)))"
  using pass_requests [of w api] by (auto simp: list_all_iff)

lemma pass_requests_ext:
  "requests (snd (uploadToTodoist api w)) =
     requests w @ new_requests w (snd (uploadToTodoist api w))"
proof -
  obtain a where a: "requests (after_projects api w) = requests w @ a"
    unfolding after_projects_def using upload_projects_requests by blast
  obtain b where b: "requests (snd (uploadToTodoist api w)) = requests (after_projects api w) @ b"
    unfolding uploadToTodoist_eq using upload_tasks_requests by fastforce
  show ?thesis using a b by (simp add: new_requests_def)
qed

text \<open>Every result record of a pull has the action \<open>created\<close> or \<open>updated\<close>.\<close>

lemma pull_project_action:
  "fst (pull_project x w) = Inr r \<Longrightarrow> r_action r = act_created \<or> r_action r = act_updated"
  by (auto simp: pull_project_def Let_def split: option.splits color_value.splits)

lemma pull_projects_actions:
  "fst (pull_projects xs w) = Inr rs \<Longrightarrow>
   \<forall>r\<in>set rs. r_action r = act_created \<or> r_action r = act_updated"
proof (induction xs arbitrary: w rs)
  case Nil
  then show ?case by simp
next
  case (Cons x xs)
  from Cons.prems obtain r rs' where
    r: "fst (pull_project x w) = Inr r"
    and rs': "fst (pull_projects xs (snd (pull_project x w))) = Inr rs'"
    and e: "rs = r # rs'"
    unfolding pull_projects_Cons by (auto split: sum.splits)
  show ?case
    using pull_project_action [OF r] Cons.IH [OF rs'] e by simp
qed

lemma pull_task_actions:
  "\<forall>r\<in>set (fst (pull_task x w)). r_action r = act_created \<or> r_action r = act_updated"
  by (simp add: pull_task_def Let_def split: option.splits)

lemma pull_tasks_actions:
  "\<forall>r\<in>set (fst (pull_tasks xs w)). r_action r = act_created \<or> r_action r = act_updated"
  by (induction xs arbitrary: w) (auto simp: case_prod_unfold dest: pull_task_actions [rule_format])

lemma syncProjects_actions:
  "fst (syncProjectsFromTodoist api w) = Inr rs \<Longrightarrow>
   \<forall>r\<in>set rs. r_action r = act_created \<or> r_action r = act_updated"
  using pull_projects_actions
  by (auto simp: syncProjectsFromTodoist_def Let_def
        split: sum.splits api_response.splits)

lemma syncTasks_actions:
  "fst (syncTasksFromTodoist api w) = Inr rs \<Longrightarrow>
   \<forall>r\<in>set rs. r_action r = act_created \<or> r_action r = act_updated"
  using pull_tasks_actions
  by (auto simp: syncTasksFromTodoist_def Let_def case_prod_unfold
        split: sum.splits api_response.splits)

lemma count_action_append [simp]:
  "count_action a (xs @ ys) = count_action a xs + count_action a ys"
  by (simp add: count_action_def)

lemma broadcast_received:
  "map ws_received (broadcast data cs) =
     map (\<lambda>ws. if ws_readyState ws = OPEN then ws_received ws @ [data] else ws_received ws) cs"
  by (simp add: broadcast_def comp_def if_distrib cong: if_cong)

lemma broadcast_states: "map ws_readyState (broadcast data cs) = map ws_readyState cs"
  by (simp add: broadcast_def comp_def if_distrib cong: if_cong)

text \<open>The remote ids known locally, while projects are pulled.\<close>

lemma update_project_todoistIds:
  "p_todoistId ` set (projects (update_project i (\<lambda>p. p\<lparr>p_name := n, p_syncStatus := SYNCED\<rparr>) w)) =
     p_todoistId ` set (projects w)"
proof -
  have a: "(\<lambda>p. p_todoistId (if p_id p = i then p\<lparr>p_name := n, p_syncStatus := SYNCED\<rparr> else p)) =
      p_todoistId"
    by (rule ext) simp
  have b: "projects (update_project i (\<lambda>p. p\<lparr>p_name := n, p_syncStatus := SYNCED\<rparr>) w) =
      map (\<lambda>p. if p_id p = i then p\<lparr>p_name := n, p_syncStatus := SYNCED\<rparr> else p) (projects w)"
    by (simp add: update_project_def)
  show ?thesis
    unfolding b set_map image_image a by (rule refl)
qed

lemma pull_project_todoistIds:
  assumes "fst (pull_project x w) = Inr r"
  shows "p_todoistId ` set (projects (snd (pull_project x w))) =
     insert (Some (rp_id x)) (p_todoistId ` set (projects w))"
proof (cases "find_project_by_todoistId (rp_id x) (projects w)")
  case None
  then show ?thesis
    using assms by (auto simp: pull_project_def Let_def split: color_value.splits)
next
  case (Some ex)
  have "Some (rp_id x) \<in> p_todoistId ` set (projects w)"
    using find_by_todoistId_Some [OF Some] by force
  then show ?thesis
    by (simp add: pull_project_exists [OF Some] insert_absorb update_project_todoistIds)
qed

lemma pull_projects_todoistIds:
  assumes "fst (pull_projects xs w) = Inr rs"
  shows "p_todoistId ` set (projects (snd (pull_projects xs w))) =
     (\<lambda>x. Some (rp_id x)) ` set xs \<union> p_todoistId ` set (projects w)"
  using assms
proof (induction xs arbitrary: w rs)
  case Nil
  then show ?case by simp
next
  case (Cons x xs)
  from Cons.prems obtain r rs' where
    r: "fst (pull_project x w) = Inr r"
    and rs': "fst (pull_projects xs (snd (pull_project x w))) = Inr rs'"
    unfolding pull_projects_Cons by (auto split: sum.splits)
  show ?case
    unfolding pull_projects_Cons
    using Cons.IH [OF rs'] pull_project_todoistIds [OF r] by (simp add: r rs')
qed

lemma pull_project_action_known:
  assumes "fst (pull_project x w) = Inr r"
  shows "r_action r =
     (if Some (rp_id x) \<in> p_todoistId ` set (projects w) then act_updated else act_created)"
proof (cases "find_project_by_todoistId (rp_id x) (projects w)")
  case None
  then show ?thesis
    using assms find_by_todoistId_None [of "rp_id x" "projects w"]
    by (auto simp: pull_project_def Let_def split: color_value.splits)
next
  case (Some ex)
  then show ?thesis
    using assms find_by_todoistId_None [of "rp_id x" "projects w"]
    by (auto simp: pull_project_exists)
qed

lemma pull_projects_action_nth:
  assumes c: "\<forall>x\<in>set xs. rp_color x \<notin> set objectPrototype" and k: "k < length xs"
    and rs: "fst (pull_projects xs w) = Inr rs"
  shows "r_action (rs ! k) =
     (if Some (rp_id (xs ! k)) \<in> (\<lambda>x. Some (rp_id x)) ` set (take k xs) \<union> p_todoistId ` set (projects w)
      then act_updated else act_created)"
proof -
  have ct: "\<forall>x\<in>set (take k xs). rp_color x \<notin> set objectPrototype"
    using c by (auto dest: in_set_takeD)
  obtain ra where ra: "fst (pull_projects (take k xs) w) = Inr ra"
    using pull_projects_returns [OF ct] by blast
  show ?thesis
    using pull_project_action_known [OF pull_projects_at(1) [OF c k rs]]
      pull_projects_todoistIds [OF ra]
    by simp
qed

text \<open>With unique keys, a pull changes the name of a synced project only to a name listed for its remote id.\<close>

lemma pull_project_row_name:
  assumes d: "distinct (map p_id (projects w))" and q: "find_project i (projects w) = Some q"
    and s: "p_syncStatus q = SYNCED"
  shows "find_project i (projects (snd (pull_project x w))) = Some q \<or>
         (p_todoistId q = Some (rp_id x) \<and>
          find_project i (projects (snd (pull_project x w))) = Some (q\<lparr>p_name := rp_name x\<rparr>))"
proof (cases "find_project_by_todoistId (rp_id x) (projects w)")
  case None
  then show ?thesis
    using q
    by (auto simp: pull_project_def Let_def split: color_value.splits intro: find_project_append)
next
  case (Some ex)
  have ex: "ex \<in> set (projects w)" "p_todoistId ex = Some (rp_id x)"
    using find_by_todoistId_Some [OF Some] by simp_all
  have qi: "p_id q = i" "q \<in> set (projects w)"
    using find_project_Some_id [OF q] by simp_all
  show ?thesis
  proof (cases "p_id ex = i")
    case True
    then have "ex = q"
      using d ex(1) qi by (auto simp: distinct_map inj_on_def)
    moreover have "q\<lparr>p_name := rp_name x, p_syncStatus := SYNCED\<rparr> = q\<lparr>p_name := rp_name x\<rparr>"
      using s by (cases q) simp
    ultimately show ?thesis
      using q ex(2) qi(1) by (simp add: pull_project_exists [OF Some] find_project_update)
  next
    case False
    then show ?thesis
      using q by (simp add: pull_project_exists [OF Some] find_project_update)
  qed
qed

lemma pull_projects_row_name:
  assumes "distinct (map p_id (projects w))" "find_project i (projects w) = Some q"
    and "p_syncStatus q = SYNCED"
  shows "\<exists>n. find_project i (projects (snd (pull_projects xs w))) = Some (q\<lparr>p_name := n\<rparr>) \<and>
           (n = p_name q \<or> (\<exists>x\<in>set xs. p_todoistId q = Some (rp_id x) \<and> rp_name x = n))"
  using assms
proof (induction xs arbitrary: w q)
  case Nil
  then show ?case by (intro exI [of _ "p_name q"]) simp
next
  case (Cons x xs)
  define w1 where "w1 = snd (pull_project x w)"
  have d1: "distinct (map p_id (projects w1))"
    unfolding w1_def using Cons.prems(1) by (rule pull_project_distinct)
  from pull_project_row_name [OF Cons.prems, of x]
  obtain q' where q': "find_project i (projects w1) = Some q'"
      "q' = q \<or> (p_todoistId q = Some (rp_id x) \<and> q' = q\<lparr>p_name := rp_name x\<rparr>)"
    unfolding w1_def by auto
  have s': "p_syncStatus q' = SYNCED" and t': "p_todoistId q' = p_todoistId q"
    using q'(2) Cons.prems(3) by auto
  from Cons.IH [OF d1 q'(1) s'] obtain n where
    n: "find_project i (projects (snd (pull_projects xs w1))) = Some (q'\<lparr>p_name := n\<rparr>)"
      "n = p_name q' \<or> (\<exists>x\<in>set xs. p_todoistId q' = Some (rp_id x) \<and> rp_name x = n)"
    by blast
  have e: "q'\<lparr>p_name := n\<rparr> = q\<lparr>p_name := n\<rparr>"
    using q'(2) by auto
  have after: "find_project i (projects (snd (pull_projects (x # xs) w))) = Some q' \<or>
      find_project i (projects (snd (pull_projects (x # xs) w))) = Some (q\<lparr>p_name := n\<rparr>)"
    unfolding pull_projects_Cons using q'(1) n(1) e
    by (simp add: w1_def split: sum.splits)
  have c: "n = p_name q \<or> (\<exists>y\<in>set (x # xs). p_todoistId q = Some (rp_id y) \<and> rp_name y = n)"
    using n(2) q'(2) t' by auto
  have c': "p_name q' = p_name q \<or>
      (\<exists>y\<in>set (x # xs). p_todoistId q = Some (rp_id y) \<and> rp_name y = p_name q')"
    using q'(2) by auto
  have e': "q' = q\<lparr>p_name := p_name q'\<rparr>"
    using q'(2) by auto
  from after show ?case
  proof
    assume "find_project i (projects (snd (pull_projects (x # xs) w))) = Some q'"
    then show ?thesis
      using c' e' by (intro exI [of _ "p_name q'"]) simp
  next
    assume "find_project i (projects (snd (pull_projects (x # xs) w))) = Some (q\<lparr>p_name := n\<rparr>)"
    then show ?thesis
      using c by (intro exI [of _ n]) simp
  qed
qed

lemma run_pull_row_name:
  assumes d: "distinct (map p_id (projects w))" and q: "find_project i (projects w) = Some q"
    and s: "p_syncStatus q = SYNCED"
  shows "\<exists>n. find_project i (projects (snd (run_direction FROM_TODOIST et api w))) =
              Some (q\<lparr>p_name := n\<rparr>) \<and>
           (n = p_name q \<or>
            (\<exists>xs. et \<noteq> tasks_kind \<and>
                  (getProjects api (requests w) = Inr (ArrayResponse xs) \<or>
                   getProjects api (requests w) = Inr (ResultsResponse xs)) \<and>
                  (\<exists>x\<in>set xs. p_todoistId q = Some (rp_id x) \<and> rp_name x = n)))"
proof -
  have same: "\<exists>n. find_project i (projects w) = Some (q\<lparr>p_name := n\<rparr>) \<and> n = p_name q"
    using q by simp
  have listed: "\<exists>n. find_project i (projects (snd (pull_projects xs (sent GetProjects w)))) =
              Some (q\<lparr>p_name := n\<rparr>) \<and>
           (n = p_name q \<or> (\<exists>x\<in>set xs. p_todoistId q = Some (rp_id x) \<and> rp_name x = n))" for xs
    using d q s by (intro pull_projects_row_name) simp_all
  have p: "\<exists>n. find_project i (projects (snd (syncProjectsFromTodoist api w))) =
              Some (q\<lparr>p_name := n\<rparr>) \<and>
           (n = p_name q \<or>
            (\<exists>xs. (getProjects api (requests w) = Inr (ArrayResponse xs) \<or>
                   getProjects api (requests w) = Inr (ResultsResponse xs)) \<and>
                  (\<exists>x\<in>set xs. p_todoistId q = Some (rp_id x) \<and> rp_name x = n)))"
  proof (cases "getProjects api (requests w)")
    case (Inl e)
    then show ?thesis
      using same by (simp add: syncProjectsFromTodoist_def Let_def)
  next
    case (Inr response)
    show ?thesis
    proof (cases response)
      case (ArrayResponse xs)
      from listed [of xs] show ?thesis
        using Inr ArrayResponse by (auto simp: syncProjectsFromTodoist_def Let_def)
    next
      case (ResultsResponse xs)
      from listed [of xs] show ?thesis
        using Inr ResultsResponse by (auto simp: syncProjectsFromTodoist_def Let_def)
    qed (use Inr same in \<open>simp_all add: syncProjectsFromTodoist_def Let_def\<close>)
  qed
  show ?thesis
  proof (cases "et = tasks_kind")
    case True
    then show ?thesis
      using same by (simp add: run_direction_def case_prod_unfold split: sum.splits)
  next
    case False
    have "projects (snd (run_direction FROM_TODOIST et api w)) =
        projects (snd (syncProjectsFromTodoist api w))"
      using False by (cases et) (simp_all add: run_direction_def case_prod_unfold split: sum.splits)
    then show ?thesis
      using p False by auto
  qed
qed

text \<open>The colour table, and one iteration of the pull of the projects.\<close>

lemma before_pull_0 [simp]: "before_pull xs w 0 = sent GetProjects w"
  by (simp add: before_pull_def)

lemma colorMap_entries:
  "map mapTodoistColor
     [''berry_red'', ''red'', ''orange'', ''yellow'', ''olive_green'', ''green'', ''teal'',
      ''blue'', ''purple'', ''pink'', ''brown'', ''gray'', ''charcoal'', ''grey'',
      ''30'', ''31'', ''32'', ''33'', ''34'', ''35'', ''36'', ''37'', ''38'', ''39''] =
   map LocalColor
     [''red'', ''red'', ''orange'', ''yellow'', ''green'', ''green'', ''blue'',
      ''blue'', ''purple'', ''purple'', ''gray'', ''gray'', ''gray'', ''gray'',
      ''red'', ''orange'', ''yellow'', ''green'', ''blue'', ''purple'', ''pink'', ''brown'',
      ''gray'', ''gray'']"
  by code_simp

lemma mapTodoistColor_unknown:
  "c \<notin> fst ` set colorMap \<Longrightarrow> c \<notin> set objectPrototype \<Longrightarrow> mapTodoistColor c = LocalColor ''blue''"
proof -
  assume "c \<notin> fst ` set colorMap" "c \<notin> set objectPrototype"
  moreover from this have "map_of colorMap c = None"
    by (simp add: map_of_eq_None_iff)
  ultimately show ?thesis
    by (simp add: mapTodoistColor_def)
qed

lemma pull_step:
  assumes c: "\<forall>x\<in>set xs. rp_color x \<notin> set objectPrototype" and k: "k < length xs"
    and rs: "fst (pull_projects xs (sent GetProjects w)) = Inr rs"
  shows "(case find_project_by_todoistId (rp_id (xs ! k)) (projects (before_pull xs w k)) of
           Some existingProject \<Rightarrow>
             rs ! k = ProjectResult act_updated
               (existingProject\<lparr>p_name := rp_name (xs ! k), p_syncStatus := SYNCED\<rparr>) \<and>
             projects (before_pull xs w (Suc k)) =
               map (\<lambda>p. if p_id p = p_id existingProject
                         then p\<lparr>p_name := rp_name (xs ! k), p_syncStatus := SYNCED\<rparr> else p)
                 (projects (before_pull xs w k)) \<and>
             syncLogs (before_pull xs w (Suc k)) =
               syncLogs (before_pull xs w k) @
               [\<lparr>l_entityType = Project_entity, l_entityId = p_id existingProject,
                 l_action = UPDATE, l_direction = FROM_TODOIST,
                 l_todoistId = Some (rp_id (xs ! k)), l_errorMessage = None,
                 l_projectId = Some (p_id existingProject), l_taskId = None\<rparr>]
         | None \<Rightarrow>
             (\<exists>color. mapTodoistColor (rp_color (xs ! k)) = LocalColor color \<and>
                rs ! k = ProjectResult act_created
                  \<lparr>p_id = fresh_id (map p_id (projects (before_pull xs w k))),
                   p_name = rp_name (xs ! k), p_color = color,
                   p_todoistId = Some (rp_id (xs ! k)), p_syncStatus = SYNCED\<rparr> \<and>
                projects (before_pull xs w (Suc k)) =
                  projects (before_pull xs w k) @
                  [\<lparr>p_id = fresh_id (map p_id (projects (before_pull xs w k))),
                    p_name = rp_name (xs ! k), p_color = color,
                    p_todoistId = Some (rp_id (xs ! k)), p_syncStatus = SYNCED\<rparr>] \<and>
                syncLogs (before_pull xs w (Suc k)) =
                  syncLogs (before_pull xs w k) @
                  [\<lparr>l_entityType = Project_entity,
                    l_entityId = fresh_id (map p_id (projects (before_pull xs w k))),
                    l_action = CREATE, l_direction = FROM_TODOIST,
                    l_todoistId = Some (rp_id (xs ! k)), l_errorMessage = None,
                    l_projectId = Some (fresh_id (map p_id (projects (before_pull xs w k)))),
                    l_taskId = None\<rparr>]))"
proof -
  define wk where "wk = before_pull xs w k"
  note at = pull_projects_at [OF c k rs]
  have r: "fst (pull_project (xs ! k) wk) = Inr (rs ! k)"
    using at(1) by (simp add: wk_def before_pull_def)
  have s: "before_pull xs w (Suc k) = snd (pull_project (xs ! k) wk)"
    using at(2) by (simp add: wk_def before_pull_def)
  obtain color where color: "mapTodoistColor (rp_color (xs ! k)) = LocalColor color"
    using mapTodoistColor_string [of "rp_color (xs ! k)"] c k by auto
  show ?thesis
    unfolding s wk_def [symmetric]
    using r color
    by (auto simp: pull_project_def Let_def update_project_def logSync_def
          split: option.splits)
qed

section \<open>Claims\<close>

subsection \<open>Priority mapping\<close>

text \<open>
  C7. Both priority maps are the formula \<open>5 - p\<close>; on the priorities 1 to 4 each is the
  inverse of the other, and both send 1..4 into 1..4.
\<close>

theorem priority_mapping_involution:
  "mapTodoistPriority p = 5 - p \<and> mapToTodoistPriority p = 5 - p \<and>
   (p \<in> {1, 2, 3, 4} \<longrightarrow>
      mapTodoistPriority (mapToTodoistPriority p) = p \<and>
      mapToTodoistPriority (mapTodoistPriority p) = p \<and>
      mapTodoistPriority p \<in> {1, 2, 3, 4} \<and>
      mapToTodoistPriority p \<in> {1, 2, 3, 4})"
  by (auto simp: mapTodoistPriority_def mapToTodoistPriority_def)

theorem priority_mapping_involution_witness:
  "(1::int) \<in> {1, 2, 3, 4} \<and> mapTodoistPriority (mapToTodoistPriority 1) = 1 \<and>
   mapToTodoistPriority (mapTodoistPriority 1) = 1 \<and>
   mapTodoistPriority 1 = 4 \<and> mapToTodoistPriority 1 = 4"
  using priority_mapping_involution [of 1]
  by (simp add: mapTodoistPriority_def mapToTodoistPriority_def)

subsection \<open>Failure isolation of push\<close>

text \<open>
  C1, as amended. In a store with unique primary keys, \<open>uploadToTodoist\<close> returns
  normally, with one result record for every pending project and for every pending task
  whose project holds a remote id when the tasks are scanned, in that order. When the
  \<open>try\<close> block of an iteration throws (a remote call throws, or the store rejects the
  new remote id), the pass leaves that entity in \<open>ERROR\<close> with every other field as it
  was, appends exactly one log row for it, with direction \<open>TO_TODOIST\<close> and the error
  message, and reports one \<open>error\<close> record for it; when the block runs to its end, the
  entity ends the pass \<open>SYNCED\<close> with one \<open>uploaded\<close> record. The last two conjuncts
  say when a block throws.
\<close>

theorem push_failure_isolation:
  assumes "distinct (map p_id (projects w))" and "distinct (map t_id (tasks w))"
  shows
    "fst (uploadToTodoist api w) = Inr (pass_results api w) \<and>
     map r_entity (pass_results api w) =
       map (\<lambda>p. (Project_entity, p_id p)) (pendingProjects w) @
       map (\<lambda>j. (Task_entity, t_id (fst j)))
         (filter eligible (pendingTasks (after_projects api w))) \<and>
     (\<forall>k<length (pendingProjects w). \<forall>e.
        fst (upload_project_try api (pendingProjects w ! k) (before_project api w k)) = Some e \<longrightarrow>
          find_project (p_id (pendingProjects w ! k)) (projects (snd (uploadToTodoist api w))) =
            Some ((pendingProjects w ! k)\<lparr>p_syncStatus := ERROR\<rparr>) \<and>
          (\<exists>l. logs_of Project_entity (p_id (pendingProjects w ! k))
                 (new_logs w (snd (uploadToTodoist api w))) = [l] \<and>
               l_direction l = TO_TODOIST \<and> l_errorMessage l = Some (error_message e)) \<and>
          results_of Project_entity (p_id (pendingProjects w ! k)) (pass_results api w) =
            [UploadResult Project_entity act_error (p_id (pendingProjects w ! k)) (Some e)]) \<and>
     (\<forall>k<length (pendingProjects w).
        fst (upload_project_try api (pendingProjects w ! k) (before_project api w k)) = None \<longrightarrow>
          map_option p_syncStatus
            (find_project (p_id (pendingProjects w ! k)) (projects (snd (uploadToTodoist api w)))) =
            Some SYNCED \<and>
          results_of Project_entity (p_id (pendingProjects w ! k)) (pass_results api w) =
            [UploadResult Project_entity act_uploaded (p_id (pendingProjects w ! k)) None]) \<and>
     (\<forall>k<length (pendingTasks (after_projects api w)). \<forall>e.
        fst (upload_task_try api (pendingTasks (after_projects api w) ! k) (before_task api w k)) =
          Threw e \<longrightarrow>
          find_task (t_id (fst (pendingTasks (after_projects api w) ! k)))
            (tasks (snd (uploadToTodoist api w))) =
            Some ((fst (pendingTasks (after_projects api w) ! k))\<lparr>t_syncStatus := ERROR\<rparr>) \<and>
          (\<exists>l. logs_of Task_entity (t_id (fst (pendingTasks (after_projects api w) ! k)))
                 (new_logs w (snd (uploadToTodoist api w))) = [l] \<and>
               l_direction l = TO_TODOIST \<and> l_errorMessage l = Some (error_message e)) \<and>
          results_of Task_entity (t_id (fst (pendingTasks (after_projects api w) ! k)))
            (pass_results api w) =
            [UploadResult Task_entity act_error
               (t_id (fst (pendingTasks (after_projects api w) ! k))) (Some e)]) \<and>
     (\<forall>k<length (pendingTasks (after_projects api w)).
        fst (upload_task_try api (pendingTasks (after_projects api w) ! k) (before_task api w k)) =
          Completed \<longrightarrow>
          map_option t_syncStatus
            (find_task (t_id (fst (pendingTasks (after_projects api w) ! k)))
               (tasks (snd (uploadToTodoist api w)))) = Some SYNCED \<and>
          results_of Task_entity (t_id (fst (pendingTasks (after_projects api w) ! k)))
            (pass_results api w) =
            [UploadResult Task_entity act_uploaded
               (t_id (fst (pendingTasks (after_projects api w) ! k))) None]) \<and>
     (\<forall>p w0. fst (upload_project_try api p w0) =
        (if truthy (p_todoistId p) then
           (case updateProject api (requests w0) (str_of (p_todoistId p)) (p_name p) of
              Inl e \<Rightarrow> Some e | Inr u \<Rightarrow> None)
         else
           (case addProject api (requests w0) (p_name p) of
              Inl e \<Rightarrow> Some e
            | Inr newId \<Rightarrow>
                if project_todoistId_taken newId (p_id p) (projects w0)
                then Some unique_violation else None))) \<and>
     (\<forall>t pr w0. fst (upload_task_try api (t, Some pr) w0) =
        (if \<not> truthy (p_todoistId pr) then Skipped
         else if truthy (t_todoistId t) then
           (case updateTask api (requests w0) (str_of (t_todoistId t)) (taskData_of t pr) of
              Inl e \<Rightarrow> Threw e
            | Inr u \<Rightarrow>
                (case (if t_completed t
                       then closeTask api
                              (requests w0 @ [UpdateTask (str_of (t_todoistId t)) (taskData_of t pr)])
                              (str_of (t_todoistId t))
                       else reopenTask api
                              (requests w0 @ [UpdateTask (str_of (t_todoistId t)) (taskData_of t pr)])
                              (str_of (t_todoistId t))) of
                   Inl e \<Rightarrow> Threw e | Inr u' \<Rightarrow> Completed))
         else
           (case addTask api (requests w0) (taskData_of t pr) of
              Inl e \<Rightarrow> Threw e
            | Inr newId \<Rightarrow>
                if task_todoistId_taken newId (t_id t) (tasks w0) then Threw unique_violation
                else Completed)))"
proof (intro conjI allI impI)
  show "fst (uploadToTodoist api w) = Inr (pass_results api w)" by (rule pass_returns)
  show "map r_entity (pass_results api w) =
       map (\<lambda>p. (Project_entity, p_id p)) (pendingProjects w) @
       map (\<lambda>j. (Task_entity, t_id (fst j)))
         (filter eligible (pendingTasks (after_projects api w)))" by (rule pass_entities)
next
  fix k e
  assume k: "k < length (pendingProjects w)"
    and t: "fst (upload_project_try api (pendingProjects w ! k) (before_project api w k)) = Some e"
  note r = pass_project(1) [OF assms(1) k t]
  show "find_project (p_id (pendingProjects w ! k)) (projects (snd (uploadToTodoist api w))) =
            Some ((pendingProjects w ! k)\<lparr>p_syncStatus := ERROR\<rparr>)" using r by blast
  show "\<exists>l. logs_of Project_entity (p_id (pendingProjects w ! k))
                 (new_logs w (snd (uploadToTodoist api w))) = [l] \<and>
               l_direction l = TO_TODOIST \<and> l_errorMessage l = Some (error_message e)"
    using r by (simp add: error_log_def)
  show "results_of Project_entity (p_id (pendingProjects w ! k)) (pass_results api w) =
            [UploadResult Project_entity act_error (p_id (pendingProjects w ! k)) (Some e)]"
    using r by blast
next
  fix k
  assume k: "k < length (pendingProjects w)"
    and t: "fst (upload_project_try api (pendingProjects w ! k) (before_project api w k)) = None"
  note r = pass_project(2) [OF assms(1) k t]
  show "map_option p_syncStatus
            (find_project (p_id (pendingProjects w ! k)) (projects (snd (uploadToTodoist api w)))) =
            Some SYNCED" using r by blast
  show "results_of Project_entity (p_id (pendingProjects w ! k)) (pass_results api w) =
            [UploadResult Project_entity act_uploaded (p_id (pendingProjects w ! k)) None]"
    using r by blast
next
  fix k e
  assume k: "k < length (pendingTasks (after_projects api w))"
    and t: "fst (upload_task_try api (pendingTasks (after_projects api w) ! k) (before_task api w k)) =
          Threw e"
  note r = pass_task(1) [OF assms(2) k t]
  show "find_task (t_id (fst (pendingTasks (after_projects api w) ! k)))
            (tasks (snd (uploadToTodoist api w))) =
            Some ((fst (pendingTasks (after_projects api w) ! k))\<lparr>t_syncStatus := ERROR\<rparr>)"
    using r by blast
  show "\<exists>l. logs_of Task_entity (t_id (fst (pendingTasks (after_projects api w) ! k)))
                 (new_logs w (snd (uploadToTodoist api w))) = [l] \<and>
               l_direction l = TO_TODOIST \<and> l_errorMessage l = Some (error_message e)"
    using r by (simp add: error_log_def)
  show "results_of Task_entity (t_id (fst (pendingTasks (after_projects api w) ! k)))
            (pass_results api w) =
            [UploadResult Task_entity act_error
               (t_id (fst (pendingTasks (after_projects api w) ! k))) (Some e)]"
    using r by blast
next
  fix k
  assume k: "k < length (pendingTasks (after_projects api w))"
    and t: "fst (upload_task_try api (pendingTasks (after_projects api w) ! k) (before_task api w k)) =
          Completed"
  note r = pass_task(2) [OF assms(2) k t]
  show "map_option t_syncStatus
            (find_task (t_id (fst (pendingTasks (after_projects api w) ! k)))
               (tasks (snd (uploadToTodoist api w)))) = Some SYNCED" using r by blast
  show "results_of Task_entity (t_id (fst (pendingTasks (after_projects api w) ! k)))
            (pass_results api w) =
            [UploadResult Task_entity act_uploaded
               (t_id (fst (pendingTasks (after_projects api w) ! k))) None]" using r by blast
next
  fix p w0
  show "fst (upload_project_try api p w0) =
        (if truthy (p_todoistId p) then
           (case updateProject api (requests w0) (str_of (p_todoistId p)) (p_name p) of
              Inl e \<Rightarrow> Some e | Inr u \<Rightarrow> None)
         else
           (case addProject api (requests w0) (p_name p) of
              Inl e \<Rightarrow> Some e
            | Inr newId \<Rightarrow>
                if project_todoistId_taken newId (p_id p) (projects w0)
                then Some unique_violation else None))" by (rule upload_project_try_outcome)
next
  fix t pr w0
  show "fst (upload_task_try api (t, Some pr) w0) =
        (if \<not> truthy (p_todoistId pr) then Skipped
         else if truthy (t_todoistId t) then
           (case updateTask api (requests w0) (str_of (t_todoistId t)) (taskData_of t pr) of
              Inl e \<Rightarrow> Threw e
            | Inr u \<Rightarrow>
                (case (if t_completed t
                       then closeTask api
                              (requests w0 @ [UpdateTask (str_of (t_todoistId t)) (taskData_of t pr)])
                              (str_of (t_todoistId t))
                       else reopenTask api
                              (requests w0 @ [UpdateTask (str_of (t_todoistId t)) (taskData_of t pr)])
                              (str_of (t_todoistId t))) of
                   Inl e \<Rightarrow> Threw e | Inr u' \<Rightarrow> Completed))
         else
           (case addTask api (requests w0) (taskData_of t pr) of
              Inl e \<Rightarrow> Threw e
            | Inr newId \<Rightarrow>
                if task_todoistId_taken newId (t_id t) (tasks w0) then Threw unique_violation
                else Completed))" by (rule upload_task_try_outcome)
qed

theorem push_failure_isolation_witness:
  "distinct (map p_id (projects local_world)) \<and> distinct (map t_id (tasks local_world)) \<and>
   fst (uploadToTodoist inbox_down local_world) = Inr (pass_results inbox_down local_world) \<and>
   find_project ''p1'' (projects (snd (uploadToTodoist inbox_down local_world))) =
     Some (inbox\<lparr>p_syncStatus := ERROR\<rparr>) \<and>
   results_of Project_entity ''p1'' (pass_results inbox_down local_world) =
     [UploadResult Project_entity act_error ''p1'' (Some (Error ''503''))] \<and>
   map_option p_syncStatus
     (find_project ''p2'' (projects (snd (uploadToTodoist inbox_down local_world)))) = Some SYNCED \<and>
   results_of Project_entity ''p2'' (pass_results inbox_down local_world) =
     [UploadResult Project_entity act_uploaded ''p2'' None]"
proof -
  have d1: "distinct (map p_id (projects local_world))" by code_simp
  have d2: "distinct (map t_id (tasks local_world))" by code_simp
  note T = push_failure_isolation [OF d1 d2, of inbox_down]
  have k0: "0 < length (pendingProjects local_world)" by code_simp
  have k1: "1 < length (pendingProjects local_world)" by code_simp
  have p0: "pendingProjects local_world ! 0 = inbox" by code_simp
  have p1: "pendingProjects local_world ! 1 = work" by code_simp
  have t0: "fst (upload_project_try inbox_down (pendingProjects local_world ! 0)
               (before_project inbox_down local_world 0)) = Some (Error ''503'')" by code_simp
  have t1: "fst (upload_project_try inbox_down (pendingProjects local_world ! 1)
               (before_project inbox_down local_world 1)) = None" by code_simp
  have i0: "p_id inbox = ''p1''" by code_simp
  have i1: "p_id work = ''p2''" by code_simp
  note c1 = T [THEN conjunct1]
  note c3 = T [THEN conjunct2, THEN conjunct2, THEN conjunct1, rule_format, OF k0 t0,
               unfolded p0 i0]
  note c4 = T [THEN conjunct2, THEN conjunct2, THEN conjunct2, THEN conjunct1, rule_format,
               OF k1 t1, unfolded p1 i1]
  show ?thesis using d1 d2 c1 c3 c4 by simp
qed

text \<open>
  The claim as first stated fails on the example store: the project Inbox cannot be
  created, so the pending task of that project is passed over (no request, no result,
  still \<open>PENDING_UPLOAD\<close>) although it is one of the other pending entities; and the log
  row of the failed creation carries the action \<open>UPDATE\<close>.
\<close>

theorem push_failure_isolation_counterexample:
  "fst (uploadToTodoist inbox_down local_world) =
     Inr [UploadResult Project_entity act_error ''p1'' (Some (Error ''503'')),
          UploadResult Project_entity act_uploaded ''p2'' None] \<and>
   requests (snd (uploadToTodoist inbox_down local_world)) =
     [AddProject ''Inbox'', AddProject ''Work''] \<and>
   tasks (snd (uploadToTodoist inbox_down local_world)) = [buy_milk] \<and>
   t_syncStatus buy_milk = PENDING_UPLOAD \<and>
   map l_action (syncLogs (snd (uploadToTodoist inbox_down local_world))) = [UPDATE, CREATE]"
  by code_simp

subsection \<open>The transition to \<open>ERROR\<close>\<close>

text \<open>
  C4, as amended. In a store with unique primary keys, when the attempt for a pending
  entity fails, the pass changes only its \<open>syncStatus\<close> (to \<open>ERROR\<close>): the row is the
  scanned row with that one field changed. A later push pass does not attempt the entity
  again: the scan selects the rows in \<open>PENDING_UPLOAD\<close> only, so the row in \<open>ERROR\<close>
  stays as it is, with no result record and no log row, whatever remote \<open>api'\<close> the later
  pass talks to.
\<close>

theorem failed_push_changes_status_only:
  assumes "distinct (map p_id (projects w))" and "distinct (map t_id (tasks w))"
  shows
    "(\<forall>k<length (pendingProjects w). \<forall>e.
        fst (upload_project_try api (pendingProjects w ! k) (before_project api w k)) = Some e \<longrightarrow>
          find_project (p_id (pendingProjects w ! k)) (projects (snd (uploadToTodoist api w))) =
            Some ((pendingProjects w ! k)\<lparr>p_syncStatus := ERROR\<rparr>) \<and>
          find_project (p_id (pendingProjects w ! k))
            (projects (snd (uploadToTodoist api' (snd (uploadToTodoist api w))))) =
            Some ((pendingProjects w ! k)\<lparr>p_syncStatus := ERROR\<rparr>) \<and>
          results_of Project_entity (p_id (pendingProjects w ! k))
            (pass_results api' (snd (uploadToTodoist api w))) = [] \<and>
          logs_of Project_entity (p_id (pendingProjects w ! k))
            (new_logs (snd (uploadToTodoist api w))
               (snd (uploadToTodoist api' (snd (uploadToTodoist api w))))) = []) \<and>
     (\<forall>k<length (pendingTasks (after_projects api w)). \<forall>e.
        fst (upload_task_try api (pendingTasks (after_projects api w) ! k) (before_task api w k)) =
          Threw e \<longrightarrow>
          find_task (t_id (fst (pendingTasks (after_projects api w) ! k)))
            (tasks (snd (uploadToTodoist api w))) =
            Some ((fst (pendingTasks (after_projects api w) ! k))\<lparr>t_syncStatus := ERROR\<rparr>) \<and>
          find_task (t_id (fst (pendingTasks (after_projects api w) ! k)))
            (tasks (snd (uploadToTodoist api' (snd (uploadToTodoist api w))))) =
            Some ((fst (pendingTasks (after_projects api w) ! k))\<lparr>t_syncStatus := ERROR\<rparr>) \<and>
          results_of Task_entity (t_id (fst (pendingTasks (after_projects api w) ! k)))
            (pass_results api' (snd (uploadToTodoist api w))) = [] \<and>
          logs_of Task_entity (t_id (fst (pendingTasks (after_projects api w) ! k)))
            (new_logs (snd (uploadToTodoist api w))
               (snd (uploadToTodoist api' (snd (uploadToTodoist api w))))) = [])"
proof (intro conjI allI impI)
  fix k e
  assume k: "k < length (pendingProjects w)"
    and t: "fst (upload_project_try api (pendingProjects w ! k) (before_project api w k)) = Some e"
  define w' where "w' = snd (uploadToTodoist api w)"
  define p where "p = pendingProjects w ! k"
  have row: "find_project (p_id p) (projects w') = Some (p\<lparr>p_syncStatus := ERROR\<rparr>)"
    using pass_project(1) [OF assms(1) k t] by (simp add: w'_def p_def)
  have d': "distinct (map p_id (projects w'))" using assms(1) by (simp add: w'_def)
  have s: "p_syncStatus (p\<lparr>p_syncStatus := ERROR\<rparr>) \<noteq> PENDING_UPLOAD" by simp
  note u = pass_untouched_project [OF d' row s, of api']
  show "find_project (p_id (pendingProjects w ! k)) (projects (snd (uploadToTodoist api w))) =
            Some ((pendingProjects w ! k)\<lparr>p_syncStatus := ERROR\<rparr>)"
    using row by (simp add: w'_def p_def)
  show "find_project (p_id (pendingProjects w ! k))
            (projects (snd (uploadToTodoist api' (snd (uploadToTodoist api w))))) =
            Some ((pendingProjects w ! k)\<lparr>p_syncStatus := ERROR\<rparr>)"
    using u(1) by (simp add: w'_def p_def)
  show "results_of Project_entity (p_id (pendingProjects w ! k))
            (pass_results api' (snd (uploadToTodoist api w))) = []"
    using u(2) by (simp add: w'_def p_def)
  show "logs_of Project_entity (p_id (pendingProjects w ! k))
            (new_logs (snd (uploadToTodoist api w))
               (snd (uploadToTodoist api' (snd (uploadToTodoist api w))))) = []"
    using u(3) by (simp add: w'_def p_def)
next
  fix k e
  assume k: "k < length (pendingTasks (after_projects api w))"
    and t: "fst (upload_task_try api (pendingTasks (after_projects api w) ! k) (before_task api w k)) =
          Threw e"
  define w' where "w' = snd (uploadToTodoist api w)"
  define p where "p = fst (pendingTasks (after_projects api w) ! k)"
  have row: "find_task (t_id p) (tasks w') = Some (p\<lparr>t_syncStatus := ERROR\<rparr>)"
    using pass_task(1) [OF assms(2) k t] by (simp add: w'_def p_def)
  have d': "distinct (map t_id (tasks w'))" using assms(2) by (simp add: w'_def)
  have s: "t_syncStatus (p\<lparr>t_syncStatus := ERROR\<rparr>) \<noteq> PENDING_UPLOAD" by simp
  note u = pass_untouched_task [OF d' row s, of api']
  show "find_task (t_id (fst (pendingTasks (after_projects api w) ! k)))
            (tasks (snd (uploadToTodoist api w))) =
            Some ((fst (pendingTasks (after_projects api w) ! k))\<lparr>t_syncStatus := ERROR\<rparr>)"
    using row by (simp add: w'_def p_def)
  show "find_task (t_id (fst (pendingTasks (after_projects api w) ! k)))
            (tasks (snd (uploadToTodoist api' (snd (uploadToTodoist api w))))) =
            Some ((fst (pendingTasks (after_projects api w) ! k))\<lparr>t_syncStatus := ERROR\<rparr>)"
    using u(1) by (simp add: w'_def p_def)
  show "results_of Task_entity (t_id (fst (pendingTasks (after_projects api w) ! k)))
            (pass_results api' (snd (uploadToTodoist api w))) = []"
    using u(2) by (simp add: w'_def p_def)
  show "logs_of Task_entity (t_id (fst (pendingTasks (after_projects api w) ! k)))
            (new_logs (snd (uploadToTodoist api w))
               (snd (uploadToTodoist api' (snd (uploadToTodoist api w))))) = []"
    using u(3) by (simp add: w'_def p_def)
qed

theorem failed_push_changes_status_only_witness:
  "distinct (map p_id (projects inbox_world)) \<and> distinct (map t_id (tasks inbox_world)) \<and>
   find_project ''p1'' (projects (snd (uploadToTodoist recovering_remote inbox_world))) =
     Some (inbox\<lparr>p_syncStatus := ERROR\<rparr>) \<and>
   find_project ''p1''
     (projects (snd (uploadToTodoist recovering_remote
                  (snd (uploadToTodoist recovering_remote inbox_world))))) =
     Some (inbox\<lparr>p_syncStatus := ERROR\<rparr>) \<and>
   results_of Project_entity ''p1''
     (pass_results recovering_remote (snd (uploadToTodoist recovering_remote inbox_world))) = []"
proof -
  have d1: "distinct (map p_id (projects inbox_world))" by code_simp
  have d2: "distinct (map t_id (tasks inbox_world))" by code_simp
  have k0: "0 < length (pendingProjects inbox_world)" by code_simp
  have p0: "pendingProjects inbox_world ! 0 = inbox" by code_simp
  have t0: "fst (upload_project_try recovering_remote (pendingProjects inbox_world ! 0)
               (before_project recovering_remote inbox_world 0)) = Some (Error ''timeout'')"
    by code_simp
  have i0: "p_id inbox = ''p1''" by code_simp
  note T = failed_push_changes_status_only [OF d1 d2, of recovering_remote recovering_remote,
      THEN conjunct1, rule_format, OF k0 t0, unfolded p0 i0]
  show ?thesis using d1 d2 T by simp
qed

text \<open>
  The claim as first stated promises a retry on the next pass. On the example the remote
  times out once and would accept the creation afterwards, but the second pass sends no
  request and returns no result: the project stays in \<open>ERROR\<close>.
\<close>

theorem failed_push_retried_counterexample:
  "map p_syncStatus (projects (snd (uploadToTodoist recovering_remote inbox_world))) = [ERROR] \<and>
   addProject recovering_remote
     (requests (snd (uploadToTodoist recovering_remote inbox_world))) ''Inbox'' = Inr ''R1'' \<and>
   fst (uploadToTodoist recovering_remote (snd (uploadToTodoist recovering_remote inbox_world))) =
     Inr [] \<and>
   requests (snd (uploadToTodoist recovering_remote
                    (snd (uploadToTodoist recovering_remote inbox_world)))) =
     requests (snd (uploadToTodoist recovering_remote inbox_world)) \<and>
   map p_syncStatus
     (projects (snd (uploadToTodoist recovering_remote
                       (snd (uploadToTodoist recovering_remote inbox_world))))) = [ERROR]"
  by code_simp

subsection \<open>Order inside a push pass and the skipped tasks\<close>

text \<open>
  C2, as amended. In one pass every pending project is processed before any pending
  task: the result records of the pending projects come first, in scan order, and only
  task records follow; the requests of the pass are one project request for each pending
  project followed by task requests only; and no task row changes while the projects are
  processed. A pending task whose project holds no truthy remote id when the tasks are
  scanned (that is, after the project loop) is not attempted: its iteration sends no
  request and writes nothing, the pass has no result record and no log row for it, and
  its row, still \<open>PENDING_UPLOAD\<close>, is unchanged when the pass ends. The task keys are
  unique.
\<close>

theorem push_order_and_skip:
  assumes "distinct (map t_id (tasks w))"
  shows
    "take (length (pendingProjects w)) (map r_entity (pass_results api w)) =
       map (\<lambda>p. (Project_entity, p_id p)) (pendingProjects w) \<and>
     list_all (\<lambda>e. fst e = Task_entity)
       (drop (length (pendingProjects w)) (map r_entity (pass_results api w))) \<and>
     new_requests w (snd (uploadToTodoist api w)) =
       new_requests w (after_projects api w) @
       new_requests (after_projects api w) (snd (uploadToTodoist api w)) \<and>
     list_all project_request (new_requests w (after_projects api w)) \<and>
     length (new_requests w (after_projects api w)) = length (pendingProjects w) \<and>
     list_all task_request (new_requests (after_projects api w) (snd (uploadToTodoist api w))) \<and>
     tasks (after_projects api w) = tasks w \<and>
     (\<forall>t\<in>set (tasks w). t_syncStatus t = PENDING_UPLOAD \<longrightarrow>
        (\<forall>pr. find_project (t_projectId t) (projects (after_projects api w)) = Some pr \<longrightarrow>
              \<not> truthy (p_todoistId pr) \<longrightarrow>
                find_task (t_id t) (tasks (snd (uploadToTodoist api w))) = Some t \<and>
                results_of Task_entity (t_id t) (pass_results api w) = [] \<and>
                logs_of Task_entity (t_id t) (new_logs w (snd (uploadToTodoist api w))) = [] \<and>
                (\<forall>w0. upload_task api (t, Some pr) w0 = ([], w0))))"
proof (intro conjI ballI allI impI)
  have e: "map r_entity (pass_results api w) =
      map (\<lambda>p. (Project_entity, p_id p)) (pendingProjects w) @
      map r_entity (fst (upload_tasks api (pendingTasks (after_projects api w)) (after_projects api w)))"
    by (simp add: pass_results_eq upload_projects_entities)
  show "take (length (pendingProjects w)) (map r_entity (pass_results api w)) =
       map (\<lambda>p. (Project_entity, p_id p)) (pendingProjects w)"
    unfolding e by simp
  show "list_all (\<lambda>e. fst e = Task_entity)
       (drop (length (pendingProjects w)) (map r_entity (pass_results api w)))"
    unfolding e using pass_result_kinds [of api w] by (simp add: list_all_iff)
  show "new_requests w (snd (uploadToTodoist api w)) =
       new_requests w (after_projects api w) @
       new_requests (after_projects api w) (snd (uploadToTodoist api w))"
    using pass_requests by blast
  show "list_all project_request (new_requests w (after_projects api w))"
    using pass_requests by blast
  show "length (new_requests w (after_projects api w)) = length (pendingProjects w)"
    using pass_requests by blast
  show "list_all task_request (new_requests (after_projects api w) (snd (uploadToTodoist api w)))"
    using pass_requests by blast
  show "tasks (after_projects api w) = tasks w" by simp
next
  fix t pr
  assume t: "t \<in> set (tasks w)" "t_syncStatus t = PENDING_UPLOAD"
    and pr: "find_project (t_projectId t) (projects (after_projects api w)) = Some pr"
      "\<not> truthy (p_todoistId pr)"
  define T where "T = pendingTasks (after_projects api w)"
  have "(t, Some pr) \<in> set T"
    using t pr(1) by (auto simp: T_def pendingTasks_def)
  then obtain k where k: "k < length T" "T ! k = (t, Some pr)"
    by (auto simp: in_set_conv_nth)
  have ne: "\<not> eligible (T ! k)" using k(2) pr(2) by (simp add: eligible_def)
  note r = pass_task(3) [OF assms k(1) [unfolded T_def] ne [unfolded T_def],
      unfolded T_def [symmetric] k(2), simplified]
  show "find_task (t_id t) (tasks (snd (uploadToTodoist api w))) = Some t" using r by blast
  show "results_of Task_entity (t_id t) (pass_results api w) = []" using r by blast
  show "logs_of Task_entity (t_id t) (new_logs w (snd (uploadToTodoist api w))) = []"
    using r by blast
  fix w0
  show "upload_task api (t, Some pr) w0 = ([], w0)"
    using pr(2) by (intro upload_task_skips) (simp add: eligible_def)
qed

theorem push_order_and_skip_witness:
  "distinct (map t_id (tasks local_world)) \<and> buy_milk \<in> set (tasks local_world) \<and>
   t_syncStatus buy_milk = PENDING_UPLOAD \<and>
   find_project (t_projectId buy_milk) (projects (after_projects inbox_down local_world)) =
     Some (inbox\<lparr>p_syncStatus := ERROR\<rparr>) \<and>
   \<not> truthy (p_todoistId (inbox\<lparr>p_syncStatus := ERROR\<rparr>)) \<and>
   find_task (t_id buy_milk) (tasks (snd (uploadToTodoist inbox_down local_world))) =
     Some buy_milk \<and>
   results_of Task_entity (t_id buy_milk) (pass_results inbox_down local_world) = [] \<and>
   list_all project_request (new_requests local_world (after_projects inbox_down local_world))"
proof -
  have d: "distinct (map t_id (tasks local_world))" by code_simp
  have m: "buy_milk \<in> set (tasks local_world)" by code_simp
  have s: "t_syncStatus buy_milk = PENDING_UPLOAD" by code_simp
  have f: "find_project (t_projectId buy_milk) (projects (after_projects inbox_down local_world)) =
     Some (inbox\<lparr>p_syncStatus := ERROR\<rparr>)" by code_simp
  have n: "\<not> truthy (p_todoistId (inbox\<lparr>p_syncStatus := ERROR\<rparr>))" by code_simp
  note T = push_order_and_skip [OF d, of inbox_down]
  note c4 = T [THEN conjunct2, THEN conjunct2, THEN conjunct2, THEN conjunct1]
  note c8 = T [THEN conjunct2, THEN conjunct2, THEN conjunct2, THEN conjunct2, THEN conjunct2,
      THEN conjunct2, THEN conjunct2, rule_format, OF m s f n]
  show ?thesis using d m s f n c4 c8 by simp
qed

text \<open>
  The claim as first stated keys the guard on the project's \<open>syncStatus\<close>. The code keys it
  on the remote id: a pending task of a project that is in \<open>ERROR\<close> but holds a remote id
  is attempted and ends \<open>SYNCED\<close>, while its project stays in \<open>ERROR\<close>.
\<close>

theorem push_skip_by_status_counterexample:
  "p_syncStatus home = ERROR \<and> p_todoistId home = Some ''R9'' \<and>
   t_syncStatus water_plants = PENDING_UPLOAD \<and> t_projectId water_plants = p_id home \<and>
   fst (uploadToTodoist always_up home_world) =
     Inr [UploadResult Task_entity act_uploaded ''t2'' None] \<and>
   map t_syncStatus (tasks (snd (uploadToTodoist always_up home_world))) = [SYNCED] \<and>
   map p_syncStatus (projects (snd (uploadToTodoist always_up home_world))) = [ERROR] \<and>
   length (requests (snd (uploadToTodoist always_up home_world))) = 1"
  by code_simp

subsection \<open>The summary of a push-only sync\<close>

text \<open>
  C10. With a token configured, a \<open>TO_TODOIST\<close> request succeeds with the results of the
  push pass, and its summary reports \<open>created = 0\<close> and \<open>updated = 0\<close> however many
  entities were uploaded: every record of the pass has the action \<open>uploaded\<close> or
  \<open>error\<close>, so the uploads show only in \<open>total\<close> (\<open>total\<close> is the number of uploaded
  records plus the number of error records). For every direction the summary counts
  the records whose action is exactly \<open>created\<close>, \<open>updated\<close> and \<open>error\<close>.
\<close>

theorem push_only_summary:
  assumes "truthy todoistToken"
  shows
    "sync_route todoistToken TO_TODOIST entityType api w =
       (SyncSuccess TO_TODOIST entityType (pass_results api w)
          \<lparr>sm_total = length (pass_results api w), sm_created = 0, sm_updated = 0,
           sm_errors = length (filter (\<lambda>r. r_action r = act_error) (pass_results api w))\<rparr>,
        snd (uploadToTodoist api w)) \<and>
     fst (uploadToTodoist api w) = Inr (pass_results api w) \<and>
     length (filter (\<lambda>r. r_action r = act_uploaded) (pass_results api w)) +
     length (filter (\<lambda>r. r_action r = act_error) (pass_results api w)) =
       length (pass_results api w) \<and>
     (\<forall>direction results summary w'.
        sync_route todoistToken direction entityType api w =
          (SyncSuccess direction entityType results summary, w') \<longrightarrow>
        sm_total summary = length results \<and>
        sm_created summary = length (filter (\<lambda>r. r_action r = act_created) results) \<and>
        sm_updated summary = length (filter (\<lambda>r. r_action r = act_updated) results) \<and>
        sm_errors summary = length (filter (\<lambda>r. r_action r = act_error) results))"
proof (intro conjI allI impI)
  have c: "count_action act_created (pass_results api w) = 0"
    using pass_actions [of api w] by (intro count_action_none) auto
  have u: "count_action act_updated (pass_results api w) = 0"
    using pass_actions [of api w] by (intro count_action_none) auto
  show "sync_route todoistToken TO_TODOIST entityType api w =
       (SyncSuccess TO_TODOIST entityType (pass_results api w)
          \<lparr>sm_total = length (pass_results api w), sm_created = 0, sm_updated = 0,
           sm_errors = length (filter (\<lambda>r. r_action r = act_error) (pass_results api w))\<rparr>,
        snd (uploadToTodoist api w))"
    using assms c u by (simp add: sync_route_def run_direction_push) (simp add: count_action_def)
  show "fst (uploadToTodoist api w) = Inr (pass_results api w)" by (rule pass_returns)
  show "length (filter (\<lambda>r. r_action r = act_uploaded) (pass_results api w)) +
     length (filter (\<lambda>r. r_action r = act_error) (pass_results api w)) =
       length (pass_results api w)"
    using count_two_actions [OF pass_actions [of api w]]
    by (simp add: count_action_def)
next
  fix direction results summary w'
  assume r: "sync_route todoistToken direction entityType api w =
          (SyncSuccess direction entityType results summary, w')"
  then have "summary = \<lparr>sm_total = length results,
                 sm_created = count_action act_created results,
                 sm_updated = count_action act_updated results,
                 sm_errors = count_action act_error results\<rparr>"
    using assms by (auto simp: sync_route_def split: prod.splits sum.splits)
  then show "sm_total summary = length results"
    and "sm_created summary = length (filter (\<lambda>r. r_action r = act_created) results)"
    and "sm_updated summary = length (filter (\<lambda>r. r_action r = act_updated) results)"
    and "sm_errors summary = length (filter (\<lambda>r. r_action r = act_error) results)"
    by (simp_all add: count_action_def)
qed

theorem push_only_summary_witness:
  "truthy (Some ''token'') \<and>
   sync_route (Some ''token'') TO_TODOIST all_kind always_up local_world =
     (SyncSuccess TO_TODOIST all_kind (pass_results always_up local_world)
        \<lparr>sm_total = 3, sm_created = 0, sm_updated = 0, sm_errors = 0\<rparr>,
      snd (uploadToTodoist always_up local_world)) \<and>
   length (filter (\<lambda>r. r_action r = act_uploaded) (pass_results always_up local_world)) = 3"
proof -
  have t: "truthy (Some ''token'')" by code_simp
  have n: "length (pass_results always_up local_world) = 3" by code_simp
  have e: "length (filter (\<lambda>r. r_action r = act_error) (pass_results always_up local_world)) = 0"
    by code_simp
  note T = push_only_summary [OF t, of all_kind always_up local_world]
  show ?thesis using t T n e by simp
qed

subsection \<open>Pulling projects\<close>

text \<open>
  C5. The claim holds of every listing but one kind: a listed project unknown locally
  whose colour is a name inherited from \<open>Object.prototype\<close> makes the pull throw.

  When the remote answers the listing request with a list of projects (bare or under
  \<open>results\<close>), \<open>syncProjectsFromTodoist\<close> sends that one request, touches no task and
  deletes no project: the keys of the projects held before are still the first keys of
  the table. The colour table maps the fourteen names and ten legacy codes as listed,
  and every other colour that is not an inherited name to \<open>blue\<close>.

  If no listed colour is an inherited name, the pull returns one result per listed
  project, in order. For the \<open>k\<close>-th listed project, in the store as the projects
  before it left it: if a local project holds its remote id, every row with that
  project's key gets the listed name and \<open>SYNCED\<close> and is otherwise unchanged, a log
  row \<open>UPDATE\<close>/\<open>FROM_TODOIST\<close> is appended and the result is \<open>updated\<close> with the
  new row; otherwise a new project is appended with the listed name, the mapped colour,
  the remote id and \<open>SYNCED\<close>, a log row \<open>CREATE\<close>/\<open>FROM_TODOIST\<close> is appended and
  the result is \<open>created\<close>. The remote ids held locally afterwards are those held
  before and those listed, and the \<open>k\<close>-th result is \<open>updated\<close> exactly when its remote
  id was held before the pass or is listed earlier.

  If the \<open>k\<close>-th listed colour is an inherited name, the colours before it are not, and
  its remote id is neither held locally nor listed earlier, the pull throws the store's
  validation error: the projects before it are processed, this one and all after it are
  not.
\<close>

theorem pullProjects_semantics:
  assumes "getProjects api (requests w) = Inr (ArrayResponse xs) \<or>
           getProjects api (requests w) = Inr (ResultsResponse xs)"
  shows
    "snd (syncProjectsFromTodoist api w) = before_pull xs w (length xs) \<and>
     requests (snd (syncProjectsFromTodoist api w)) = requests w @ [GetProjects] \<and>
     tasks (snd (syncProjectsFromTodoist api w)) = tasks w \<and>
     take (length (projects w)) (map p_id (projects (snd (syncProjectsFromTodoist api w)))) =
       map p_id (projects w) \<and>
     map mapTodoistColor
       [''berry_red'', ''red'', ''orange'', ''yellow'', ''olive_green'', ''green'', ''teal'',
        ''blue'', ''purple'', ''pink'', ''brown'', ''gray'', ''charcoal'', ''grey'',
        ''30'', ''31'', ''32'', ''33'', ''34'', ''35'', ''36'', ''37'', ''38'', ''39''] =
     map LocalColor
       [''red'', ''red'', ''orange'', ''yellow'', ''green'', ''green'', ''blue'',
        ''blue'', ''purple'', ''purple'', ''gray'', ''gray'', ''gray'', ''gray'',
        ''red'', ''orange'', ''yellow'', ''green'', ''blue'', ''purple'', ''pink'', ''brown'',
        ''gray'', ''gray''] \<and>
     (\<forall>c. c \<notin> fst ` set colorMap \<longrightarrow> c \<notin> set objectPrototype \<longrightarrow>
          mapTodoistColor c = LocalColor ''blue'') \<and>
     ((\<forall>x\<in>set xs. rp_color x \<notin> set objectPrototype) \<longrightarrow>
        (\<exists>rs. fst (syncProjectsFromTodoist api w) = Inr rs \<and> length rs = length xs \<and>
           p_todoistId ` set (projects (snd (syncProjectsFromTodoist api w))) =
             (\<lambda>x. Some (rp_id x)) ` set xs \<union> p_todoistId ` set (projects w) \<and>
           (\<forall>k<length xs.
              r_action (rs ! k) =
                (if Some (rp_id (xs ! k)) \<in>
                      (\<lambda>x. Some (rp_id x)) ` set (take k xs) \<union> p_todoistId ` set (projects w)
                 then act_updated else act_created) \<and>
              (case find_project_by_todoistId (rp_id (xs ! k)) (projects (before_pull xs w k)) of
                 Some existingProject \<Rightarrow>
                   rs ! k = ProjectResult act_updated
                     (existingProject\<lparr>p_name := rp_name (xs ! k), p_syncStatus := SYNCED\<rparr>) \<and>
                   projects (before_pull xs w (Suc k)) =
                     map (\<lambda>p. if p_id p = p_id existingProject
                               then p\<lparr>p_name := rp_name (xs ! k), p_syncStatus := SYNCED\<rparr>
                               else p)
                       (projects (before_pull xs w k)) \<and>
                   syncLogs (before_pull xs w (Suc k)) =
                     syncLogs (before_pull xs w k) @
                     [\<lparr>l_entityType = Project_entity, l_entityId = p_id existingProject,
                       l_action = UPDATE, l_direction = FROM_TODOIST,
                       l_todoistId = Some (rp_id (xs ! k)), l_errorMessage = None,
                       l_projectId = Some (p_id existingProject), l_taskId = None\<rparr>]
               | None \<Rightarrow>
                   (\<exists>color. mapTodoistColor (rp_color (xs ! k)) = LocalColor color \<and>
                      rs ! k = ProjectResult act_created
                        \<lparr>p_id = fresh_id (map p_id (projects (before_pull xs w k))),
                         p_name = rp_name (xs ! k), p_color = color,
                         p_todoistId = Some (rp_id (xs ! k)), p_syncStatus = SYNCED\<rparr> \<and>
                      projects (before_pull xs w (Suc k)) =
                        projects (before_pull xs w k) @
                        [\<lparr>p_id = fresh_id (map p_id (projects (before_pull xs w k))),
                          p_name = rp_name (xs ! k), p_color = color,
                          p_todoistId = Some (rp_id (xs ! k)), p_syncStatus = SYNCED\<rparr>] \<and>
                      syncLogs (before_pull xs w (Suc k)) =
                        syncLogs (before_pull xs w k) @
                        [\<lparr>l_entityType = Project_entity,
                          l_entityId = fresh_id (map p_id (projects (before_pull xs w k))),
                          l_action = CREATE, l_direction = FROM_TODOIST,
                          l_todoistId = Some (rp_id (xs ! k)), l_errorMessage = None,
                          l_projectId =
                            Some (fresh_id (map p_id (projects (before_pull xs w k)))),
                          l_taskId = None\<rparr>]))))) \<and>
     (\<forall>k<length xs.
        (\<forall>x\<in>set (take k xs). rp_color x \<notin> set objectPrototype) \<longrightarrow>
        rp_color (xs ! k) \<in> set objectPrototype \<longrightarrow>
        Some (rp_id (xs ! k)) \<notin>
          (\<lambda>x. Some (rp_id x)) ` set (take k xs) \<union> p_todoistId ` set (projects w) \<longrightarrow>
          syncProjectsFromTodoist api w = (Inl invalid_color, before_pull xs w k))"
proof -
  note l = syncProjects_listing [OF assms]
  have p1: "snd (syncProjectsFromTodoist api w) = before_pull xs w (length xs)"
    by (simp add: l before_pull_def)
  have p2: "requests (snd (syncProjectsFromTodoist api w)) = requests w @ [GetProjects]"
    by simp
  have p3: "tasks (snd (syncProjectsFromTodoist api w)) = tasks w"
    by (simp add: l)
  have p4: "take (length (projects w)) (map p_id (projects (snd (syncProjectsFromTodoist api w)))) =
       map p_id (projects w)"
    using pull_projects_keeps [of "sent GetProjects w" xs] by (simp add: l)
  have p5: "\<forall>c. c \<notin> fst ` set colorMap \<longrightarrow> c \<notin> set objectPrototype \<longrightarrow>
          mapTodoistColor c = LocalColor ''blue''"
    by (simp add: mapTodoistColor_unknown)
  have p6: "\<exists>rs. fst (syncProjectsFromTodoist api w) = Inr rs \<and> length rs = length xs \<and>
           p_todoistId ` set (projects (snd (syncProjectsFromTodoist api w))) =
             (\<lambda>x. Some (rp_id x)) ` set xs \<union> p_todoistId ` set (projects w) \<and>
           (\<forall>k<length xs.
              r_action (rs ! k) =
                (if Some (rp_id (xs ! k)) \<in>
                      (\<lambda>x. Some (rp_id x)) ` set (take k xs) \<union> p_todoistId ` set (projects w)
                 then act_updated else act_created) \<and>
              (case find_project_by_todoistId (rp_id (xs ! k)) (projects (before_pull xs w k)) of
                 Some existingProject \<Rightarrow>
                   rs ! k = ProjectResult act_updated
                     (existingProject\<lparr>p_name := rp_name (xs ! k), p_syncStatus := SYNCED\<rparr>) \<and>
                   projects (before_pull xs w (Suc k)) =
                     map (\<lambda>p. if p_id p = p_id existingProject
                               then p\<lparr>p_name := rp_name (xs ! k), p_syncStatus := SYNCED\<rparr>
                               else p)
                       (projects (before_pull xs w k)) \<and>
                   syncLogs (before_pull xs w (Suc k)) =
                     syncLogs (before_pull xs w k) @
                     [\<lparr>l_entityType = Project_entity, l_entityId = p_id existingProject,
                       l_action = UPDATE, l_direction = FROM_TODOIST,
                       l_todoistId = Some (rp_id (xs ! k)), l_errorMessage = None,
                       l_projectId = Some (p_id existingProject), l_taskId = None\<rparr>]
               | None \<Rightarrow>
                   (\<exists>color. mapTodoistColor (rp_color (xs ! k)) = LocalColor color \<and>
                      rs ! k = ProjectResult act_created
                        \<lparr>p_id = fresh_id (map p_id (projects (before_pull xs w k))),
                         p_name = rp_name (xs ! k), p_color = color,
                         p_todoistId = Some (rp_id (xs ! k)), p_syncStatus = SYNCED\<rparr> \<and>
                      projects (before_pull xs w (Suc k)) =
                        projects (before_pull xs w k) @
                        [\<lparr>p_id = fresh_id (map p_id (projects (before_pull xs w k))),
                          p_name = rp_name (xs ! k), p_color = color,
                          p_todoistId = Some (rp_id (xs ! k)), p_syncStatus = SYNCED\<rparr>] \<and>
                      syncLogs (before_pull xs w (Suc k)) =
                        syncLogs (before_pull xs w k) @
                        [\<lparr>l_entityType = Project_entity,
                          l_entityId = fresh_id (map p_id (projects (before_pull xs w k))),
                          l_action = CREATE, l_direction = FROM_TODOIST,
                          l_todoistId = Some (rp_id (xs ! k)), l_errorMessage = None,
                          l_projectId =
                            Some (fresh_id (map p_id (projects (before_pull xs w k)))),
                          l_taskId = None\<rparr>])))"
    if c: "\<forall>x\<in>set xs. rp_color x \<notin> set objectPrototype"
  proof -
    obtain rs where rs: "fst (pull_projects xs (sent GetProjects w)) = Inr rs"
        "length rs = length xs"
      using pull_projects_returns [OF c] by blast
    have ids: "p_todoistId ` set (projects (snd (syncProjectsFromTodoist api w))) =
             (\<lambda>x. Some (rp_id x)) ` set xs \<union> p_todoistId ` set (projects w)"
      using pull_projects_todoistIds [OF rs(1)] by (simp add: l)
    show ?thesis
    proof (intro exI [of _ rs] conjI allI impI)
      show "fst (syncProjectsFromTodoist api w) = Inr rs" by (simp add: l rs)
      show "length rs = length xs" by (rule rs(2))
      show "p_todoistId ` set (projects (snd (syncProjectsFromTodoist api w))) =
             (\<lambda>x. Some (rp_id x)) ` set xs \<union> p_todoistId ` set (projects w)" by (rule ids)
    next
      fix k
      assume k: "k < length xs"
      show "r_action (rs ! k) =
                (if Some (rp_id (xs ! k)) \<in>
                      (\<lambda>x. Some (rp_id x)) ` set (take k xs) \<union> p_todoistId ` set (projects w)
                 then act_updated else act_created)"
        using pull_projects_action_nth [OF c k rs(1)] by simp
    next
      fix k
      assume k: "k < length xs"
      from pull_step [OF c k rs(1)]
      show "(case find_project_by_todoistId (rp_id (xs ! k)) (projects (before_pull xs w k)) of
                 Some existingProject \<Rightarrow>
                   rs ! k = ProjectResult act_updated
                     (existingProject\<lparr>p_name := rp_name (xs ! k), p_syncStatus := SYNCED\<rparr>) \<and>
                   projects (before_pull xs w (Suc k)) =
                     map (\<lambda>p. if p_id p = p_id existingProject
                               then p\<lparr>p_name := rp_name (xs ! k), p_syncStatus := SYNCED\<rparr>
                               else p)
                       (projects (before_pull xs w k)) \<and>
                   syncLogs (before_pull xs w (Suc k)) =
                     syncLogs (before_pull xs w k) @
                     [\<lparr>l_entityType = Project_entity, l_entityId = p_id existingProject,
                       l_action = UPDATE, l_direction = FROM_TODOIST,
                       l_todoistId = Some (rp_id (xs ! k)), l_errorMessage = None,
                       l_projectId = Some (p_id existingProject), l_taskId = None\<rparr>]
               | None \<Rightarrow>
                   (\<exists>color. mapTodoistColor (rp_color (xs ! k)) = LocalColor color \<and>
                      rs ! k = ProjectResult act_created
                        \<lparr>p_id = fresh_id (map p_id (projects (before_pull xs w k))),
                         p_name = rp_name (xs ! k), p_color = color,
                         p_todoistId = Some (rp_id (xs ! k)), p_syncStatus = SYNCED\<rparr> \<and>
                      projects (before_pull xs w (Suc k)) =
                        projects (before_pull xs w k) @
                        [\<lparr>p_id = fresh_id (map p_id (projects (before_pull xs w k))),
                          p_name = rp_name (xs ! k), p_color = color,
                          p_todoistId = Some (rp_id (xs ! k)), p_syncStatus = SYNCED\<rparr>] \<and>
                      syncLogs (before_pull xs w (Suc k)) =
                        syncLogs (before_pull xs w k) @
                        [\<lparr>l_entityType = Project_entity,
                          l_entityId = fresh_id (map p_id (projects (before_pull xs w k))),
                          l_action = CREATE, l_direction = FROM_TODOIST,
                          l_todoistId = Some (rp_id (xs ! k)), l_errorMessage = None,
                          l_projectId =
                            Some (fresh_id (map p_id (projects (before_pull xs w k)))),
                          l_taskId = None\<rparr>]))" .
    qed
  qed
  have p7: "syncProjectsFromTodoist api w = (Inl invalid_color, before_pull xs w k)"
    if k: "k < length xs" and ct: "\<forall>x\<in>set (take k xs). rp_color x \<notin> set objectPrototype"
      and i: "rp_color (xs ! k) \<in> set objectPrototype"
      and n: "Some (rp_id (xs ! k)) \<notin>
          (\<lambda>x. Some (rp_id x)) ` set (take k xs) \<union> p_todoistId ` set (projects w)" for k
  proof -
    obtain ra where ra: "fst (pull_projects (take k xs) (sent GetProjects w)) = Inr ra"
      using pull_projects_returns [OF ct] by blast
    have "Some (rp_id (xs ! k)) \<notin>
        p_todoistId ` set (projects (snd (pull_projects (take k xs) (sent GetProjects w))))"
      using n unfolding pull_projects_todoistIds [OF ra] by simp
    then have f: "find_project_by_todoistId (rp_id (xs ! k))
        (projects (snd (pull_projects (take k xs) (sent GetProjects w)))) = None"
      by (simp add: find_by_todoistId_None)
    show ?thesis
      unfolding l before_pull_def by (rule pull_projects_throws_at [OF ct k f i])
  qed
  show ?thesis
    using p1 p2 p3 p4 colorMap_entries p5 p6 p7 by blast
qed


theorem pullProjects_semantics_witness:
  "getProjects palette_remote (requests renamed_world) =
     Inr (ResultsResponse
       [\<lparr>rp_id = ''R4'', rp_name = ''Chores'', rp_color = ''yellow''\<rparr>,
        \<lparr>rp_id = ''R7'', rp_name = ''Reading'', rp_color = ''berry_red''\<rparr>,
        \<lparr>rp_id = ''R8'', rp_name = ''Travel'', rp_color = ''31''\<rparr>,
        \<lparr>rp_id = ''R9'', rp_name = ''Misc'', rp_color = ''lavender''\<rparr>]) \<and>
   syncProjectsFromTodoist palette_remote renamed_world =
     (Inr [ProjectResult act_updated
             \<lparr>p_id = ''p4'', p_name = ''Chores'', p_color = ''yellow'',
              p_todoistId = Some ''R4'', p_syncStatus = SYNCED\<rparr>,
           ProjectResult act_created
             \<lparr>p_id = ''ccc'', p_name = ''Reading'', p_color = ''red'',
              p_todoistId = Some ''R7'', p_syncStatus = SYNCED\<rparr>,
           ProjectResult act_created
             \<lparr>p_id = ''cccc'', p_name = ''Travel'', p_color = ''orange'',
              p_todoistId = Some ''R8'', p_syncStatus = SYNCED\<rparr>,
           ProjectResult act_created
             \<lparr>p_id = ''ccccc'', p_name = ''Misc'', p_color = ''blue'',
              p_todoistId = Some ''R9'', p_syncStatus = SYNCED\<rparr>],
      \<lparr>projects =
         [\<lparr>p_id = ''p4'', p_name = ''Chores'', p_color = ''yellow'',
           p_todoistId = Some ''R4'', p_syncStatus = SYNCED\<rparr>,
          \<lparr>p_id = ''ccc'', p_name = ''Reading'', p_color = ''red'',
           p_todoistId = Some ''R7'', p_syncStatus = SYNCED\<rparr>,
          \<lparr>p_id = ''cccc'', p_name = ''Travel'', p_color = ''orange'',
           p_todoistId = Some ''R8'', p_syncStatus = SYNCED\<rparr>,
          \<lparr>p_id = ''ccccc'', p_name = ''Misc'', p_color = ''blue'',
           p_todoistId = Some ''R9'', p_syncStatus = SYNCED\<rparr>],
       tasks = [],
       syncLogs =
         [\<lparr>l_entityType = Project_entity, l_entityId = ''p4'', l_action = UPDATE,
           l_direction = FROM_TODOIST, l_todoistId = Some ''R4'', l_errorMessage = None,
           l_projectId = Some ''p4'', l_taskId = None\<rparr>,
          \<lparr>l_entityType = Project_entity, l_entityId = ''ccc'', l_action = CREATE,
           l_direction = FROM_TODOIST, l_todoistId = Some ''R7'', l_errorMessage = None,
           l_projectId = Some ''ccc'', l_taskId = None\<rparr>,
          \<lparr>l_entityType = Project_entity, l_entityId = ''cccc'', l_action = CREATE,
           l_direction = FROM_TODOIST, l_todoistId = Some ''R8'', l_errorMessage = None,
           l_projectId = Some ''cccc'', l_taskId = None\<rparr>,
          \<lparr>l_entityType = Project_entity, l_entityId = ''ccccc'', l_action = CREATE,
           l_direction = FROM_TODOIST, l_todoistId = Some ''R9'', l_errorMessage = None,
           l_projectId = Some ''ccccc'', l_taskId = None\<rparr>],
       requests = [GetProjects]\<rparr>) \<and>
   getProjects inherited_remote (requests renamed_world) =
     Inr (ArrayResponse
       [\<lparr>rp_id = ''R4'', rp_name = ''Chores'', rp_color = ''yellow''\<rparr>,
        \<lparr>rp_id = ''R6'', rp_name = ''Builder'', rp_color = ''constructor''\<rparr>,
        \<lparr>rp_id = ''R7'', rp_name = ''Reading'', rp_color = ''berry_red''\<rparr>]) \<and>
   ''constructor'' \<in> set objectPrototype \<and>
   syncProjectsFromTodoist inherited_remote renamed_world =
     (Inl invalid_color,
      \<lparr>projects =
         [\<lparr>p_id = ''p4'', p_name = ''Chores'', p_color = ''yellow'',
           p_todoistId = Some ''R4'', p_syncStatus = SYNCED\<rparr>],
       tasks = [],
       syncLogs =
         [\<lparr>l_entityType = Project_entity, l_entityId = ''p4'', l_action = UPDATE,
           l_direction = FROM_TODOIST, l_todoistId = Some ''R4'', l_errorMessage = None,
           l_projectId = Some ''p4'', l_taskId = None\<rparr>],
       requests = [GetProjects]\<rparr>)"
proof -
  define xs where "xs =
       [\<lparr>rp_id = ''R4'', rp_name = ''Chores'', rp_color = ''yellow''\<rparr>,
        \<lparr>rp_id = ''R7'', rp_name = ''Reading'', rp_color = ''berry_red''\<rparr>,
        \<lparr>rp_id = ''R8'', rp_name = ''Travel'', rp_color = ''31''\<rparr>,
        \<lparr>rp_id = ''R9'', rp_name = ''Misc'', rp_color = ''lavender''\<rparr>]"
  define ys where "ys =
       [\<lparr>rp_id = ''R4'', rp_name = ''Chores'', rp_color = ''yellow''\<rparr>,
        \<lparr>rp_id = ''R6'', rp_name = ''Builder'', rp_color = ''constructor''\<rparr>,
        \<lparr>rp_id = ''R7'', rp_name = ''Reading'', rp_color = ''berry_red''\<rparr>]"
  have h1: "getProjects palette_remote (requests renamed_world) = Inr (ResultsResponse xs)"
    unfolding xs_def by code_simp
  have h2: "getProjects inherited_remote (requests renamed_world) = Inr (ArrayResponse ys)"
    unfolding ys_def by code_simp
  have c1: "\<forall>x\<in>set xs. rp_color x \<notin> set objectPrototype"
    unfolding xs_def by code_simp
  note T1 = pullProjects_semantics [OF disjI2 [OF h1]]
  note T2 = pullProjects_semantics [OF disjI1 [OF h2]]
  have w1: "snd (syncProjectsFromTodoist palette_remote renamed_world) =
      before_pull xs renamed_world (length xs)"
    by (rule T1 [THEN conjunct1])
  from T1 c1 obtain rs where
    rs: "fst (syncProjectsFromTodoist palette_remote renamed_world) = Inr rs" by blast
  have k: "1 < length ys" unfolding ys_def by simp
  have ct: "\<forall>x\<in>set (take 1 ys). rp_color x \<notin> set objectPrototype"
    unfolding ys_def by code_simp
  have i: "rp_color (ys ! 1) \<in> set objectPrototype"
    unfolding ys_def by code_simp
  have n: "Some (rp_id (ys ! 1)) \<notin>
          (\<lambda>x. Some (rp_id x)) ` set (take 1 ys) \<union> p_todoistId ` set (projects renamed_world)"
    unfolding ys_def by code_simp
  have t: "syncProjectsFromTodoist inherited_remote renamed_world =
      (Inl invalid_color, before_pull ys renamed_world 1)"
    using T2 k ct i n by blast
  have e1: "fst (syncProjectsFromTodoist palette_remote renamed_world) =
     Inr [ProjectResult act_updated
             \<lparr>p_id = ''p4'', p_name = ''Chores'', p_color = ''yellow'',
              p_todoistId = Some ''R4'', p_syncStatus = SYNCED\<rparr>,
           ProjectResult act_created
             \<lparr>p_id = ''ccc'', p_name = ''Reading'', p_color = ''red'',
              p_todoistId = Some ''R7'', p_syncStatus = SYNCED\<rparr>,
           ProjectResult act_created
             \<lparr>p_id = ''cccc'', p_name = ''Travel'', p_color = ''orange'',
              p_todoistId = Some ''R8'', p_syncStatus = SYNCED\<rparr>,
           ProjectResult act_created
             \<lparr>p_id = ''ccccc'', p_name = ''Misc'', p_color = ''blue'',
              p_todoistId = Some ''R9'', p_syncStatus = SYNCED\<rparr>]"
    by code_simp
  have e2: "before_pull xs renamed_world (length xs) =
      \<lparr>projects =
         [\<lparr>p_id = ''p4'', p_name = ''Chores'', p_color = ''yellow'',
           p_todoistId = Some ''R4'', p_syncStatus = SYNCED\<rparr>,
          \<lparr>p_id = ''ccc'', p_name = ''Reading'', p_color = ''red'',
           p_todoistId = Some ''R7'', p_syncStatus = SYNCED\<rparr>,
          \<lparr>p_id = ''cccc'', p_name = ''Travel'', p_color = ''orange'',
           p_todoistId = Some ''R8'', p_syncStatus = SYNCED\<rparr>,
          \<lparr>p_id = ''ccccc'', p_name = ''Misc'', p_color = ''blue'',
           p_todoistId = Some ''R9'', p_syncStatus = SYNCED\<rparr>],
       tasks = [],
       syncLogs =
         [\<lparr>l_entityType = Project_entity, l_entityId = ''p4'', l_action = UPDATE,
           l_direction = FROM_TODOIST, l_todoistId = Some ''R4'', l_errorMessage = None,
           l_projectId = Some ''p4'', l_taskId = None\<rparr>,
          \<lparr>l_entityType = Project_entity, l_entityId = ''ccc'', l_action = CREATE,
           l_direction = FROM_TODOIST, l_todoistId = Some ''R7'', l_errorMessage = None,
           l_projectId = Some ''ccc'', l_taskId = None\<rparr>,
          \<lparr>l_entityType = Project_entity, l_entityId = ''cccc'', l_action = CREATE,
           l_direction = FROM_TODOIST, l_todoistId = Some ''R8'', l_errorMessage = None,
           l_projectId = Some ''cccc'', l_taskId = None\<rparr>,
          \<lparr>l_entityType = Project_entity, l_entityId = ''ccccc'', l_action = CREATE,
           l_direction = FROM_TODOIST, l_todoistId = Some ''R9'', l_errorMessage = None,
           l_projectId = Some ''ccccc'', l_taskId = None\<rparr>],
       requests = [GetProjects]\<rparr>"
    unfolding xs_def by code_simp
  have e3: "before_pull ys renamed_world 1 =
      \<lparr>projects =
         [\<lparr>p_id = ''p4'', p_name = ''Chores'', p_color = ''yellow'',
           p_todoistId = Some ''R4'', p_syncStatus = SYNCED\<rparr>],
       tasks = [],
       syncLogs =
         [\<lparr>l_entityType = Project_entity, l_entityId = ''p4'', l_action = UPDATE,
           l_direction = FROM_TODOIST, l_todoistId = Some ''R4'', l_errorMessage = None,
           l_projectId = Some ''p4'', l_taskId = None\<rparr>],
       requests = [GetProjects]\<rparr>"
    unfolding ys_def by code_simp
  have m: "''constructor'' \<in> set objectPrototype" by code_simp
  have "syncProjectsFromTodoist palette_remote renamed_world =
      (fst (syncProjectsFromTodoist palette_remote renamed_world),
       snd (syncProjectsFromTodoist palette_remote renamed_world))" by simp
  then show ?thesis
    unfolding w1 e1 e2 t e3
    using h1 h2 m unfolding xs_def ys_def by simp
qed

subsection \<open>Pulled tasks of unknown projects\<close>

text \<open>
  C6. When the remote answers with a list of tasks, \<open>syncTasksFromTodoist\<close> does not
  fail, and it does exactly what it would do had the tasks whose remote project is
  unknown locally not been listed: such a task has no result record, no log row and no
  effect on the store (its iteration returns the store as it was), and the other listed
  tasks are processed, one result and one log row each. The pass does not change the
  projects, so which tasks are passed over is settled by the store at the start.
\<close>

theorem pullTasks_skips_unresolved:
  assumes "getTasks api (requests w) = Inr (ArrayResponse xs) \<or>
           getTasks api (requests w) = Inr (ResultsResponse xs)"
  shows
    "syncTasksFromTodoist api w =
       (Inr (fst (pull_tasks (filter (resolved w) xs) (sent GetTasks w))),
        snd (pull_tasks (filter (resolved w) xs) (sent GetTasks w))) \<and>
     (\<exists>rs. fst (syncTasksFromTodoist api w) = Inr rs \<and>
           length rs = length (filter (resolved w) xs)) \<and>
     map l_todoistId (new_logs w (snd (syncTasksFromTodoist api w))) =
       map (\<lambda>x. Some (rt_id x)) (filter (resolved w) xs) \<and>
     projects (snd (syncTasksFromTodoist api w)) = projects w \<and>
     (\<forall>x w0. \<not> resolved w0 x \<longrightarrow> pull_task x w0 = ([], w0))"
proof (intro conjI allI impI)
  note l = syncTasks_listing [OF assms]
  have r: "resolved (sent GetTasks w) = resolved w"
    by (rule ext) (simp add: resolved_def)
  have f: "pull_tasks xs (sent GetTasks w) = pull_tasks (filter (resolved w) xs) (sent GetTasks w)"
    using pull_tasks_filter [of xs "sent GetTasks w"] by (simp add: r)
  show "syncTasksFromTodoist api w =
       (Inr (fst (pull_tasks (filter (resolved w) xs) (sent GetTasks w))),
        snd (pull_tasks (filter (resolved w) xs) (sent GetTasks w)))"
    by (simp add: l f)
  show "\<exists>rs. fst (syncTasksFromTodoist api w) = Inr rs \<and>
           length rs = length (filter (resolved w) xs)"
    using pull_tasks_resolved_length [of xs "sent GetTasks w"] by (simp add: l r)
  obtain ls where ls: "syncLogs (snd (pull_tasks xs (sent GetTasks w))) = syncLogs (sent GetTasks w) @ ls"
      "map l_todoistId ls = map (\<lambda>x. Some (rt_id x)) (filter (resolved (sent GetTasks w)) xs)"
    using pull_tasks_logs by blast
  then show "map l_todoistId (new_logs w (snd (syncTasksFromTodoist api w))) =
       map (\<lambda>x. Some (rt_id x)) (filter (resolved w) xs)"
    by (simp add: l r new_logs_def)
  have "projects (snd (pull_tasks ys w0)) = projects w0" for ys w0
    by (induction ys arbitrary: w0) (simp_all add: case_prod_unfold)
  then show "projects (snd (syncTasksFromTodoist api w)) = projects w"
    by (simp add: l)
next
  fix x w0
  assume "\<not> resolved w0 x"
  then show "pull_task x w0 = ([], w0)"
    by (simp add: resolved_def pull_task_unresolved)
qed

theorem pullTasks_skips_unresolved_witness:
  "getTasks listing_remote (requests (snd (syncProjectsFromTodoist listing_remote empty_world))) =
     Inr (ResultsResponse [remote_orphan, remote_report]) \<and>
   filter (resolved (snd (syncProjectsFromTodoist listing_remote empty_world)))
     [remote_orphan, remote_report] = [remote_report] \<and>
   map l_todoistId
     (new_logs (snd (syncProjectsFromTodoist listing_remote empty_world))
        (snd (syncTasksFromTodoist listing_remote
               (snd (syncProjectsFromTodoist listing_remote empty_world))))) = [Some ''T1''] \<and>
   map t_todoistId
     (tasks (snd (syncTasksFromTodoist listing_remote
                    (snd (syncProjectsFromTodoist listing_remote empty_world))))) = [Some ''T1'']"
proof -
  define w where "w = snd (syncProjectsFromTodoist listing_remote empty_world)"
  have h: "getTasks listing_remote (requests w) = Inr (ResultsResponse [remote_orphan, remote_report])"
    unfolding w_def by code_simp
  have h': "getTasks listing_remote (requests w) = Inr (ArrayResponse [remote_orphan, remote_report]) \<or>
      getTasks listing_remote (requests w) = Inr (ResultsResponse [remote_orphan, remote_report])"
    using h by simp
  have f: "filter (resolved w) [remote_orphan, remote_report] = [remote_report]"
    unfolding w_def by code_simp
  have i: "rt_id remote_report = ''T1''" by code_simp
  have t: "map t_todoistId (tasks (snd (pull_tasks [remote_report] (sent GetTasks w)))) = [Some ''T1'']"
    unfolding w_def by code_simp
  note T = pullTasks_skips_unresolved [OF h', unfolded f]
  show ?thesis
    using h f T [THEN conjunct1] T [THEN conjunct2, THEN conjunct2, THEN conjunct1] i t
    unfolding w_def [symmetric] by simp
qed

subsection \<open>Bidirectional sync: push, then the pull sequence\<close>

text \<open>
  C3, as amended. A \<open>BIDIRECTIONAL\<close> run is the push pass followed by the run of
  \<open>FROM_TODOIST\<close> from the store the push left, the results of the push first. Its
  requests are the requests of the push (project and task requests only), then the
  listing of the projects (when projects are asked for), then the listing of the tasks
  (when tasks are asked for and the pull of the projects did not throw): no listing is
  requested before the push has ended, and the projects are listed before the tasks.
  \<open>startAutoSync\<close> leaves the store of the \<open>BIDIRECTIONAL\<close> run for all entity kinds.
  Consequently, with unique project keys, a pending project with no remote id whose
  remote creation returns an id that no other local project holds, holds that id and
  \<open>SYNCED\<close> after the push and still holds them after the pull sequence. The pull
  sequence can change nothing of it but the name, and the name only to one that the
  listing the remote then returns gives for the new id: it leaves the project as the
  push left it when projects are not pulled or that listing does not contain the new id.
\<close>

theorem bidirectional_push_then_pull:
  assumes "distinct (map p_id (projects w))"
  shows
    "run_direction BIDIRECTIONAL et api w =
       (case run_direction FROM_TODOIST et api (snd (uploadToTodoist api w)) of
          (Inl e, w2) \<Rightarrow> (Inl e, w2)
        | (Inr rs, w2) \<Rightarrow> (Inr (pass_results api w @ rs), w2)) \<and>
     new_requests w (snd (run_direction BIDIRECTIONAL et api w)) =
       new_requests w (snd (uploadToTodoist api w)) @
       (if et = tasks_kind then [] else [GetProjects]) @
       (if et = projects_kind \<or>
           (et = all_kind \<and> isl (fst (syncProjectsFromTodoist api (snd (uploadToTodoist api w)))))
        then [] else [GetTasks]) \<and>
     list_all (\<lambda>q. project_request q \<or> task_request q)
       (new_requests w (snd (uploadToTodoist api w))) \<and>
     fst (startAutoSync now api w cs) = snd (run_direction BIDIRECTIONAL all_kind api w) \<and>
     (\<forall>k<length (pendingProjects w). \<forall>newId.
        \<not> truthy (p_todoistId (pendingProjects w ! k)) \<longrightarrow>
        addProject api (requests (before_project api w k)) (p_name (pendingProjects w ! k)) =
          Inr newId \<longrightarrow>
        \<not> project_todoistId_taken newId (p_id (pendingProjects w ! k))
            (projects (before_project api w k)) \<longrightarrow>
          find_project (p_id (pendingProjects w ! k)) (projects (snd (uploadToTodoist api w))) =
            Some ((pendingProjects w ! k)\<lparr>p_todoistId := Some newId, p_syncStatus := SYNCED\<rparr>) \<and>
          (\<exists>n. find_project (p_id (pendingProjects w ! k))
                 (projects (snd (run_direction BIDIRECTIONAL et api w))) =
               Some ((pendingProjects w ! k)
                      \<lparr>p_name := n, p_todoistId := Some newId, p_syncStatus := SYNCED\<rparr>) \<and>
               (n = p_name (pendingProjects w ! k) \<or>
                (\<exists>xs. et \<noteq> tasks_kind \<and>
                   (getProjects api (requests (snd (uploadToTodoist api w))) =
                      Inr (ArrayResponse xs) \<or>
                    getProjects api (requests (snd (uploadToTodoist api w))) =
                      Inr (ResultsResponse xs)) \<and>
                   (\<exists>x\<in>set xs. rp_id x = newId \<and> rp_name x = n)))) \<and>
          (et = tasks_kind \<or>
           (\<forall>xs. getProjects api (requests (snd (uploadToTodoist api w))) = Inr (ArrayResponse xs) \<or>
                 getProjects api (requests (snd (uploadToTodoist api w))) = Inr (ResultsResponse xs) \<longrightarrow>
                 newId \<notin> rp_id ` set xs) \<longrightarrow>
           find_project (p_id (pendingProjects w ! k))
             (projects (snd (run_direction BIDIRECTIONAL et api w))) =
           Some ((pendingProjects w ! k)\<lparr>p_todoistId := Some newId, p_syncStatus := SYNCED\<rparr>)))"
proof (intro conjI allI impI)
  show "run_direction BIDIRECTIONAL et api w =
       (case run_direction FROM_TODOIST et api (snd (uploadToTodoist api w)) of
          (Inl e, w2) \<Rightarrow> (Inl e, w2)
        | (Inr rs, w2) \<Rightarrow> (Inr (pass_results api w @ rs), w2))"
    by (rule run_bidirectional)
  show "new_requests w (snd (run_direction BIDIRECTIONAL et api w)) =
       new_requests w (snd (uploadToTodoist api w)) @
       (if et = tasks_kind then [] else [GetProjects]) @
       (if et = projects_kind \<or>
           (et = all_kind \<and> isl (fst (syncProjectsFromTodoist api (snd (uploadToTodoist api w)))))
        then [] else [GetTasks])"
    unfolding run_bidirectional_world new_requests_def [of w "snd (run_direction _ _ _ _)"]
      run_pull_requests
    by (subst pass_requests_ext) simp
  show "list_all (\<lambda>q. project_request q \<or> task_request q)
       (new_requests w (snd (uploadToTodoist api w)))"
    by (rule pass_requests_kinds)
  show "fst (startAutoSync now api w cs) = snd (run_direction BIDIRECTIONAL all_kind api w)"
    by (rule startAutoSync_world)
next
  fix k newId
  assume k: "k < length (pendingProjects w)"
    and n: "\<not> truthy (p_todoistId (pendingProjects w ! k))"
    and a: "addProject api (requests (before_project api w k)) (p_name (pendingProjects w ! k)) =
          Inr newId"
    and u: "\<not> project_todoistId_taken newId (p_id (pendingProjects w ! k))
            (projects (before_project api w k))"
  note row = pass_project_row [OF assms k, of api]
  show pushed: "find_project (p_id (pendingProjects w ! k)) (projects (snd (uploadToTodoist api w))) =
            Some ((pendingProjects w ! k)\<lparr>p_todoistId := Some newId, p_syncStatus := SYNCED\<rparr>)"
    unfolding row(2) upload_project_creates [OF n a u] row(1) by simp
  have s: "p_syncStatus ((pendingProjects w ! k)\<lparr>p_todoistId := Some newId, p_syncStatus := SYNCED\<rparr>) =
      SYNCED" by simp
  have d: "distinct (map p_id (projects (snd (uploadToTodoist api w))))"
    using assms by simp
  from run_pull_row_name [OF d pushed s, where et = et and api = api] obtain m where
    m: "find_project (p_id (pendingProjects w ! k))
          (projects (snd (run_direction BIDIRECTIONAL et api w))) =
        Some ((pendingProjects w ! k)
               \<lparr>p_todoistId := Some newId, p_syncStatus := SYNCED\<rparr>\<lparr>p_name := m\<rparr>)"
    and m': "m = p_name (pendingProjects w ! k) \<or>
        (\<exists>xs. et \<noteq> tasks_kind \<and>
           (getProjects api (requests (snd (uploadToTodoist api w))) = Inr (ArrayResponse xs) \<or>
            getProjects api (requests (snd (uploadToTodoist api w))) = Inr (ResultsResponse xs)) \<and>
           (\<exists>x\<in>set xs. rp_id x = newId \<and> rp_name x = m))"
    unfolding run_bidirectional_world by auto
  have "(pendingProjects w ! k)\<lparr>p_todoistId := Some newId, p_syncStatus := SYNCED\<rparr>\<lparr>p_name := m\<rparr> =
      (pendingProjects w ! k)\<lparr>p_name := m, p_todoistId := Some newId, p_syncStatus := SYNCED\<rparr>"
    by (cases "pendingProjects w ! k") simp
  with m m' show "\<exists>n. find_project (p_id (pendingProjects w ! k))
                 (projects (snd (run_direction BIDIRECTIONAL et api w))) =
               Some ((pendingProjects w ! k)
                      \<lparr>p_name := n, p_todoistId := Some newId, p_syncStatus := SYNCED\<rparr>) \<and>
               (n = p_name (pendingProjects w ! k) \<or>
                (\<exists>xs. et \<noteq> tasks_kind \<and>
                   (getProjects api (requests (snd (uploadToTodoist api w))) =
                      Inr (ArrayResponse xs) \<or>
                    getProjects api (requests (snd (uploadToTodoist api w))) =
                      Inr (ResultsResponse xs)) \<and>
                   (\<exists>x\<in>set xs. rp_id x = newId \<and> rp_name x = n)))"
    by (intro exI [of _ m]) simp
  assume l: "et = tasks_kind \<or>
           (\<forall>xs. getProjects api (requests (snd (uploadToTodoist api w))) = Inr (ArrayResponse xs) \<or>
                 getProjects api (requests (snd (uploadToTodoist api w))) = Inr (ResultsResponse xs) \<longrightarrow>
                 newId \<notin> rp_id ` set xs)"
  show "find_project (p_id (pendingProjects w ! k))
             (projects (snd (run_direction BIDIRECTIONAL et api w))) =
           Some ((pendingProjects w ! k)\<lparr>p_todoistId := Some newId, p_syncStatus := SYNCED\<rparr>)"
  proof (cases "et = tasks_kind")
    case True
    then show ?thesis
      unfolding run_bidirectional_world using pushed
      by (simp add: run_direction_def case_prod_unfold split: sum.splits)
  next
    case False
    with l have "p_todoistId ((pendingProjects w ! k)\<lparr>p_todoistId := Some newId, p_syncStatus := SYNCED\<rparr>)
        \<notin> (\<lambda>x. Some (rp_id x)) ` set xs"
      if "getProjects api (requests (snd (uploadToTodoist api w))) = Inr (ArrayResponse xs) \<or>
          getProjects api (requests (snd (uploadToTodoist api w))) = Inr (ResultsResponse xs)" for xs
      using that by auto
    from run_pull_other [OF d pushed this, where et = et] show ?thesis
      unfolding run_bidirectional_world by simp
  qed
qed

theorem bidirectional_push_then_pull_witness:
  "distinct (map p_id (projects inbox_world)) \<and>
   \<not> truthy (p_todoistId (pendingProjects inbox_world ! 0)) \<and>
   addProject listing_remote (requests (before_project listing_remote inbox_world 0))
     (p_name (pendingProjects inbox_world ! 0)) = Inr ''R-Inbox'' \<and>
   getProjects listing_remote (requests (snd (uploadToTodoist listing_remote inbox_world))) =
     Inr (ArrayResponse [\<lparr>rp_id = ''R1'', rp_name = ''Work'', rp_color = ''teal''\<rparr>]) \<and>
   find_project ''p1'' (projects (snd (uploadToTodoist listing_remote inbox_world))) =
     Some (inbox\<lparr>p_todoistId := Some ''R-Inbox'', p_syncStatus := SYNCED\<rparr>) \<and>
   find_project ''p1'' (projects (snd (run_direction BIDIRECTIONAL all_kind listing_remote inbox_world))) =
     Some (inbox\<lparr>p_todoistId := Some ''R-Inbox'', p_syncStatus := SYNCED\<rparr>) \<and>
   requests (snd (run_direction BIDIRECTIONAL all_kind listing_remote inbox_world)) =
     [AddProject ''Inbox'', GetProjects, GetTasks]"
proof -
  have d: "distinct (map p_id (projects inbox_world))" by code_simp
  have k: "0 < length (pendingProjects inbox_world)" by code_simp
  have p0: "pendingProjects inbox_world ! 0 = inbox" by code_simp
  have n: "\<not> truthy (p_todoistId (pendingProjects inbox_world ! 0))" by code_simp
  have a: "addProject listing_remote (requests (before_project listing_remote inbox_world 0))
     (p_name (pendingProjects inbox_world ! 0)) = Inr ''R-Inbox''" by code_simp
  have u: "\<not> project_todoistId_taken ''R-Inbox'' (p_id (pendingProjects inbox_world ! 0))
            (projects (before_project listing_remote inbox_world 0))" by code_simp
  have i: "p_id inbox = ''p1''" by code_simp
  have g: "getProjects listing_remote (requests (snd (uploadToTodoist listing_remote inbox_world))) =
     Inr (ArrayResponse [\<lparr>rp_id = ''R1'', rp_name = ''Work'', rp_color = ''teal''\<rparr>])"
    by code_simp
  have l: "all_kind = tasks_kind \<or>
     (\<forall>xs. getProjects listing_remote (requests (snd (uploadToTodoist listing_remote inbox_world))) =
             Inr (ArrayResponse xs) \<or>
           getProjects listing_remote (requests (snd (uploadToTodoist listing_remote inbox_world))) =
             Inr (ResultsResponse xs) \<longrightarrow>
           ''R-Inbox'' \<notin> rp_id ` set xs)"
    unfolding g by auto
  note T = bidirectional_push_then_pull [OF d, of all_kind listing_remote]
  note c5 = T [THEN conjunct2, THEN conjunct2, THEN conjunct2, THEN conjunct2, rule_format,
      OF k n a u, unfolded p0 i]
  note pushed = c5 [THEN conjunct1]
  note kept = c5 [THEN conjunct2, THEN conjunct2, rule_format, OF l]
  have r: "requests (snd (run_direction BIDIRECTIONAL all_kind listing_remote inbox_world)) =
     [AddProject ''Inbox'', GetProjects, GetTasks]" by code_simp
  show ?thesis using d n a g pushed kept r by simp
qed

text \<open>
  The claim as first stated promises the remote id and \<open>SYNCED\<close> to every project created
  locally. When the remote refuses the creation, the run still returns, the push has
  been made before the listings, and the project is in \<open>ERROR\<close> with no remote id. And
  when the remote lists the project just created under a name of its own, the pull of the
  same run replaces the local name.
\<close>

theorem bidirectional_claim_counterexample:
  "p_todoistId inbox = None \<and> p_syncStatus inbox = PENDING_UPLOAD \<and> p_name inbox = ''Inbox'' \<and>
   run_direction BIDIRECTIONAL all_kind inbox_down inbox_world =
     (Inr [UploadResult Project_entity act_error ''p1'' (Some (Error ''503''))],
      \<lparr>projects =
         [\<lparr>p_id = ''p1'', p_name = ''Inbox'', p_color = ''blue'', p_todoistId = None,
           p_syncStatus = ERROR\<rparr>],
       tasks = [],
       syncLogs =
         [\<lparr>l_entityType = Project_entity, l_entityId = ''p1'', l_action = UPDATE,
           l_direction = TO_TODOIST, l_todoistId = None, l_errorMessage = Some ''503'',
           l_projectId = Some ''p1'', l_taskId = None\<rparr>],
       requests = [AddProject ''Inbox'', GetProjects, GetTasks]\<rparr>) \<and>
   find_project ''p1''
     (projects (snd (run_direction BIDIRECTIONAL all_kind echo_remote shared_world))) =
     Some \<lparr>p_id = ''p1'', p_name = ''Incoming'', p_color = ''blue'',
           p_todoistId = Some ''R1'', p_syncStatus = SYNCED\<rparr>"
  by code_simp

subsection \<open>What the trigger broadcasts\<close>

text \<open>
  C9, as amended. With at least one listener in the connected set, \<open>triggerSyncOnChange\<close>
  runs the push, the pull of the projects and the pull of the tasks, and always returns.
  When both pulls return it broadcasts \<open>AUTO_SYNC_COMPLETED\<close> with all the results, the
  timestamp and a summary with the fields \<open>total\<close>, \<open>uploaded\<close>, \<open>downloaded\<close> and
  \<open>errors\<close>: \<open>total\<close> is the number of result records, \<open>downloaded\<close> the number of
  records of the two pulls, \<open>errors\<close> the number of \<open>error\<close> records (all of them
  records of the push), and, when no push has failed, \<open>uploaded\<close> is the number of
  \<open>uploaded\<close> records. When a pull throws it broadcasts \<open>AUTO_SYNC_ERROR\<close> with the
  message and the timestamp instead. A broadcast appends the event to what every
  listener of the set whose socket is \<open>OPEN\<close> has received, and to no other.
\<close>

theorem trigger_broadcast_contract:
  assumes "connectedClients \<noteq> []"
  shows
    "(case syncProjectsFromTodoist api (snd (uploadToTodoist api w)) of
        (Inl e, w2) \<Rightarrow>
          triggerSyncOnChange now api w connectedClients =
            (w2, broadcast (AUTO_SYNC_ERROR (error_message e) now) connectedClients)
      | (Inr projectsResults, w2) \<Rightarrow>
          (case syncTasksFromTodoist api w2 of
             (Inl e, w3) \<Rightarrow>
               triggerSyncOnChange now api w connectedClients =
                 (w3, broadcast (AUTO_SYNC_ERROR (error_message e) now) connectedClients)
           | (Inr tasksResults, w3) \<Rightarrow>
               (\<exists>summary.
                  triggerSyncOnChange now api w connectedClients =
                    (w3, broadcast
                       (AUTO_SYNC_COMPLETED (pass_results api w @ projectsResults @ tasksResults)
                          summary now)
                       connectedClients) \<and>
                  as_total summary =
                    length (pass_results api w @ projectsResults @ tasksResults) \<and>
                  as_downloaded summary = length projectsResults + length tasksResults \<and>
                  as_errors summary =
                    count_action act_error (pass_results api w @ projectsResults @ tasksResults) \<and>
                  as_errors summary = count_action act_error (pass_results api w) \<and>
                  (count_action act_error (pass_results api w) = 0 \<longrightarrow>
                     as_uploaded summary =
                       count_action act_uploaded
                         (pass_results api w @ projectsResults @ tasksResults))))) \<and>
     (\<forall>data. map ws_received (broadcast data connectedClients) =
        map (\<lambda>ws. if ws_readyState ws = OPEN then ws_received ws @ [data] else ws_received ws)
          connectedClients) \<and>
     (\<forall>data. map ws_readyState (broadcast data connectedClients) =
        map ws_readyState connectedClients)"
proof (intro conjI allI)
  have t: "triggerSyncOnChange now api w connectedClients = startAutoSync now api w connectedClients"
    using assms by (simp add: triggerSyncOnChange_def)
  have e: "count_action a rs = 0"
    if "\<forall>r\<in>set rs. r_action r = act_created \<or> r_action r = act_updated"
      and "a = act_error \<or> a = act_uploaded" for rs a
    using that by (intro count_action_none) auto
  have u: "count_action act_uploaded (pass_results api w) = length (pass_results api w)"
    if "count_action act_error (pass_results api w) = 0"
    using count_two_actions [OF pass_actions [of api w]] that by simp
  show "(case syncProjectsFromTodoist api (snd (uploadToTodoist api w)) of
        (Inl e, w2) \<Rightarrow>
          triggerSyncOnChange now api w connectedClients =
            (w2, broadcast (AUTO_SYNC_ERROR (error_message e) now) connectedClients)
      | (Inr projectsResults, w2) \<Rightarrow>
          (case syncTasksFromTodoist api w2 of
             (Inl e, w3) \<Rightarrow>
               triggerSyncOnChange now api w connectedClients =
                 (w3, broadcast (AUTO_SYNC_ERROR (error_message e) now) connectedClients)
           | (Inr tasksResults, w3) \<Rightarrow>
               (\<exists>summary.
                  triggerSyncOnChange now api w connectedClients =
                    (w3, broadcast
                       (AUTO_SYNC_COMPLETED (pass_results api w @ projectsResults @ tasksResults)
                          summary now)
                       connectedClients) \<and>
                  as_total summary =
                    length (pass_results api w @ projectsResults @ tasksResults) \<and>
                  as_downloaded summary = length projectsResults + length tasksResults \<and>
                  as_errors summary =
                    count_action act_error (pass_results api w @ projectsResults @ tasksResults) \<and>
                  as_errors summary = count_action act_error (pass_results api w) \<and>
                  (count_action act_error (pass_results api w) = 0 \<longrightarrow>
                     as_uploaded summary =
                       count_action act_uploaded
                         (pass_results api w @ projectsResults @ tasksResults)))))"
  proof -
    define W where "W = snd (uploadToTodoist api w)"
    have up: "uploadToTodoist api w = (Inr (pass_results api w), W)"
      by (simp add: prod_eq_iff pass_returns W_def)
    obtain a w2 where P: "syncProjectsFromTodoist api W = (a, w2)"
      by (cases "syncProjectsFromTodoist api W")
    obtain b w3 where Q: "syncTasksFromTodoist api w2 = (b, w3)"
      by (cases "syncTasksFromTodoist api w2")
    show ?thesis
    proof (cases a)
      case (Inl x)
      then show ?thesis
        unfolding t startAutoSync_def W_def [symmetric]
        by (simp add: P up)
    next
      case (Inr projectsResults)
      have ep: "count_action act_error projectsResults = 0"
        "count_action act_uploaded projectsResults = 0"
        using syncProjects_actions [of api W projectsResults] P Inr by (simp_all add: e)
      show ?thesis
      proof (cases b)
        case (Inl y)
        then show ?thesis
          unfolding t startAutoSync_def W_def [symmetric]
          using Inr by (simp add: P Q up)
      next
        case Inr2: (Inr tasksResults)
        have et: "count_action act_error tasksResults = 0"
          "count_action act_uploaded tasksResults = 0"
          using syncTasks_actions [of api w2 tasksResults] Q Inr2 by (simp_all add: e)
        have s: "startAutoSync now api w connectedClients =
            (w3, broadcast
               (AUTO_SYNC_COMPLETED (pass_results api w @ projectsResults @ tasksResults)
                  \<lparr>as_total = length (pass_results api w @ projectsResults @ tasksResults),
                   as_uploaded = length (pass_results api w),
                   as_downloaded = length projectsResults + length tasksResults,
                   as_errors = count_action act_error
                     (pass_results api w @ projectsResults @ tasksResults)\<rparr> now)
               connectedClients)"
          unfolding startAutoSync_def
          using Inr Inr2 by (simp add: Let_def P Q up)
        have x: "\<exists>summary.
                  startAutoSync now api w connectedClients =
                    (w3, broadcast
                       (AUTO_SYNC_COMPLETED (pass_results api w @ projectsResults @ tasksResults)
                          summary now)
                       connectedClients) \<and>
                  as_total summary =
                    length (pass_results api w @ projectsResults @ tasksResults) \<and>
                  as_downloaded summary = length projectsResults + length tasksResults \<and>
                  as_errors summary =
                    count_action act_error (pass_results api w @ projectsResults @ tasksResults) \<and>
                  as_errors summary = count_action act_error (pass_results api w) \<and>
                  (count_action act_error (pass_results api w) = 0 \<longrightarrow>
                     as_uploaded summary =
                       count_action act_uploaded
                         (pass_results api w @ projectsResults @ tasksResults))"
          unfolding s
          by (rule exI [of _ "\<lparr>as_total = length (pass_results api w @ projectsResults @ tasksResults),
                   as_uploaded = length (pass_results api w),
                   as_downloaded = length projectsResults + length tasksResults,
                   as_errors = count_action act_error
                     (pass_results api w @ projectsResults @ tasksResults)\<rparr>"])
            (simp add: ep et u)
        show ?thesis
          unfolding t W_def [symmetric]
          using x Inr Inr2 by (simp add: P Q)
      qed
    qed
  qed
next
  fix data
  show "map ws_received (broadcast data connectedClients) =
        map (\<lambda>ws. if ws_readyState ws = OPEN then ws_received ws @ [data] else ws_received ws)
          connectedClients" by (rule broadcast_received)
  show "map ws_readyState (broadcast data connectedClients) =
        map ws_readyState connectedClients" by (rule broadcast_states)
qed


theorem trigger_broadcast_contract_witness:
  "listeners \<noteq> [] \<and>
   count_action act_error (pass_results listing_remote inbox_world) = 0 \<and>
   map ws_received (snd (triggerSyncOnChange ''12:00'' listing_remote inbox_world listeners)) =
     [[AUTO_SYNC_COMPLETED
         [UploadResult Project_entity act_uploaded ''p1'' None,
          ProjectResult act_created
            \<lparr>p_id = ''ccc'', p_name = ''Work'', p_color = ''blue'',
             p_todoistId = Some ''R1'', p_syncStatus = SYNCED\<rparr>,
          TaskResult act_created
            \<lparr>t_id = ''c'', t_text = ''Write report'', t_completed = False, t_priority = 1,
             t_notes = Some [], t_dueDate = None, t_projectId = ''ccc'', t_parentId = None,
             t_todoistId = Some ''T1'', t_syncStatus = SYNCED, t_metadata = None\<rparr>]
         \<lparr>as_total = 3, as_uploaded = 1, as_downloaded = 2, as_errors = 0\<rparr> ''12:00''],
      []] \<and>
   triggerSyncOnChange ''12:00'' offline_remote empty_world listeners =
     (sent GetProjects empty_world, broadcast (AUTO_SYNC_ERROR ''offline'' ''12:00'') listeners) \<and>
   map ws_received (broadcast (AUTO_SYNC_ERROR ''offline'' ''12:00'') listeners) =
     [[AUTO_SYNC_ERROR ''offline'' ''12:00''], []]"
proof -
  define pr where "pr = ProjectResult act_created
            \<lparr>p_id = ''ccc'', p_name = ''Work'', p_color = ''blue'',
             p_todoistId = Some ''R1'', p_syncStatus = SYNCED\<rparr>"
  define tr where "tr = TaskResult act_created
            \<lparr>t_id = ''c'', t_text = ''Write report'', t_completed = False, t_priority = 1,
             t_notes = Some [], t_dueDate = None, t_projectId = ''ccc'', t_parentId = None,
             t_todoistId = Some ''T1'', t_syncStatus = SYNCED, t_metadata = None\<rparr>"
  define ur where "ur = UploadResult Project_entity act_uploaded ''p1'' None"
  have n: "listeners \<noteq> []" by code_simp
  note T = trigger_broadcast_contract [OF n, where api = listing_remote and w = inbox_world and now = "''12:00''"]
  note E = trigger_broadcast_contract [OF n, where api = offline_remote and w = empty_world and now = "''12:00''"]
  have pass: "pass_results listing_remote inbox_world = [ur]"
    unfolding ur_def by code_simp
  have p: "fst (syncProjectsFromTodoist listing_remote (snd (uploadToTodoist listing_remote inbox_world))) =
      Inr [pr]"
    unfolding pr_def by code_simp
  have q: "fst (syncTasksFromTodoist listing_remote
        (snd (syncProjectsFromTodoist listing_remote (snd (uploadToTodoist listing_remote inbox_world))))) =
      Inr [tr]"
    unfolding tr_def by code_simp
  have c: "count_action act_error [ur] = 0" "count_action act_error [ur, pr, tr] = 0"
    "count_action act_uploaded [ur, pr, tr] = 1"
    unfolding ur_def pr_def tr_def by code_simp+
  from T [THEN conjunct1] p q obtain summary where
    s: "snd (triggerSyncOnChange ''12:00'' listing_remote inbox_world listeners) =
          broadcast (AUTO_SYNC_COMPLETED [ur, pr, tr] summary ''12:00'') listeners"
      "as_total summary = 3" "as_downloaded summary = 2" "as_errors summary = 0"
      "as_uploaded summary = 1"
    by (auto simp: case_prod_unfold pass c split: sum.splits)
  have sm: "summary = \<lparr>as_total = 3, as_uploaded = 1, as_downloaded = 2, as_errors = 0\<rparr>"
    using s(2-5) by (cases summary) simp
  have r: "map (\<lambda>ws. if ws_readyState ws = OPEN then ws_received ws @ [data] else ws_received ws)
      listeners = [[data], []]" for data :: event
    by (simp add: listeners_def)
  have done': "map ws_received (snd (triggerSyncOnChange ''12:00'' listing_remote inbox_world listeners)) =
      [[AUTO_SYNC_COMPLETED [ur, pr, tr]
          \<lparr>as_total = 3, as_uploaded = 1, as_downloaded = 2, as_errors = 0\<rparr> ''12:00''], []]"
    unfolding s(1) sm T [THEN conjunct2, THEN conjunct1, rule_format] r by (rule refl)
  have u: "uploadToTodoist offline_remote empty_world = (Inr [], empty_world)" by code_simp
  have po: "syncProjectsFromTodoist offline_remote empty_world =
      (Inl (Error ''offline''), sent GetProjects empty_world)" by code_simp
  have m: "error_message (Error ''offline'') = ''offline''" by code_simp
  have failed: "triggerSyncOnChange ''12:00'' offline_remote empty_world listeners =
      (sent GetProjects empty_world, broadcast (AUTO_SYNC_ERROR ''offline'' ''12:00'') listeners)"
    using E [THEN conjunct1] by (simp add: u po m)
  show ?thesis
    using n pass c(1) done' failed
      E [THEN conjunct2, THEN conjunct1, rule_format, of "AUTO_SYNC_ERROR ''offline'' ''12:00''"] r
    by (simp add: ur_def pr_def tr_def)
qed

text \<open>
  The claim as first stated gives the summary the three fields \<open>{total,
  createdOrUploaded, errors}\<close>. The summary has four, and none of them counts the
  records created or uploaded: on the example one project is uploaded, one is created by
  the pull and two are updated by it, no push fails, and the summary reads \<open>total = 4\<close>,
  \<open>uploaded = 1\<close>, \<open>downloaded = 3\<close>, \<open>errors = 0\<close>, while two records are created
  or uploaded. Both listeners receive the event.
\<close>

theorem trigger_summary_counterexample:
  "map ws_received (snd (triggerSyncOnChange ''12:00'' echo_remote shared_world open_listeners)) =
     [[AUTO_SYNC_COMPLETED
         [UploadResult Project_entity act_uploaded ''p1'' None,
          ProjectResult act_updated
            \<lparr>p_id = ''p5'', p_name = ''Garden'', p_color = ''green'',
             p_todoistId = Some ''R5'', p_syncStatus = SYNCED\<rparr>,
          ProjectResult act_updated
            \<lparr>p_id = ''p1'', p_name = ''Incoming'', p_color = ''blue'',
             p_todoistId = Some ''R1'', p_syncStatus = SYNCED\<rparr>,
          ProjectResult act_created
            \<lparr>p_id = ''ccc'', p_name = ''Reading'', p_color = ''red'',
             p_todoistId = Some ''R7'', p_syncStatus = SYNCED\<rparr>]
         \<lparr>as_total = 4, as_uploaded = 1, as_downloaded = 3, as_errors = 0\<rparr> ''12:00''],
      [AUTO_SYNC_COMPLETED
         [UploadResult Project_entity act_uploaded ''p1'' None,
          ProjectResult act_updated
            \<lparr>p_id = ''p5'', p_name = ''Garden'', p_color = ''green'',
             p_todoistId = Some ''R5'', p_syncStatus = SYNCED\<rparr>,
          ProjectResult act_updated
            \<lparr>p_id = ''p1'', p_name = ''Incoming'', p_color = ''blue'',
             p_todoistId = Some ''R1'', p_syncStatus = SYNCED\<rparr>,
          ProjectResult act_created
            \<lparr>p_id = ''ccc'', p_name = ''Reading'', p_color = ''red'',
             p_todoistId = Some ''R7'', p_syncStatus = SYNCED\<rparr>]
         \<lparr>as_total = 4, as_uploaded = 1, as_downloaded = 3, as_errors = 0\<rparr> ''12:00'']] \<and>
   count_action act_created
     [UploadResult Project_entity act_uploaded ''p1'' None,
      ProjectResult act_updated
        \<lparr>p_id = ''p5'', p_name = ''Garden'', p_color = ''green'',
         p_todoistId = Some ''R5'', p_syncStatus = SYNCED\<rparr>,
      ProjectResult act_updated
        \<lparr>p_id = ''p1'', p_name = ''Incoming'', p_color = ''blue'',
         p_todoistId = Some ''R1'', p_syncStatus = SYNCED\<rparr>,
      ProjectResult act_created
        \<lparr>p_id = ''ccc'', p_name = ''Reading'', p_color = ''red'',
         p_todoistId = Some ''R7'', p_syncStatus = SYNCED\<rparr>] +
   count_action act_uploaded
     [UploadResult Project_entity act_uploaded ''p1'' None,
      ProjectResult act_updated
        \<lparr>p_id = ''p5'', p_name = ''Garden'', p_color = ''green'',
         p_todoistId = Some ''R5'', p_syncStatus = SYNCED\<rparr>,
      ProjectResult act_updated
        \<lparr>p_id = ''p1'', p_name = ''Incoming'', p_color = ''blue'',
         p_todoistId = Some ''R1'', p_syncStatus = SYNCED\<rparr>,
      ProjectResult act_created
        \<lparr>p_id = ''ccc'', p_name = ''Reading'', p_color = ''red'',
         p_todoistId = Some ''R7'', p_syncStatus = SYNCED\<rparr>] = 2"
  by code_simp

text \<open>
  The amended claim leaves open what \<open>uploaded\<close> reads after a failed push.
  \<open>startAutoSync\<close> takes the number of all the records of the push, the failed ones
  too, where \<open>forceSyncToTodoist\<close> counts the records with the action \<open>uploaded\<close>:
  when the only push fails, the first reports one upload and the second none.
\<close>

lemma auto_sync_uploaded_after_failed_push:
  "map ws_received (snd (startAutoSync ''12:00'' read_only_remote renamed_world listeners)) =
     [[AUTO_SYNC_COMPLETED
         [UploadResult Project_entity act_error ''p4'' (Some (Error ''403'')),
          ProjectResult act_updated
            \<lparr>p_id = ''p4'', p_name = ''Chores'', p_color = ''yellow'',
             p_todoistId = Some ''R4'', p_syncStatus = SYNCED\<rparr>]
         \<lparr>as_total = 2, as_uploaded = 1, as_downloaded = 1, as_errors = 1\<rparr> ''12:00''],
      []] \<and>
   map ws_received (snd (forceSyncToTodoist ''12:00'' read_only_remote renamed_world listeners)) =
     [[FORCE_SYNC_COMPLETED
         [UploadResult Project_entity act_error ''p4'' (Some (Error ''403''))]
         \<lparr>fs_total = 1, fs_uploaded = 0, fs_errors = 1\<rparr> ''12:00''],
      []]"
  by code_simp

subsection \<open>The change trigger in the mutation routes\<close>

text \<open>
  C8. The claim does not hold of the code: the route that deletes a project returns
  without calling the trigger, whatever the server holds, so no request is sent and no
  listener is told. On the example server, with one open listener, deleting the
  project answers with success and broadcasts nothing, while deleting the task runs
  one pass and broadcasts its completion, as do the routes that create, update and
  toggle. The trigger itself does nothing when no listener is connected and starts
  exactly one pass otherwise.
\<close>

theorem project_delete_skips_trigger:
  "sv_service (snd (delete_project_route i sv)) = sv_service sv \<and>
   requests (sv_world (snd (delete_project_route i sv))) = requests (sv_world sv) \<and>
   delete_project_route ''p5'' watched_server =
     (Message_reply ''Project deleted successfully'',
      \<lparr>sv_world = \<lparr>projects = [], tasks = [], syncLogs = [], requests = []\<rparr>,
       sv_service = Some [\<lparr>ws_readyState = OPEN, ws_received = []\<rparr>]\<rparr>) \<and>
   delete_task_route ''12:00'' always_up ''t5'' watched_server =
     (Message_reply ''Task deleted successfully'',
      \<lparr>sv_world = \<lparr>projects = [garden], tasks = [], syncLogs = [],
                    requests = [GetProjects, GetTasks]\<rparr>,
       sv_service =
         Some [\<lparr>ws_readyState = OPEN,
                ws_received =
                  [AUTO_SYNC_COMPLETED []
                     \<lparr>as_total = 0, as_uploaded = 0, as_downloaded = 0, as_errors = 0\<rparr>
                     ''12:00'']\<rparr>]\<rparr>) \<and>
   triggerSyncOnChange now api w [] = (w, []) \<and>
   triggerSyncOnChange now api w (c # cs) = startAutoSync now api w (c # cs)"
proof (intro conjI)
  show "sv_service (snd (delete_project_route i sv)) = sv_service sv"
    by (simp add: delete_project_route_def Let_def split: option.splits)
  show "requests (sv_world (snd (delete_project_route i sv))) = requests (sv_world sv)"
    by (simp add: delete_project_route_def delete_project_def delete_tasks_def Let_def
        split: option.splits)
  show "delete_project_route ''p5'' watched_server =
     (Message_reply ''Project deleted successfully'',
      \<lparr>sv_world = \<lparr>projects = [], tasks = [], syncLogs = [], requests = []\<rparr>,
       sv_service = Some [\<lparr>ws_readyState = OPEN, ws_received = []\<rparr>]\<rparr>)"
    by code_simp
  show "delete_task_route ''12:00'' always_up ''t5'' watched_server =
     (Message_reply ''Task deleted successfully'',
      \<lparr>sv_world = \<lparr>projects = [garden], tasks = [], syncLogs = [],
                    requests = [GetProjects, GetTasks]\<rparr>,
       sv_service =
         Some [\<lparr>ws_readyState = OPEN,
                ws_received =
                  [AUTO_SYNC_COMPLETED []
                     \<lparr>as_total = 0, as_uploaded = 0, as_downloaded = 0, as_errors = 0\<rparr>
                     ''12:00'']\<rparr>]\<rparr>)"
    by code_simp
  show "triggerSyncOnChange now api w [] = (w, [])"
    by (simp add: triggerSyncOnChange_def)
  show "triggerSyncOnChange now api w (c # cs) = startAutoSync now api w (c # cs)"
    by (simp add: triggerSyncOnChange_def)
qed

end
